(* ===== verification/Prelude.thy ===== *)
theory Prelude
  imports Complex_Main
begin

text \<open>
  Generic material shared by every component: the result type of fallible code, the
  state-and-exception procedures in which the REST layer and the gateway are written, the
  handful of \<^verbatim>\<open>std::string\<close> operations the sources use, and the decimal conversions
  (\<^verbatim>\<open>std::to_string\<close>, \<^verbatim>\<open>strtol\<close>, \<^verbatim>\<open>stoll\<close>, \<^verbatim>\<open>stoull\<close>).
  Three fact collections carry the component proofs: \<open>proc_simps\<close> (the equations of the
  procedure combinators), \<open>str_simps\<close> (strings and decimals) and \<open>model_defs\<close>
  (definitions a component unfolds as a matter of course).
\<close>

named_theorems proc_simps "equations of the procedure combinators"
named_theorems str_simps "facts on strings and decimal numerals"
named_theorems model_defs "definitions unfolded by component proofs"

section \<open>Exceptions\<close>

text \<open>
  \<open>RejectKind\<close> names the enumerators of the execution interface that the gateway
  uses. \<open>exn\<close> has one constructor for each exception type the sources throw or let pass:
  the three classes of \<^verbatim>\<open>bybit_http_session.h\<close> (the first two derive from
  \<^verbatim>\<open>UnknownOutcomeError\<close>), the gateway's \<^verbatim>\<open>GatewayError\<close>, and the standard
  and third-party classes, each with its \<^verbatim>\<open>what()\<close> text. All derive from
  \<^verbatim>\<open>std::exception\<close>.
\<close>

datatype RejectKind =
  BenignPostOnlyCross | MinNotional | Throttled | PositionClosed | Permanent | Hard

datatype exn =
    TransportError string
  | ExecutionUnknown string
  | OrderNotFound string
  | GatewayError RejectKind string
  | RuntimeError string
  | InvalidArgument string
  | OutOfRange string
  | JsonException string
  | SystemError string

primrec what :: "exn \<Rightarrow> string" where
  "what (TransportError m) = m"
| "what (ExecutionUnknown m) = m"
| "what (OrderNotFound m) = m"
| "what (GatewayError k m) = m"
| "what (RuntimeError m) = m"
| "what (InvalidArgument m) = m"
| "what (OutOfRange m) = m"
| "what (JsonException m) = m"
| "what (SystemError m) = m"

fun is_unknown_outcome :: "exn \<Rightarrow> bool" where
  "is_unknown_outcome (TransportError m) = True"
| "is_unknown_outcome (ExecutionUnknown m) = True"
| "is_unknown_outcome _ = False"

fun is_gateway_error :: "exn \<Rightarrow> bool" where
  "is_gateway_error (GatewayError k m) = True"
| "is_gateway_error _ = False"

section \<open>Fallible computations\<close>

type_synonym 'a res = "exn + 'a"

definition bindR :: "'a res \<Rightarrow> ('a \<Rightarrow> 'b res) \<Rightarrow> 'b res" where
  "bindR m f = (case m of Inl e \<Rightarrow> Inl e | Inr x \<Rightarrow> f x)"

lemma bindR_simps [simp, proc_simps]:
  "bindR (Inl e) f = Inl e"
  "bindR (Inr x) f = f x"
  by (simp_all add: bindR_def)

lemma bindR_eq_Inr: "bindR m f = Inr y \<longleftrightarrow> (\<exists>x. m = Inr x \<and> f x = Inr y)"
  by (cases m) auto

lemma bindR_eq_Inl: "bindR m f = Inl e \<longleftrightarrow> m = Inl e \<or> (\<exists>x. m = Inr x \<and> f x = Inl e)"
  by (cases m) auto

text \<open>A sequence of field updates, each of which may throw: the body of a parser.\<close>

fun runSteps :: "('r \<Rightarrow> 'r res) list \<Rightarrow> 'r \<Rightarrow> 'r res" where
  "runSteps [] r = Inr r"
| "runSteps (f # fs) r = bindR (f r) (runSteps fs)"

lemma runSteps_append: "runSteps (fs @ gs) r = bindR (runSteps fs r) (runSteps gs)"
  by (induction fs arbitrary: r) (auto simp: bindR_def split: sum.splits)

text \<open>A step that leaves what \<open>p\<close> observes alone may be skipped when \<open>p\<close> is read off.\<close>

lemma runSteps_keeps:
  assumes "\<And>f r r'. f \<in> set fs \<Longrightarrow> f r = Inr r' \<Longrightarrow> p r' = p r"
    and "runSteps fs r = Inr r'"
  shows "p r' = p r"
  using assms
proof (induction fs arbitrary: r)
  case Nil
  then show ?case by simp
next
  case (Cons f fs)
  from Cons.prems(2) obtain q where q: "f r = Inr q" "runSteps fs q = Inr r'"
    by (auto simp: bindR_eq_Inr)
  have "p r' = p q"
    using Cons.prems(1) q(2) by (intro Cons.IH) auto
  also have "p q = p r"
    using Cons.prems(1) [of f] q(1) by simp
  finally show ?case .
qed

text \<open>\<^verbatim>\<open>for (el : items) { T x; x.fromJson(el); v.push_back(x); }\<close>\<close>

fun pushAll :: "('j \<Rightarrow> 'a res) \<Rightarrow> 'j list \<Rightarrow> 'a list \<Rightarrow> 'a list res" where
  "pushAll f [] acc = Inr acc"
| "pushAll f (j # js) acc = bindR (f j) (\<lambda>x. pushAll f js (acc @ [x]))"

lemma pushAll_Inr:
  "pushAll f js acc = Inr xs \<longleftrightarrow>
     (\<exists>ys. xs = acc @ ys \<and> list_all2 (\<lambda>j y. f j = Inr y) js ys)"
proof (induction js arbitrary: acc)
  case Nil
  then show ?case by auto
next
  case (Cons j js)
  show ?case
    by (cases "f j") (auto simp: Cons.IH list_all2_Cons1)
qed

lemma pushAll_length: "pushAll f js [] = Inr xs \<Longrightarrow> length xs = length js"
  by (auto simp: pushAll_Inr dest: list_all2_lengthD)

section \<open>Procedures: state, exceptions and non-termination\<close>

text \<open>
  A procedure maps a state to \<open>None\<close> when the code does not return, and otherwise to the
  value or the exception it ends with and the state it leaves.
\<close>

type_synonym ('s, 'a) proc = "'s \<Rightarrow> ('a res \<times> 's) option"

definition ret :: "'a \<Rightarrow> ('s, 'a) proc" where
  "ret x = (\<lambda>s. Some (Inr x, s))"

definition throwP :: "exn \<Rightarrow> ('s, 'a) proc" where
  "throwP e = (\<lambda>s. Some (Inl e, s))"

definition bindP :: "('s, 'a) proc \<Rightarrow> ('a \<Rightarrow> ('s, 'b) proc) \<Rightarrow> ('s, 'b) proc" where
  "bindP m f = (\<lambda>s. case m s of None \<Rightarrow> None
     | Some (r, s') \<Rightarrow> (case r of Inl e \<Rightarrow> Some (Inl e, s') | Inr x \<Rightarrow> f x s'))"

definition catchP :: "('s, 'a) proc \<Rightarrow> (exn \<Rightarrow> ('s, 'a) proc) \<Rightarrow> ('s, 'a) proc" where
  "catchP m h = (\<lambda>s. case m s of None \<Rightarrow> None
     | Some (r, s') \<Rightarrow> (case r of Inl e \<Rightarrow> h e s' | Inr x \<Rightarrow> Some (Inr x, s')))"

definition liftR :: "'a res \<Rightarrow> ('s, 'a) proc" where
  "liftR r = (\<lambda>s. Some (r, s))"

definition readP :: "('s \<Rightarrow> 'a) \<Rightarrow> ('s, 'a) proc" where
  "readP f = (\<lambda>s. Some (Inr (f s), s))"

definition modifyP :: "('s \<Rightarrow> 's) \<Rightarrow> ('s, unit) proc" where
  "modifyP f = (\<lambda>s. Some (Inr (), f s))"

text \<open>Running a procedure of a part inside a whole: the part is read and written back.\<close>

definition zoomP :: "('s \<Rightarrow> 't) \<Rightarrow> ('t \<Rightarrow> 's \<Rightarrow> 's) \<Rightarrow> ('t, 'a) proc \<Rightarrow> ('s, 'a) proc" where
  "zoomP get put m = (\<lambda>s. case m (get s) of None \<Rightarrow> None | Some (r, t) \<Rightarrow> Some (r, put t s))"

lemma proc_apply [simp, proc_simps]:
  "ret x s = Some (Inr x, s)"
  "throwP e s = Some (Inl e, s)"
  "liftR r s = Some (r, s)"
  "readP f s = Some (Inr (f s), s)"
  "modifyP g s = Some (Inr (), g s)"
  by (simp_all add: ret_def throwP_def liftR_def readP_def modifyP_def)

lemma bindP_cases:
  "bindP m f s = None \<longleftrightarrow> m s = None \<or> (\<exists>x s'. m s = Some (Inr x, s') \<and> f x s' = None)"
  "bindP m f s = Some (Inl e, t) \<longleftrightarrow>
     m s = Some (Inl e, t) \<or> (\<exists>x s'. m s = Some (Inr x, s') \<and> f x s' = Some (Inl e, t))"
  "bindP m f s = Some (Inr y, t) \<longleftrightarrow>
     (\<exists>x s'. m s = Some (Inr x, s') \<and> f x s' = Some (Inr y, t))"
  by (auto simp: bindP_def split: option.splits sum.splits prod.splits)

lemma bindP_step [proc_simps]:
  "m s = None \<Longrightarrow> bindP m f s = None"
  "m s = Some (Inl e, s') \<Longrightarrow> bindP m f s = Some (Inl e, s')"
  "m s = Some (Inr x, s') \<Longrightarrow> bindP m f s = f x s'"
  by (simp_all add: bindP_def)

lemma catchP_step [proc_simps]:
  "m s = None \<Longrightarrow> catchP m h s = None"
  "m s = Some (Inl e, s') \<Longrightarrow> catchP m h s = h e s'"
  "m s = Some (Inr x, s') \<Longrightarrow> catchP m h s = Some (Inr x, s')"
  by (simp_all add: catchP_def)

lemma catchP_cases:
  "catchP m h s = Some (r, t) \<longleftrightarrow>
     (\<exists>x. m s = Some (Inr x, t) \<and> r = Inr x) \<or> (\<exists>e s'. m s = Some (Inl e, s') \<and> h e s' = Some (r, t))"
  by (auto simp: catchP_def split: option.splits sum.splits prod.splits)

lemma zoomP_step [proc_simps]:
  "m (get s) = None \<Longrightarrow> zoomP get put m s = None"
  "m (get s) = Some (r, t) \<Longrightarrow> zoomP get put m s = Some (r, put t s)"
  by (simp_all add: zoomP_def)

lemma zoomP_eq_Some:
  "zoomP get put m s = Some (r, s') \<longleftrightarrow> (\<exists>t. m (get s) = Some (r, t) \<and> s' = put t s)"
  by (auto simp: zoomP_def split: option.splits prod.splits)

text \<open>What a procedure does not write, its combinations do not write.\<close>

definition keepsP :: "('s \<Rightarrow> 'v) \<Rightarrow> ('s, 'a) proc \<Rightarrow> bool" where
  "keepsP v m \<longleftrightarrow> (\<forall>s r s'. m s = Some (r, s') \<longrightarrow> v s' = v s)"

lemma keepsP_D: "keepsP v m \<Longrightarrow> m s = Some (r, s') \<Longrightarrow> v s' = v s"
  by (simp add: keepsP_def)

lemma keepsP_basic [intro, simp]:
  "keepsP v (ret x)" "keepsP v (throwP e)" "keepsP v (liftR r)" "keepsP v (readP f)"
  by (auto simp: keepsP_def)

lemma keepsP_bindP [intro]:
  assumes "keepsP v m" and "\<And>x. keepsP v (f x)"
  shows "keepsP v (bindP m f)"
  unfolding keepsP_def
proof (intro allI impI)
  fix s r s'
  assume "bindP m f s = Some (r, s')"
  then consider e where "m s = Some (Inl e, s')"
    | x t where "m s = Some (Inr x, t)" "f x t = Some (r, s')"
    by (auto simp: bindP_def split: option.splits sum.splits prod.splits)
  then show "v s' = v s"
    by cases (use assms in \<open>auto simp: keepsP_def\<close>)
qed

lemma keepsP_catchP [intro]:
  assumes "keepsP v m" and "\<And>e. keepsP v (h e)"
  shows "keepsP v (catchP m h)"
  unfolding keepsP_def
proof (intro allI impI)
  fix s r s'
  assume "catchP m h s = Some (r, s')"
  then show "v s' = v s"
    unfolding catchP_cases using assms by (auto simp: keepsP_def)
qed

text \<open>An invariant of the state that a procedure preserves, whether it returns or throws.\<close>

definition holdsP :: "('s \<Rightarrow> bool) \<Rightarrow> ('s, 'a) proc \<Rightarrow> bool" where
  "holdsP I m \<longleftrightarrow> (\<forall>s r s'. I s \<longrightarrow> m s = Some (r, s') \<longrightarrow> I s')"

lemma holdsP_D: "holdsP I m \<Longrightarrow> m s = Some (r, s') \<Longrightarrow> I s \<Longrightarrow> I s'"
  by (auto simp: holdsP_def)

lemma holdsP_basic [intro, simp]:
  "holdsP I (ret x)" "holdsP I (throwP e)" "holdsP I (liftR r)" "holdsP I (readP f)"
  by (auto simp: holdsP_def)

lemma holdsP_modifyP [intro]: "(\<And>s. I s \<Longrightarrow> I (f s)) \<Longrightarrow> holdsP I (modifyP f)"
  by (auto simp: holdsP_def)

lemma holdsP_bindP [intro]:
  assumes "holdsP I m" and "\<And>x. holdsP I (f x)"
  shows "holdsP I (bindP m f)"
  unfolding holdsP_def
proof (intro allI impI)
  fix s r s'
  assume "I s" "bindP m f s = Some (r, s')"
  then consider e where "m s = Some (Inl e, s')"
    | x t where "m s = Some (Inr x, t)" "f x t = Some (r, s')"
    by (auto simp: bindP_def split: option.splits sum.splits prod.splits)
  then show "I s'"
    by cases (use assms \<open>I s\<close> in \<open>blast dest: holdsP_D\<close>)+
qed

lemma holdsP_catchP [intro]:
  assumes "holdsP I m" and "\<And>e. holdsP I (h e)"
  shows "holdsP I (catchP m h)"
  unfolding holdsP_def catchP_cases using assms by (blast dest: holdsP_D)

lemma holdsP_zoomP:
  assumes "holdsP K m" and "\<And>s. I s \<Longrightarrow> K (get s)" and "\<And>s t. I s \<Longrightarrow> K t \<Longrightarrow> I (put t s)"
  shows "holdsP I (zoomP get put m)"
  unfolding holdsP_def zoomP_eq_Some using assms by (blast dest: holdsP_D)

section \<open>Strings\<close>

abbreviation starts_with :: "string \<Rightarrow> string \<Rightarrow> bool" where
  "starts_with pre s \<equiv> take (length pre) s = pre"

definition ends_with :: "string \<Rightarrow> string \<Rightarrow> bool" where
  "ends_with suf s = starts_with (rev suf) (rev s)"

text \<open>\<^verbatim>\<open>s.find(pat)\<close>: the position of the first occurrence, \<open>None\<close> for \<^verbatim>\<open>npos\<close>.\<close>

fun str_find :: "string \<Rightarrow> string \<Rightarrow> nat option" where
  "str_find pat [] = (if pat = [] then Some 0 else None)"
| "str_find pat (c # cs) =
     (if starts_with pat (c # cs) then Some 0 else map_option Suc (str_find pat cs))"

definition contains_str :: "string \<Rightarrow> string \<Rightarrow> bool" where
  "contains_str pat s = (str_find pat s \<noteq> None)"

lemma str_find_Some:
  "str_find pat s = Some n \<Longrightarrow> starts_with pat (drop n s) \<and> n + length pat \<le> length s"
proof (induction pat s arbitrary: n rule: str_find.induct)
  case (1 pat)
  then show ?case by (auto split: if_splits)
next
  case (2 pat c cs)
  show ?case
  proof (cases "starts_with pat (c # cs)")
    case True
    then have "length pat \<le> length (c # cs)"
      by (metis length_take min.absorb_iff2 min.commute)
    with True 2 show ?thesis by auto
  next
    case False
    with 2 show ?thesis by auto
  qed
qed

lemma str_find_prefix: "str_find pat (pat @ s) = Some 0"
proof (cases "pat @ s")
  case (Cons c cs)
  then have "starts_with pat (c # cs)"
    by (metis append_eq_conv_conj)
  with Cons show ?thesis by simp
qed auto

lemma contains_str_iff: "contains_str pat s \<longleftrightarrow> (\<exists>u v. s = u @ pat @ v)"
proof
  assume "contains_str pat s"
  then obtain n where "str_find pat s = Some n"
    by (auto simp: contains_str_def)
  then have "starts_with pat (drop n s)"
    using str_find_Some by blast
  then have "drop n s = pat @ drop (length pat) (drop n s)"
    by (metis append_take_drop_id)
  then have "s = take n s @ pat @ drop (length pat) (drop n s)"
    by (metis append_take_drop_id)
  then show "\<exists>u v. s = u @ pat @ v" by blast
next
  assume "\<exists>u v. s = u @ pat @ v"
  then obtain u v where s: "s = u @ pat @ v" by blast
  have "str_find pat (u @ pat @ v) \<noteq> None"
    by (induction u) (use str_find_prefix [of pat v] in auto)
  with s show "contains_str pat s" by (simp add: contains_str_def)
qed

lemma contains_str_append [simp, str_simps]: "contains_str pat (u @ pat @ v)"
  by (auto simp: contains_str_iff)

text \<open>\<^verbatim>\<open>std::tolower\<close> and \<^verbatim>\<open>to_upper_copy\<close> in the C locale: ASCII letters only.\<close>

definition char_lower :: "char \<Rightarrow> char" where
  "char_lower c = (let n = of_char c :: nat in if 65 \<le> n \<and> n \<le> 90 then char_of (n + 32) else c)"

definition char_upper :: "char \<Rightarrow> char" where
  "char_upper c = (let n = of_char c :: nat in if 97 \<le> n \<and> n \<le> 122 then char_of (n - 32) else c)"

definition toLower :: "string \<Rightarrow> string" where
  "toLower s = map char_lower s"

definition toUpper :: "string \<Rightarrow> string" where
  "toUpper s = map char_upper s"

lemma toLower_append [str_simps]: "toLower (u @ v) = toLower u @ toLower v"
  by (simp add: toLower_def)

lemma toUpper_append [str_simps]: "toUpper (u @ v) = toUpper u @ toUpper v"
  by (simp add: toUpper_def)

lemma char_upper_idem [simp]: "char_upper (char_upper c) = char_upper c"
  by (auto simp: char_upper_def Let_def)

lemma toUpper_idem [simp]: "toUpper (toUpper s) = toUpper s"
  by (simp add: toUpper_def)

end
