(* ===== verification/Enums.thy ===== *)
theory Enums
  imports Prelude
begin

text \<open>
  The enumerations of \<^verbatim>\<open>bybit_enums.h\<close>, with the sources' enumerators (those of
  \<open>CandleInterval\<close> start with a letter here, \<open>I_60\<close> for \<^verbatim>\<open>_60\<close>; an enumerator
  whose name two enumerations share carries a prefix in the second), and the name
  \<^verbatim>\<open>magic_enum::enum_name\<close> gives each enumerator: the spelling of the source, or the
  customised one for \<open>CandleInterval\<close>. The names are what the code sends to the venue and
  looks enumerators up by.
\<close>

datatype CandleInterval =
  I_1 | I_3 | I_5 | I_15 | I_30 | I_60 | I_120 | I_240 | I_360 | I_720 | I_D | I_M | I_W

datatype Side = Buy | Sell | SideNone

datatype TpSlMode = Full | Partial

datatype ContractType = InversePerpetual | LinearPerpetual | LinearFutures | InverseFutures

datatype ContractStatus = PreLaunch | Trading | Settling | Delivering | Closed

datatype OrderType = Limit | Market

datatype TriggerPriceType = LastPrice | IndexPrice | MarkPrice | TriggerUNKNOWN

datatype OrderStatus =
    Created | New | Rejected | PartiallyFilled | PartiallyFilledCanceled | Filled
  | PendingCancel | Cancelled | Untriggered | Deactivated | Triggered | Active

datatype AccountType = CONTRACT | UNIFIED | FUND | SPOT | OPTION

datatype Category = spot | linear | inverse | option

datatype PositionStatus = Normal | Liq | Adl

datatype PositionMode = MergedSingle | BothSides

text \<open>The underlying values of \<open>PositionMode\<close>, which are what is sent.\<close>

primrec PositionMode_value :: "PositionMode \<Rightarrow> int" where
  "PositionMode_value MergedSingle = 0"
| "PositionMode_value BothSides = 3"

datatype TimeInForce = GTC | IOC | FOK | PostOnly

datatype ResponseType = snapshot | delta

datatype Environment = Mainnet | Testnet | Demo

datatype ExecType =
    Trade | AdlTrade | Funding | BustTrade | Delivery | Settle | BlockTrade
  | MovePosition | FutureSpread | ExecUNKNOWN

primrec CandleInterval_name :: "CandleInterval \<Rightarrow> string" where
  "CandleInterval_name I_1 = ''1''"
| "CandleInterval_name I_3 = ''3''"
| "CandleInterval_name I_5 = ''5''"
| "CandleInterval_name I_15 = ''15''"
| "CandleInterval_name I_30 = ''30''"
| "CandleInterval_name I_60 = ''60''"
| "CandleInterval_name I_120 = ''120''"
| "CandleInterval_name I_240 = ''240''"
| "CandleInterval_name I_360 = ''360''"
| "CandleInterval_name I_720 = ''720''"
| "CandleInterval_name I_D = ''D''"
| "CandleInterval_name I_M = ''M''"
| "CandleInterval_name I_W = ''W''"

primrec Category_name :: "Category \<Rightarrow> string" where
  "Category_name spot = ''spot''"
| "Category_name linear = ''linear''"
| "Category_name inverse = ''inverse''"
| "Category_name option = ''option''"

primrec Side_name :: "Side \<Rightarrow> string" where
  "Side_name Buy = ''Buy''"
| "Side_name Sell = ''Sell''"
| "Side_name SideNone = ''None''"

primrec OrderType_name :: "OrderType \<Rightarrow> string" where
  "OrderType_name Limit = ''Limit''"
| "OrderType_name Market = ''Market''"

primrec TimeInForce_name :: "TimeInForce \<Rightarrow> string" where
  "TimeInForce_name GTC = ''GTC''"
| "TimeInForce_name IOC = ''IOC''"
| "TimeInForce_name FOK = ''FOK''"
| "TimeInForce_name PostOnly = ''PostOnly''"

primrec TriggerPriceType_name :: "TriggerPriceType \<Rightarrow> string" where
  "TriggerPriceType_name LastPrice = ''LastPrice''"
| "TriggerPriceType_name IndexPrice = ''IndexPrice''"
| "TriggerPriceType_name MarkPrice = ''MarkPrice''"
| "TriggerPriceType_name TriggerUNKNOWN = ''UNKNOWN''"

primrec AccountType_name :: "AccountType \<Rightarrow> string" where
  "AccountType_name CONTRACT = ''CONTRACT''"
| "AccountType_name UNIFIED = ''UNIFIED''"
| "AccountType_name FUND = ''FUND''"
| "AccountType_name SPOT = ''SPOT''"
| "AccountType_name OPTION = ''OPTION''"

section \<open>The customised interval names\<close>

definition all_intervals :: "CandleInterval list" where
  "all_intervals = [I_1, I_3, I_5, I_15, I_30, I_60, I_120, I_240, I_360, I_720, I_D, I_M, I_W]"

text \<open>\<^verbatim>\<open>magic_enum::enum_cast<CandleInterval>\<close>: the enumerator of that name, if any.\<close>

definition CandleInterval_cast :: "string \<Rightarrow> CandleInterval option" where
  "CandleInterval_cast s = find (\<lambda>i. CandleInterval_name i = s) all_intervals"

lemma all_intervals_complete: "i \<in> set all_intervals"
  by (cases i) (simp_all add: all_intervals_def)

lemma CandleInterval_name_inj: "CandleInterval_name i = CandleInterval_name j \<Longrightarrow> i = j"
  by (cases i; cases j; simp)

lemma CandleInterval_cast_name: "CandleInterval_cast (CandleInterval_name i) = Some i"
  by (cases i) (simp_all add: CandleInterval_cast_def all_intervals_def)

end
