(* ===== verification/Candle_Time.thy ===== *)
theory Candle_Time
  imports Enums
begin

text \<open>
  Candle intervals and candle times: \<^verbatim>\<open>src/bybit.cpp\<close> (the class \<^verbatim>\<open>Bybit\<close>) and
  \<^verbatim>\<open>nextCandleStart\<close> of \<^verbatim>\<open>src/bybit_rest_client.cpp\<close>. Times are milliseconds
  since the epoch; \<^verbatim>\<open>int64_t\<close> is \<open>int\<close> (the operations stay far below its limits).
  The monthly interval goes through the calendar of \<^verbatim>\<open>std::chrono\<close>, modelled here:
  days since the epoch to year, month and day of the proleptic Gregorian calendar and back.
\<close>

section \<open>The class Bybit\<close>

fun numberOfMsForCandleInterval :: "CandleInterval \<Rightarrow> int" where
  "numberOfMsForCandleInterval I_1 = 60000"
| "numberOfMsForCandleInterval I_3 = 60000 * 3"
| "numberOfMsForCandleInterval I_5 = 60000 * 5"
| "numberOfMsForCandleInterval I_15 = 60000 * 15"
| "numberOfMsForCandleInterval I_30 = 60000 * 30"
| "numberOfMsForCandleInterval I_60 = 60000 * 60"
| "numberOfMsForCandleInterval I_120 = 60000 * 120"
| "numberOfMsForCandleInterval I_240 = 60000 * 240"
| "numberOfMsForCandleInterval I_360 = 60000 * 360"
| "numberOfMsForCandleInterval I_720 = 60000 * 720"
| "numberOfMsForCandleInterval I_D = 86400000"
| "numberOfMsForCandleInterval I_W = 86400000 * 7"
| "numberOfMsForCandleInterval I_M = 86400000 * 30"

text \<open>
  The second argument is the out parameter \<^verbatim>\<open>candleInterval\<close>, which an invalid
  resolution leaves as it was.
\<close>

definition isValidCandleResolution :: "int \<Rightarrow> CandleInterval \<Rightarrow> bool \<times> CandleInterval" where
  "isValidCandleResolution resolution candleInterval =
     (if resolution = 1 then (True, I_1)
      else if resolution = 3 then (True, I_3)
      else if resolution = 5 then (True, I_5)
      else if resolution = 15 then (True, I_15)
      else if resolution = 30 then (True, I_30)
      else if resolution = 60 then (True, I_60)
      else if resolution = 120 then (True, I_120)
      else if resolution = 240 then (True, I_240)
      else if resolution = 360 then (True, I_360)
      else if resolution = 720 then (True, I_720)
      else if resolution = 1440 then (True, I_D)
      else if resolution = 10080 then (True, I_W)
      else if resolution = 43200 then (True, I_M)
      else (False, candleInterval))"

lemma numberOfMs_pos [simp]: "0 < numberOfMsForCandleInterval i"
  by (cases i) simp_all

text \<open>The intervals are ordered by their length, the month counting 30 days; no two are equally long.\<close>

lemma numberOfMs_inj [simp]: "numberOfMsForCandleInterval i = numberOfMsForCandleInterval j \<longleftrightarrow> i = j"
  by (cases i; cases j) simp_all

instantiation CandleInterval :: linorder
begin

definition less_eq_CandleInterval :: "CandleInterval \<Rightarrow> CandleInterval \<Rightarrow> bool" where
  "less_eq_CandleInterval i j \<longleftrightarrow> numberOfMsForCandleInterval i \<le> numberOfMsForCandleInterval j"

definition less_CandleInterval :: "CandleInterval \<Rightarrow> CandleInterval \<Rightarrow> bool" where
  "less_CandleInterval i j \<longleftrightarrow> numberOfMsForCandleInterval i < numberOfMsForCandleInterval j"

instance
proof
  fix i j :: CandleInterval
  show "i = j" if "i \<le> j" "j \<le> i"
    using that by (simp add: less_eq_CandleInterval_def flip: numberOfMs_inj)
qed (auto simp: less_eq_CandleInterval_def less_CandleInterval_def)

end

section \<open>The calendar of std::chrono\<close>

definition leaps :: "int \<Rightarrow> int" where
  "leaps y = y div 4 - y div 100 + y div 400"

text \<open>The day number of the first of January.\<close>

definition year_start :: "int \<Rightarrow> int" where
  "year_start y = 365 * (y - 1970) + leaps (y - 1) - leaps 1969"

definition is_leap :: "int \<Rightarrow> bool" where
  "is_leap y = (y mod 4 = 0 \<and> (y mod 100 \<noteq> 0 \<or> y mod 400 = 0))"

definition month_lengths :: "int \<Rightarrow> int list" where
  "month_lengths y = [31, if is_leap y then 29 else 28, 31, 30, 31, 30, 31, 31, 30, 31, 30, 31]"

definition year_of_day :: "int \<Rightarrow> int" where
  "year_of_day z =
     (let y = 1970 + z * 400 div 146097
      in if z < year_start y then y - 1 else if year_start (y + 1) \<le> z then y + 1 else y)"

text \<open>Day of the year to (month counted from 0, day of the month counted from 0).\<close>

fun month_at :: "int list \<Rightarrow> int \<Rightarrow> nat \<times> int" where
  "month_at [] d = (0, d)"
| "month_at (l # ls) d = (if d < l then (0, d) else case month_at ls (d - l) of (m, r) \<Rightarrow> (Suc m, r))"

text \<open>\<^verbatim>\<open>year_month_day{floor<days>(t)}\<close>\<close>

definition ymd_of_day :: "int \<Rightarrow> int \<times> int \<times> int" where
  "ymd_of_day z =
     (let y = year_of_day z in
      case month_at (month_lengths y) (z - year_start y) of (m, r) \<Rightarrow> (y, int m + 1, r + 1))"

text \<open>\<^verbatim>\<open>sys_days{y/m/d}\<close>\<close>

definition day_of_ymd :: "int \<times> int \<times> int \<Rightarrow> int" where
  "day_of_ymd d = (case d of (y, m, d) \<Rightarrow>
     year_start y + sum_list (take (nat (m - 1)) (month_lengths y)) + d - 1)"

text \<open>\<^verbatim>\<open>y/m/d + months{1}\<close>\<close>

definition plus_month :: "int \<times> int \<times> int \<Rightarrow> int \<times> int \<times> int" where
  "plus_month d = (case d of (y, m, d) \<Rightarrow> if m = 12 then (y + 1, 1, d) else (y, m + 1, d))"

section \<open>nextCandleStart\<close>

definition nextCandleStart :: "int \<Rightarrow> CandleInterval \<Rightarrow> int" where
  "nextCandleStart openTimestampMs interval =
     (if interval \<noteq> I_M then openTimestampMs + numberOfMsForCandleInterval interval
      else case ymd_of_day (openTimestampMs div 86400000) of
        (y, m, d) \<Rightarrow> day_of_ymd (plus_month (y, m, 1)) * 86400000)"

section \<open>The calendar is right\<close>

lemma div_pred: "0 < n \<Longrightarrow> y div n - (y - 1) div n = (if y mod n = 0 then 1 else 0)" for n y :: int
proof -
  assume n: "0 < n"
  define q r where "q = y div n" and "r = y mod n"
  have y: "y = n * q + r" "0 \<le> r" "r < n" using n by (simp_all add: q_def r_def)
  show ?thesis
  proof (cases "r = 0")
    case True
    then have "y - 1 = n * (q - 1) + (n - 1)" using y by (simp add: right_diff_distrib)
    then have "(y - 1) div n = q - 1" using n by (intro int_div_pos_eq [of _ _ _ "n - 1"]) auto
    with True show ?thesis by (simp add: q_def r_def)
  next
    case False
    then have "(y - 1) div n = q" using y n by (intro int_div_pos_eq [of _ _ _ "r - 1"]) auto
    with False show ?thesis by (simp add: q_def r_def)
  qed
qed

lemma leap_count:
  assumes "p400 \<Longrightarrow> p100" and "p100 \<Longrightarrow> p4"
  shows "(if p4 then 1 else 0) - (if p100 then 1 else 0) + (if p400 then 1 else 0) =
    (if p4 \<and> (\<not> p100 \<or> p400) then 1 else (0::int))"
  using assms by auto

lemma leaps_step: "leaps y - leaps (y - 1) = (if is_leap y then 1 else 0)"
proof -
  have dvd: "y mod 400 = 0 \<Longrightarrow> y mod 100 = 0" "y mod 100 = 0 \<Longrightarrow> y mod 4 = 0"
    unfolding mod_eq_0_iff_dvd by (erule dvd_trans [rotated], simp)+
  have "leaps y - leaps (y - 1) =
      (y div 4 - (y - 1) div 4) - (y div 100 - (y - 1) div 100) + (y div 400 - (y - 1) div 400)"
    by (simp only: leaps_def algebra_simps)
  also have "\<dots> = (if y mod 4 = 0 then 1 else 0) - (if y mod 100 = 0 then 1 else 0)
      + (if y mod 400 = 0 then 1 else 0)"
    by (simp only: div_pred zero_less_numeral)
  also have "\<dots> = (if is_leap y then 1 else 0)"
    unfolding is_leap_def by (rule leap_count) (fact dvd)+
  finally show ?thesis .
qed

lemma year_length: "year_start (y + 1) = year_start y + sum_list (month_lengths y)"
  using leaps_step [of y] by (auto simp: year_start_def month_lengths_def)

lemma leaps_bounds: "400 * leaps n \<le> 97 * n + 396" "97 * n - 699 \<le> 400 * leaps n"
proof -
  define a b c where "a = n div 4" and "b = n div 100" and "c = n div 400"
  have "4 * a \<le> n" "n \<le> 4 * a + 3" "100 * b \<le> n" "n \<le> 100 * b + 99"
    "400 * c \<le> n" "n \<le> 400 * c + 399"
    unfolding a_def b_def c_def by presburger+
  moreover have "leaps n = a - b + c"
    by (simp add: leaps_def a_def b_def c_def)
  ultimately show "400 * leaps n \<le> 97 * n + 396" "97 * n - 699 \<le> 400 * leaps n"
    by simp_all
qed

lemma year_start_bounds:
  "400 * year_start y \<le> 146097 * (y - 1970) + 589"
  "146097 * (y - 1970) - 506 \<le> 400 * year_start y"
  using leaps_bounds [of "y - 1"] by (simp_all add: year_start_def leaps_def [of 1969])

lemma year_of_day_bounds: "year_start (year_of_day z) \<le> z \<and> z < year_start (year_of_day z + 1)"
proof -
  define q where "q = z * 400 div 146097"
  have q: "146097 * q \<le> z * 400" "z * 400 < 146097 * q + 146097"
    using pos_mod_sign [of 146097 "z * 400"] pos_mod_bound [of 146097 "z * 400"]
      mult_div_mod_eq [of 146097 "z * 400"] by (simp_all add: q_def)
  have "year_start (1970 + q - 1) \<le> z"
    using year_start_bounds(1) [of "1970 + q - 1"] q(1) by simp
  moreover have "z < year_start (1970 + q + 2)"
    using year_start_bounds(2) [of "1970 + q + 2"] q(2) by simp
  ultimately show ?thesis
    unfolding year_of_day_def q_def [symmetric] Let_def by (auto simp: add.commute add.assoc)
qed

lemma month_at_spec:
  assumes "0 \<le> d" and "d < sum_list ls" and "month_at ls d = (m, r)"
  shows "m < length ls \<and> 0 \<le> r \<and> r < ls ! m \<and> d = sum_list (take m ls) + r"
  using assms
proof (induction ls d arbitrary: m r rule: month_at.induct)
  case (1 d)
  then show ?case by simp
next
  case (2 l ls d)
  show ?case
  proof (cases "d < l")
    case True
    with 2 show ?thesis by auto
  next
    case False
    obtain m' r' where mr: "month_at ls (d - l) = (m', r')" by fastforce
    with False "2.prems" have "m = Suc m'" "r = r'" by auto
    moreover have "m' < length ls \<and> 0 \<le> r' \<and> r' < ls ! m' \<and> d - l = sum_list (take m' ls) + r'"
      using False "2.prems" mr by (intro "2.IH") auto
    ultimately show ?thesis by auto
  qed
qed

lemma ymd_of_day_spec:
  assumes "ymd_of_day z = (y, m, d)"
  shows "1 \<le> m" "m \<le> 12" "1 \<le> d" "d \<le> month_lengths y ! nat (m - 1)"
    and "day_of_ymd (y, m, d) = z"
proof -
  obtain k r where kr: "month_at (month_lengths (year_of_day z)) (z - year_start (year_of_day z)) = (k, r)"
    by fastforce
  with assms have ymd: "y = year_of_day z" "m = int k + 1" "d = r + 1"
    by (auto simp: ymd_of_day_def Let_def)
  have "k < length (month_lengths y) \<and> 0 \<le> r \<and> r < month_lengths y ! k
      \<and> z - year_start y = sum_list (take k (month_lengths y)) + r"
    using year_of_day_bounds [of z] year_length [of y] kr ymd by (intro month_at_spec) auto
  then show "1 \<le> m" "m \<le> 12" "1 \<le> d" "d \<le> month_lengths y ! nat (m - 1)"
    and "day_of_ymd (y, m, d) = z"
    using ymd by (auto simp: month_lengths_def day_of_ymd_def)
qed

text \<open>The first of the next month lies one month length after the first of this month.\<close>

lemma plus_month_day:
  assumes "1 \<le> m" and "m \<le> 12"
  shows "day_of_ymd (plus_month (y, m, 1)) = day_of_ymd (y, m, 1) + month_lengths y ! nat (m - 1)"
proof (cases "m = 12")
  case True
  then show ?thesis
    using year_length [of y]
    by (simp add: plus_month_def day_of_ymd_def month_lengths_def numeral_eq_Suc)
next
  case False
  define k where "k = nat (m - 1)"
  have "nat (m + 1 - 1) = Suc k" "k < length (month_lengths y)"
    using assms False by (auto simp: k_def month_lengths_def)
  then show ?thesis
    using False assms by (simp add: plus_month_def day_of_ymd_def k_def [symmetric] take_Suc_conv_app_nth)
qed

lemma month_length_bounds: "k < 12 \<Longrightarrow> 28 \<le> month_lengths y ! k \<and> month_lengths y ! k \<le> 31"
  by (simp add: month_lengths_def less_Suc_eq numeral_eq_Suc) (auto simp: nth_Cons')

lemma nextCandleStart_month:
  "openMs < nextCandleStart openMs I_M \<and> nextCandleStart openMs I_M \<le> openMs + 31 * 86400000"
proof -
  define z where "z = openMs div 86400000"
  obtain y m d where ymd: "ymd_of_day z = (y, m, d)" by (metis prod_cases3)
  note spec = ymd_of_day_spec [OF ymd]
  have "nextCandleStart openMs I_M = (day_of_ymd (y, m, 1) + month_lengths y ! nat (m - 1)) * 86400000"
    using plus_month_day [OF spec(1,2)] ymd by (simp add: nextCandleStart_def z_def)
  moreover have "day_of_ymd (y, m, 1) = z - d + 1"
    using spec(5) by (simp add: day_of_ymd_def)
  moreover have "month_lengths y ! nat (m - 1) \<le> 31"
    using month_length_bounds [of "nat (m - 1)" y] spec(2) by auto
  moreover have "86400000 * z \<le> openMs" "openMs < 86400000 * z + 86400000"
    by (simp_all add: z_def)
  ultimately show ?thesis using spec(3,4) by (simp add: algebra_simps)
qed

lemma nextCandleStart_gt: "t < nextCandleStart t i"
  using nextCandleStart_month [of t] by (cases "i = I_M") (simp_all add: nextCandleStart_def)

lemma nextCandleStart_mono_step: "t + 1 \<le> nextCandleStart t i"
  using nextCandleStart_gt [of t i] by simp


section \<open>Calendar dates are unique\<close>

lemma month_lengths_sum_pos: "0 < sum_list (month_lengths y)"
  by (simp add: month_lengths_def)

lemma year_start_mono_nat: "year_start y \<le> year_start (y + int n)"
proof (induction n)
  case (Suc n)
  then show ?case
    using year_length [of "y + int n"] month_lengths_sum_pos [of "y + int n"]
    by (simp add: algebra_simps)
qed simp

lemma year_start_mono: "y \<le> y' \<Longrightarrow> year_start y \<le> year_start y'"
  using year_start_mono_nat [of y "nat (y' - y)"] by simp

lemma year_of_day_unique:
  assumes "year_start y \<le> z" and "z < year_start (y + 1)"
  shows "year_of_day z = y"
proof (rule antisym)
  note b = year_of_day_bounds [of z]
  show "year_of_day z \<le> y"
  proof (rule ccontr)
    assume "\<not> year_of_day z \<le> y"
    then have "year_start (y + 1) \<le> year_start (year_of_day z)" by (intro year_start_mono) simp
    with b assms show False by simp
  qed
  show "y \<le> year_of_day z"
  proof (rule ccontr)
    assume "\<not> y \<le> year_of_day z"
    then have "year_start (year_of_day z + 1) \<le> year_start y" by (intro year_start_mono) simp
    with b assms show False by simp
  qed
qed

lemma month_at_unique:
  assumes "m < length ls" and "0 \<le> r" and "r < ls ! m" and "\<forall>l \<in> set ls. 0 \<le> l"
  shows "month_at ls (sum_list (take m ls) + r) = (m, r)"
  using assms
proof (induction ls arbitrary: m)
  case (Cons l ls)
  show ?case
  proof (cases m)
    case (Suc k)
    have "0 \<le> sum_list (take k ls)"
      using Cons.prems(4) by (intro sum_list_nonneg) (auto dest: in_set_takeD)
    with Cons Suc show ?thesis by (auto simp: algebra_simps)
  qed (use Cons.prems in simp)
qed simp

text \<open>\<open>(y, m, d)\<close> is a date of the calendar.\<close>

definition valid_date :: "int \<times> int \<times> int \<Rightarrow> bool" where
  "valid_date d = (case d of (y, m, d) \<Rightarrow>
     1 \<le> m \<and> m \<le> 12 \<and> 1 \<le> d \<and> d \<le> month_lengths y ! nat (m - 1))"

lemma ymd_of_day_of_ymd: "valid_date (y, m, d) \<Longrightarrow> ymd_of_day (day_of_ymd (y, m, d)) = (y, m, d)"
proof -
  assume v: "valid_date (y, m, d)"
  define k r where "k = nat (m - 1)" and "r = d - 1"
  have kr: "k < 12" "0 \<le> r" "r < month_lengths y ! k" "m = int k + 1" "d = r + 1"
    using v by (auto simp: valid_date_def k_def r_def)
  have len: "length (month_lengths y) = 12" by (simp add: month_lengths_def)
  have nonneg: "\<forall>l \<in> set (month_lengths y). 0 \<le> l" by (simp add: month_lengths_def)
  define z where "z = day_of_ymd (y, m, d)"
  have z: "z = year_start y + (sum_list (take k (month_lengths y)) + r)"
    by (simp add: z_def day_of_ymd_def k_def r_def)
  have "0 \<le> sum_list (take k (month_lengths y))"
    using nonneg by (intro sum_list_nonneg) (auto dest: in_set_takeD)
  moreover have "sum_list (take k (month_lengths y)) + r < sum_list (month_lengths y)"
  proof -
    have "sum_list (month_lengths y) = sum_list (take k (month_lengths y))
        + (month_lengths y ! k + sum_list (drop (Suc k) (month_lengths y)))"
      using arg_cong [OF id_take_nth_drop [of k "month_lengths y"], of sum_list] kr(1) len by simp
    moreover have "0 \<le> sum_list (drop (Suc k) (month_lengths y))"
      using nonneg by (intro sum_list_nonneg) (auto dest: in_set_dropD)
    ultimately show ?thesis using kr(3) by simp
  qed
  ultimately have "year_of_day z = y"
    using kr(2) year_length [of y] z by (intro year_of_day_unique) simp_all
  moreover have "month_at (month_lengths y) (z - year_start y) = (k, r)"
    using month_at_unique [of k "month_lengths y" r] kr len nonneg z by simp
  ultimately have "ymd_of_day z = (y, m, d)"
    using kr(4,5) by (simp add: ymd_of_day_def Let_def)
  then show ?thesis by (simp add: z_def)
qed

section \<open>Properties\<close>

text \<open>
  C40. A candle's next start lies strictly later: one fixed interval later for every interval
  but the month, and for the month at 00:00 of the first day of the next calendar month, at
  most 31 days later.
\<close>

theorem next_candle:
  "t < nextCandleStart t i \<and>
   (if i = I_M
    then (\<exists>y m d. ymd_of_day (t div 86400000) = (y, m, d) \<and>
            nextCandleStart t i mod 86400000 = 0 \<and>
            ymd_of_day (nextCandleStart t i div 86400000) = plus_month (y, m, 1) \<and>
            nextCandleStart t i - t \<le> 31 * 86400000)
    else nextCandleStart t i = t + numberOfMsForCandleInterval i)"
proof (cases "i = I_M")
  case True
  obtain y m d where ymd: "ymd_of_day (t div 86400000) = (y, m, d)" by (metis prod_cases3)
  note spec = ymd_of_day_spec [OF ymd]
  obtain y' m' where pm: "plus_month (y, m, 1) = (y', m', 1)" "1 \<le> m'" "m' \<le> 12"
    using spec(1,2) by (cases "m = 12") (auto simp: plus_month_def)
  then have "nat (m' - 1) < 12" by simp
  with pm have "valid_date (plus_month (y, m, 1))"
    using month_length_bounds [of "nat (m' - 1)" y'] by (auto simp: valid_date_def)
  then have "ymd_of_day (day_of_ymd (plus_month (y, m, 1))) = plus_month (y, m, 1)"
    by (simp add: pm(1) ymd_of_day_of_ymd)
  then show ?thesis
    using True ymd nextCandleStart_month [of t] by (simp add: nextCandleStart_def)
qed (simp add: nextCandleStart_def)

text \<open>
  A longer interval never ends earlier: the next candle starts no earlier with it. The month is
  apart, since its next candle can start sooner than that of a week.
\<close>

lemma next_candle_mono: "i \<le> j \<Longrightarrow> j \<noteq> I_M \<Longrightarrow> nextCandleStart t i \<le> nextCandleStart t j"
  by (cases "i = I_M"; cases j) (simp_all add: nextCandleStart_def less_eq_CandleInterval_def)

lemma next_month_before_week: "nextCandleStart (30 * 86400000) I_M < nextCandleStart (30 * 86400000) I_W"
  by code_simp

text \<open>
  The resolutions accepted for a candle, in minutes, are exactly those of the intervals, and
  an accepted one selects the interval of that many minutes (the month counting 30 days, the
  value of \<^verbatim>\<open>numberOfMsForCandleInterval\<close>); a refused one leaves the out parameter.
\<close>

theorem resolution_interval:
  "case isValidCandleResolution r c of
     (True, i) \<Rightarrow> numberOfMsForCandleInterval i = r * 60000
   | (False, i) \<Rightarrow> i = c \<and> (\<nexists>j. numberOfMsForCandleInterval j = r * 60000)"
proof -
  have "r \<in> {1, 3, 5, 15, 30, 60, 120, 240, 360, 720, 1440, 10080, 43200}"
    if "numberOfMsForCandleInterval j = r * 60000" for j
    using that by (cases j) auto
  then show ?thesis by (auto simp: isValidCandleResolution_def)
qed

end
