(* ===== verification/Doubles.thy ===== *)
theory Doubles
  imports Complex_Main "HOL-Library.Log_Nat"
begin

text \<open>
  \<^verbatim>\<open>double\<close> as the code computes with it. A finite double is the rational number it
  denotes, and every arithmetic operation is the exact result rounded to the nearest value
  with a 53-bit significand, ties to the even one: \<open>rnd\<close>. The exponent is not bounded:
  overflow, subnormal numbers, infinities, NaN and the sign of zero are outside the model
  (prices, quantities and instrument steps stay far from them). Comparisons are exact, as in
  the code. \<open>rnd\<close> computes, so decimal literals of the sources (\<^verbatim>\<open>1e-9\<close>) are
  \<open>rnd\<close> of the decimal fraction.
\<close>

type_synonym double = rat

definition pow2 :: "int \<Rightarrow> rat" where
  "pow2 e = (if 0 \<le> e then 2 ^ nat e else 1 / 2 ^ nat (- e))"

text \<open>To the nearest integer, ties to even.\<close>

definition rne :: "rat \<Rightarrow> int" where
  "rne x = (let f = floor x; d = x - of_int f
            in if d < 1 / 2 then f else if 1 / 2 < d then f + 1 else if even f then f else f + 1)"

text \<open>The exponent \<open>e\<close> with \<open>2^(e-1) \<le> x < 2^e\<close>, for \<open>x > 0\<close>.\<close>

definition binexp :: "rat \<Rightarrow> int" where
  "binexp x = (case quotient_of x of (p, q) \<Rightarrow>
     let e = bitlen p - bitlen q in if x < pow2 e then e else e + 1)"

definition rnd :: "rat \<Rightarrow> double" where
  "rnd x = (if x = 0 then 0
            else let u = pow2 (binexp \<bar>x\<bar> - 53) in of_int (rne (x / u)) * u)"

definition dadd :: "double \<Rightarrow> double \<Rightarrow> double" where "dadd x y = rnd (x + y)"
definition dsub :: "double \<Rightarrow> double \<Rightarrow> double" where "dsub x y = rnd (x - y)"
definition dmul :: "double \<Rightarrow> double \<Rightarrow> double" where "dmul x y = rnd (x * y)"

text \<open>\<^verbatim>\<open>std::llround\<close>: to the nearest integer, halves away from zero.\<close>

definition llround :: "double \<Rightarrow> int" where
  "llround x = (if 0 \<le> x then floor (x + 1 / 2) else - floor (- x + 1 / 2))"

section \<open>Facts on rounding\<close>

lemma pow2_pos [simp]: "0 < pow2 e"
  by (simp add: pow2_def)

lemma pow2_nonzero [simp]: "pow2 e \<noteq> 0"
  by (simp add: pow2_def)

lemma rnd_0 [simp]: "rnd 0 = 0"
  by (simp add: rnd_def)

lemma rne_of_int [simp]: "rne (of_int i) = i"
  by (simp add: rne_def)

lemma rne_bounds: "of_int (rne x) - x \<le> 1 / 2" "x - of_int (rne x) \<le> 1 / 2"
  by (auto simp: rne_def Let_def) linarith+

lemma rne_nonneg: "0 \<le> x \<Longrightarrow> 0 \<le> rne x"
  by (simp add: rne_def Let_def)

lemma rnd_nonneg: "0 \<le> x \<Longrightarrow> 0 \<le> rnd x"
  by (auto simp: rnd_def Let_def
      intro!: mult_nonneg_nonneg rne_nonneg divide_nonneg_nonneg less_imp_le [OF pow2_pos])

text \<open>The rounding error is at most half a unit in the last place.\<close>

lemma rnd_error: "\<bar>rnd x - x\<bar> \<le> pow2 (binexp \<bar>x\<bar> - 53) / 2"
proof (cases "x = 0")
  case True
  then show ?thesis by (simp add: less_imp_le)
next
  case False
  define u where "u = pow2 (binexp \<bar>x\<bar> - 53)"
  have u: "0 < u" by (simp add: u_def)
  have "rnd x - x = (of_int (rne (x / u)) - x / u) * u"
    using False u by (simp add: rnd_def u_def Let_def left_diff_distrib)
  moreover have "\<bar>of_int (rne (x / u)) - x / u\<bar> \<le> 1 / 2"
    using rne_bounds [of "x / u"] by linarith
  ultimately have "\<bar>rnd x - x\<bar> \<le> 1 / 2 * u"
    using u by (simp add: abs_mult mult_right_mono)
  then show ?thesis by (simp add: u_def)
qed

end
