(* ===== verification/Json_Ops.thy ===== *)
theory Json_Ops
  imports Enums Doubles
begin

text \<open>
  What the sources use of JSON. The value type of \<^verbatim>\<open>nlohmann::json\<close> is a type
  variable \<open>'j\<close>, its members and the readers of \<^verbatim>\<open>stonky/utils/json_utils.h\<close> (a
  git submodule whose files are not in the repository) are the fields of a record
  \<open>'j jops\<close>, an argument of every definition that uses them. Nothing is assumed of them
  here; a theorem that relies on their documented behaviour says so in a hypothesis.

  A reader with an out parameter takes the value the parameter holds and returns the flag and
  the value it holds afterwards. Every reader may throw. \<open>rdV\<close>, \<open>rdR\<close> and their kin
  turn a read into an update of one record field: \<open>rdV\<close> for
  \<^verbatim>\<open>readValue<T>(json, key, field)\<close>, \<open>rdR\<close> for
  \<^verbatim>\<open>field = readStringAs...(json, key, field)\<close>.
\<close>

record 'j jops =
  \<comment> \<open>nlohmann::json\<close>
  j_parse :: "string \<Rightarrow> 'j res"
  j_dump :: "'j \<Rightarrow> string"
  j_dump_error :: "'j \<Rightarrow> string option"  \<comment> \<open>why \<^verbatim>\<open>dump()\<close> throws: text that is not UTF-8\<close>
  j_is_object :: "'j \<Rightarrow> bool"
  j_is_array :: "'j \<Rightarrow> bool"
  j_is_string :: "'j \<Rightarrow> bool"
  j_is_null :: "'j \<Rightarrow> bool"
  j_find :: "'j \<Rightarrow> string \<Rightarrow> 'j option"
  j_at :: "'j \<Rightarrow> string \<Rightarrow> 'j res"  \<comment> \<open>\<^verbatim>\<open>json["key"]\<close>\<close>
  j_idx :: "'j \<Rightarrow> nat \<Rightarrow> 'j res"  \<comment> \<open>\<^verbatim>\<open>json[n]\<close>\<close>
  j_items :: "'j \<Rightarrow> 'j list"  \<comment> \<open>the values of \<^verbatim>\<open>items()\<close>, or of a range-for\<close>
  j_size :: "'j \<Rightarrow> nat"
  j_get_string :: "'j \<Rightarrow> string res"
  j_str :: "string \<Rightarrow> 'j"
  j_bool :: "bool \<Rightarrow> 'j"
  j_int :: "int \<Rightarrow> 'j"
  j_arr :: "'j list \<Rightarrow> 'j"
  j_obj :: "(string \<times> 'j) list \<Rightarrow> 'j"
  j_set :: "'j \<Rightarrow> string \<Rightarrow> 'j \<Rightarrow> 'j"  \<comment> \<open>\<^verbatim>\<open>json["key"] = value\<close>\<close>
  j_null :: 'j
  \<comment> \<open>readValue\<close>
  readString :: "'j \<Rightarrow> string \<Rightarrow> string \<Rightarrow> (bool \<times> string) res"
  readInt :: "'j \<Rightarrow> string \<Rightarrow> int \<Rightarrow> (bool \<times> int) res"
  readInt64 :: "'j \<Rightarrow> string \<Rightarrow> int \<Rightarrow> (bool \<times> int) res"
  readBool :: "'j \<Rightarrow> string \<Rightarrow> bool \<Rightarrow> (bool \<times> bool) res"
  \<comment> \<open>readMagicEnum\<close>
  readSide :: "'j \<Rightarrow> string \<Rightarrow> Side \<Rightarrow> (bool \<times> Side) res"
  readCategory :: "'j \<Rightarrow> string \<Rightarrow> Category \<Rightarrow> (bool \<times> Category) res"
  readAccountType :: "'j \<Rightarrow> string \<Rightarrow> AccountType \<Rightarrow> (bool \<times> AccountType) res"
  readPositionStatus :: "'j \<Rightarrow> string \<Rightarrow> PositionStatus \<Rightarrow> (bool \<times> PositionStatus) res"
  readTpSlMode :: "'j \<Rightarrow> string \<Rightarrow> TpSlMode \<Rightarrow> (bool \<times> TpSlMode) res"
  readContractType :: "'j \<Rightarrow> string \<Rightarrow> ContractType \<Rightarrow> (bool \<times> ContractType) res"
  readContractStatus :: "'j \<Rightarrow> string \<Rightarrow> ContractStatus \<Rightarrow> (bool \<times> ContractStatus) res"
  readOrderType :: "'j \<Rightarrow> string \<Rightarrow> OrderType \<Rightarrow> (bool \<times> OrderType) res"
  readOrderStatus :: "'j \<Rightarrow> string \<Rightarrow> OrderStatus \<Rightarrow> (bool \<times> OrderStatus) res"
  readTimeInForce :: "'j \<Rightarrow> string \<Rightarrow> TimeInForce \<Rightarrow> (bool \<times> TimeInForce) res"
  readTriggerPriceType ::
    "'j \<Rightarrow> string \<Rightarrow> TriggerPriceType \<Rightarrow> (bool \<times> TriggerPriceType) res"
  readExecType :: "'j \<Rightarrow> string \<Rightarrow> ExecType \<Rightarrow> (bool \<times> ExecType) res"
  readResponseType :: "'j \<Rightarrow> string \<Rightarrow> ResponseType \<Rightarrow> (bool \<times> ResponseType) res"
  \<comment> \<open>readStringAsDouble, readStringAsInt64, readStringAsInt\<close>
  readStringAsDouble :: "'j \<Rightarrow> string \<Rightarrow> double \<Rightarrow> double res"
  readStringAsInt64 :: "'j \<Rightarrow> string \<Rightarrow> int \<Rightarrow> int res"
  readStringAsInt64Dflt :: "'j \<Rightarrow> string \<Rightarrow> int res"  \<comment> \<open>the two-argument call\<close>
  readStringAsInt :: "'j \<Rightarrow> string \<Rightarrow> int \<Rightarrow> int res"
  \<comment> \<open>\<^verbatim>\<open>std::stod\<close>, \<^verbatim>\<open>cpp_dec_float_50::assign\<close> and \<^verbatim>\<open>formatDouble\<close>\<close>
  stod :: "string \<Rightarrow> double res"
  dec_assign :: "string \<Rightarrow> rat res"
  formatDouble :: "nat \<Rightarrow> double \<Rightarrow> string"
  double_to_string :: "double \<Rightarrow> string"

definition j_contains :: "'j jops \<Rightarrow> 'j \<Rightarrow> string \<Rightarrow> bool" where
  "j_contains J j k = (j_find J j k \<noteq> None)"

definition rdV ::
  "('j \<Rightarrow> string \<Rightarrow> 'a \<Rightarrow> (bool \<times> 'a) res) \<Rightarrow> 'j \<Rightarrow> string \<Rightarrow> ('r \<Rightarrow> 'a) \<Rightarrow>
   (('a \<Rightarrow> 'a) \<Rightarrow> 'r \<Rightarrow> 'r) \<Rightarrow> 'r \<Rightarrow> 'r res" where
  "rdV read j k get upd r = bindR (read j k (get r)) (\<lambda>(_, v). Inr (upd (\<lambda>_. v) r))"

definition rdR ::
  "('j \<Rightarrow> string \<Rightarrow> 'a \<Rightarrow> 'a res) \<Rightarrow> 'j \<Rightarrow> string \<Rightarrow> ('r \<Rightarrow> 'a) \<Rightarrow>
   (('a \<Rightarrow> 'a) \<Rightarrow> 'r \<Rightarrow> 'r) \<Rightarrow> 'r \<Rightarrow> 'r res" where
  "rdR read j k get upd r = bindR (read j k (get r)) (\<lambda>v. Inr (upd (\<lambda>_. v) r))"

text \<open>A read never touches what its update leaves alone.\<close>

lemma rdV_Inr:
  "rdV read j k get upd r = Inr r' \<longleftrightarrow> (\<exists>b v. read j k (get r) = Inr (b, v) \<and> r' = upd (\<lambda>_. v) r)"
  by (auto simp: rdV_def bindR_eq_Inr)

lemma rdR_Inr:
  "rdR read j k get upd r = Inr r' \<longleftrightarrow> (\<exists>v. read j k (get r) = Inr v \<and> r' = upd (\<lambda>_. v) r)"
  by (auto simp: rdR_def bindR_eq_Inr)

text \<open>\<^verbatim>\<open>readDecimalValue\<close> of \<^verbatim>\<open>bybit_models.cpp\<close>: (returned flag, value).\<close>

definition readDecimalValue ::
  "'j jops \<Rightarrow> 'j \<Rightarrow> string \<Rightarrow> rat \<Rightarrow> rat \<Rightarrow> (bool \<times> rat) res" where
  "readDecimalValue J j key value defaultVal =
     (case j_find J j key of
        None \<Rightarrow> Inr (False, value)
      | Some v \<Rightarrow>
          if \<not> j_is_null J v \<and> j_is_string J v then
            bindR (j_get_string J v) (\<lambda>s.
              if s \<noteq> [] then bindR (dec_assign J s) (\<lambda>d. Inr (True, d))
              else Inr (False, defaultVal))
          else Inr (False, defaultVal))"

section \<open>Objects under construction\<close>

text \<open>
  A \<^verbatim>\<open>toJson\<close> assigns members of a null value one after the other; \<open>setAll\<close> does
  that for a list of assignments in source order.
\<close>

definition setAll :: "'j jops \<Rightarrow> (string \<times> 'j) list \<Rightarrow> 'j" where
  "setAll J kvs = foldl (\<lambda>j (k, v). j_set J j k v) (j_null J) kvs"

end
