(* ===== verification/Decimals.thy ===== *)
theory Decimals
  imports Prelude
begin

text \<open>
  Decimal numerals as the sources print and read them: \<^verbatim>\<open>std::to_string\<close> (and
  \<^verbatim>\<open>fmt::format\<close> of an integer), \<^verbatim>\<open>std::strtol\<close>, \<^verbatim>\<open>std::stoi\<close>,
  \<^verbatim>\<open>std::stoll\<close> and \<^verbatim>\<open>std::stoull\<close> of the standard library, with their limits and
  their exceptions, and the lemmas that reading back what was printed gives the number.
\<close>

section \<open>Printing\<close>

definition digit_char :: "nat \<Rightarrow> char" where
  "digit_char d = char_of (48 + d)"

fun nat_to_string :: "nat \<Rightarrow> string" where
  "nat_to_string n =
     (if n < 10 then [digit_char n] else nat_to_string (n div 10) @ [digit_char (n mod 10)])"

declare nat_to_string.simps [simp del]

definition int_to_string :: "int \<Rightarrow> string" where
  "int_to_string i = (if i < 0 then ''-'' @ nat_to_string (nat (- i)) else nat_to_string (nat i))"

section \<open>Reading\<close>

definition is_digit :: "char \<Rightarrow> bool" where
  "is_digit c = (48 \<le> (of_char c :: nat) \<and> (of_char c :: nat) \<le> 57)"

definition digit_val :: "char \<Rightarrow> nat" where
  "digit_val c = of_char c - 48"

definition is_space :: "char \<Rightarrow> bool" where
  "is_space c = (of_char c = (32::nat) \<or> (9 \<le> (of_char c :: nat) \<and> (of_char c :: nat) \<le> 13))"

definition digits_value :: "string \<Rightarrow> nat" where
  "digits_value ds = foldl (\<lambda>acc c. 10 * acc + digit_val c) 0 ds"

text \<open>
  White space, an optional sign, then the longest run of digits: \<open>None\<close> when there is no
  digit, else the value without any limit.
\<close>

definition scan_int :: "string \<Rightarrow> int option" where
  "scan_int s =
     (let t = dropWhile is_space s;
          neg = starts_with ''-'' t;
          u = (if neg \<or> starts_with ''+'' t then tl t else t);
          ds = takeWhile is_digit u
      in if ds = [] then None else Some ((if neg then - 1 else 1) * int (digits_value ds)))"

definition INT64_MAX :: int where "INT64_MAX = 2 ^ 63 - 1"
definition INT64_MIN :: int where "INT64_MIN = - (2 ^ 63)"
definition INT32_MAX :: int where "INT32_MAX = 2 ^ 31 - 1"
definition INT32_MIN :: int where "INT32_MIN = - (2 ^ 31)"
definition UINT64_MAX :: int where "UINT64_MAX = 2 ^ 64 - 1"

lemmas int_limits = INT64_MAX_def INT64_MIN_def INT32_MAX_def INT32_MIN_def UINT64_MAX_def

text \<open>\<^verbatim>\<open>strtol\<close> saturates and gives 0 without a digit; \<^verbatim>\<open>long\<close> has 64 bits.\<close>

definition strtol :: "string \<Rightarrow> int" where
  "strtol s = (case scan_int s of None \<Rightarrow> 0 | Some i \<Rightarrow> max INT64_MIN (min INT64_MAX i))"

definition scan_within :: "int \<Rightarrow> int \<Rightarrow> string \<Rightarrow> string \<Rightarrow> int res" where
  "scan_within lo hi fn s =
     (case scan_int s of
        None \<Rightarrow> Inl (InvalidArgument fn)
      | Some i \<Rightarrow> if lo \<le> i \<and> i \<le> hi then Inr i else Inl (OutOfRange fn))"

definition stoi :: "string \<Rightarrow> int res" where
  "stoi s = scan_within INT32_MIN INT32_MAX ''stoi'' s"

definition stoll :: "string \<Rightarrow> int res" where
  "stoll s = scan_within INT64_MIN INT64_MAX ''stoll'' s"

text \<open>\<^verbatim>\<open>stoull\<close>, for numerals without a sign (the only ones it is given here).\<close>

definition stoull :: "string \<Rightarrow> int res" where
  "stoull s = scan_within 0 UINT64_MAX ''stoull'' s"

section \<open>Reading what was printed\<close>

lemma of_char_digit: "d < 10 \<Longrightarrow> (of_char (digit_char d) :: nat) = 48 + d"
  by (simp add: digit_char_def)

lemma digit_char_simps [str_simps]:
  "d < 10 \<Longrightarrow> is_digit (digit_char d)"
  "d < 10 \<Longrightarrow> digit_val (digit_char d) = d"
  "d < 10 \<Longrightarrow> \<not> is_space (digit_char d)"
  by (simp_all add: is_digit_def digit_val_def is_space_def of_char_digit)

lemma digits_value_snoc: "digits_value (ds @ [c]) = 10 * digits_value ds + digit_val c"
  by (simp add: digits_value_def)

lemma nat_to_string_digits: "\<forall>c \<in> set (nat_to_string n). is_digit c"
proof (induction n rule: nat_to_string.induct)
  case (1 n)
  show ?case
    by (subst nat_to_string.simps) (use 1 in \<open>auto simp: digit_char_simps\<close>)
qed

lemma nat_to_string_value [str_simps]: "digits_value (nat_to_string n) = n"
proof (induction n rule: nat_to_string.induct)
  case (1 n)
  show ?case
  proof (cases "n < 10")
    case True
    then show ?thesis
      by (subst nat_to_string.simps) (simp add: digits_value_def digit_char_simps)
  next
    case False
    then show ?thesis
      by (subst nat_to_string.simps)
        (simp add: digits_value_snoc digit_char_simps "1.IH" mult.commute)
  qed
qed

lemma nat_to_string_nonempty [simp]: "nat_to_string n \<noteq> []"
  by (subst nat_to_string.simps) simp

lemma nat_to_string_inj [simp]: "nat_to_string m = nat_to_string n \<longleftrightarrow> m = n"
  by (metis nat_to_string_value)

lemma digit_not_sign:
  "is_digit c \<Longrightarrow> c \<noteq> CHR ''-''" "is_digit c \<Longrightarrow> c \<noteq> CHR ''+''" "is_digit c \<Longrightarrow> \<not> is_space c"
  by (auto simp: is_digit_def is_space_def)

text \<open>Text that does not begin with a digit: what may follow a numeral.\<close>

definition no_digit_first :: "string \<Rightarrow> bool" where
  "no_digit_first s = (case s of [] \<Rightarrow> True | c # _ \<Rightarrow> \<not> is_digit c)"

lemma takeWhile_digits:
  assumes "\<forall>c \<in> set ds. is_digit c" and "no_digit_first rest"
  shows "takeWhile is_digit (ds @ rest) = ds"
proof -
  have "takeWhile is_digit rest = []"
    using assms(2) by (cases rest) (auto simp: no_digit_first_def)
  with assms(1) show ?thesis by (simp add: takeWhile_append)
qed

lemma scan_digits:
  assumes "\<forall>c \<in> set ds. is_digit c" "ds \<noteq> []" "no_digit_first rest"
  shows "scan_int (ds @ rest) = Some (int (digits_value ds))"
    and "scan_int (''-'' @ ds @ rest) = Some (- int (digits_value ds))"
proof -
  obtain d ds' where ds: "ds = d # ds'" using assms(2) by (cases ds) auto
  have d: "is_digit d" using assms(1) ds by simp
  have tw: "takeWhile is_digit (d # ds' @ rest) = ds"
    using takeWhile_digits [OF assms(1,3)] ds by simp
  show "scan_int (ds @ rest) = Some (int (digits_value ds))"
    using digit_not_sign [OF d] tw by (simp add: scan_int_def ds Let_def d)
  have "\<not> is_space CHR ''-''" by (simp add: is_space_def)
  then show "scan_int (''-'' @ ds @ rest) = Some (- int (digits_value ds))"
    using tw by (simp add: scan_int_def ds Let_def)
qed

lemma scan_int_to_string [str_simps]:
  assumes "no_digit_first rest"
  shows "scan_int (int_to_string i @ rest) = Some i"
  using scan_digits [OF nat_to_string_digits nat_to_string_nonempty assms]
  by (simp add: int_to_string_def nat_to_string_value)

lemma scan_nat_to_string [str_simps]: "scan_int (nat_to_string n) = Some (int n)"
  using scan_digits(1) [OF nat_to_string_digits nat_to_string_nonempty, of "[]" n]
  by (simp add: nat_to_string_value no_digit_first_def)

lemma strtol_int_to_string:
  assumes "no_digit_first rest" and "INT64_MIN \<le> i" and "i \<le> INT64_MAX"
  shows "strtol (int_to_string i @ rest) = i"
  using assms by (simp add: strtol_def scan_int_to_string)

lemma stoll_int_to_string:
  assumes "INT64_MIN \<le> i" and "i \<le> INT64_MAX"
  shows "stoll (int_to_string i) = Inr i"
  using assms scan_int_to_string [of "[]" i]
  by (simp add: stoll_def scan_within_def no_digit_first_def)

lemma stoull_nat_to_string:
  "int n \<le> UINT64_MAX \<Longrightarrow> stoull (nat_to_string n) = Inr (int n)"
  by (simp add: stoull_def scan_within_def scan_nat_to_string)

end
