(* ===== verification/Models_Account.thy ===== *)
theory Models_Account
  imports Json_Ops Decimals
begin

text \<open>
  The response envelope, candles, wallet balances, server time and positions:
  \<^verbatim>\<open>bybit_models.h\<close> and \<^verbatim>\<open>bybit_models.cpp\<close>. A struct is a record
  (its field names carry a short prefix, because field names are global in HOL), a struct that
  derives from \<^verbatim>\<open>Response\<close> an extension of the record \<open>Response\<close>, the member
  initialisers the constant \<open>..._init\<close>, and \<^verbatim>\<open>fromJson\<close> a sequence of
  reads in source order that updates the object and may throw at any read.
\<close>

section \<open>Response\<close>

record 'j Response =
  retCode :: int
  retMsg :: string
  retExtInfo :: 'j
  rtime :: int
  result :: 'j

definition Response_init :: "'j jops \<Rightarrow> 'j Response" where
  "Response_init J = \<lparr>retCode = 0, retMsg = [], retExtInfo = j_null J, rtime = 0, result = j_null J\<rparr>"

definition Response_fromJson ::
  "'j jops \<Rightarrow> 'j \<Rightarrow> ('j, 'm) Response_scheme \<Rightarrow> ('j, 'm) Response_scheme res" where
  "Response_fromJson J j = runSteps
     [rdV (readInt J) j ''retCode'' retCode retCode_update,
      (\<lambda>r. Inr (case j_find J j ''retExtInfo'' of None \<Rightarrow> r | Some v \<Rightarrow> r\<lparr>retExtInfo := v\<rparr>)),
      rdV (readString J) j ''retMsg'' retMsg retMsg_update,
      rdV (readInt64 J) j ''time'' rtime rtime_update,
      (\<lambda>r. Inr (case j_find J j ''result'' of None \<Rightarrow> r | Some v \<Rightarrow> r\<lparr>result := v\<rparr>))]"

text \<open>
  \<^verbatim>\<open>result["list"].items()\<close>, the range of every list parser. (Where the member is
  missing \<^verbatim>\<open>operator[]\<close> inserts a null into \<^verbatim>\<open>result\<close>, which nothing
  reads afterwards; the insertion is not recorded.)
\<close>

definition resultList :: "'j jops \<Rightarrow> ('j, 'm) Response_scheme \<Rightarrow> 'j list res" where
  "resultList J r = bindR (j_at J (result r) ''list'') (\<lambda>l. Inr (j_items J l))"

text \<open>\<^verbatim>\<open>readStringAsInt64(json, key)\<close> without a default.\<close>

definition rdN :: "('j \<Rightarrow> string \<Rightarrow> 'a res) \<Rightarrow> 'j \<Rightarrow> string \<Rightarrow> (('a \<Rightarrow> 'a) \<Rightarrow> 'r \<Rightarrow> 'r) \<Rightarrow> 'r \<Rightarrow> 'r res" where
  "rdN read j k upd r = bindR (read j k) (\<lambda>v. Inr (upd (\<lambda>_. v) r))"

section \<open>Candles\<close>

record Candle =
  c_startTime :: int
  c_open :: double
  c_high :: double
  c_low :: double
  c_close :: double
  c_volume :: double
  c_turnover :: double

definition Candle_init :: Candle where
  "Candle_init = \<lparr>c_startTime = 0, c_open = 0, c_high = 0, c_low = 0, c_close = 0, c_volume = 0, c_turnover = 0\<rparr>"

text \<open>\<^verbatim>\<open>stod(json[n].get<std::string>())\<close>\<close>

definition idxWith :: "'j jops \<Rightarrow> (string \<Rightarrow> 'a res) \<Rightarrow> 'j \<Rightarrow> nat \<Rightarrow> (('a \<Rightarrow> 'a) \<Rightarrow> 'r \<Rightarrow> 'r) \<Rightarrow> 'r \<Rightarrow> 'r res" where
  "idxWith J conv j n upd r =
     bindR (j_idx J j n) (\<lambda>v. bindR (j_get_string J v) (\<lambda>s. bindR (conv s) (\<lambda>x. Inr (upd (\<lambda>_. x) r))))"

definition Candle_fromJson :: "'j jops \<Rightarrow> 'j \<Rightarrow> Candle \<Rightarrow> Candle res" where
  "Candle_fromJson J j = runSteps
     [idxWith J stoll j 0 c_startTime_update,
      idxWith J (stod J) j 1 c_open_update,
      idxWith J (stod J) j 2 c_high_update,
      idxWith J (stod J) j 3 c_low_update,
      idxWith J (stod J) j 4 c_close_update,
      idxWith J (stod J) j 5 c_volume_update,
      idxWith J (stod J) j 6 c_turnover_update]"

record 'j Candles = "'j Response" +
  cs_category :: Category
  cs_symbol :: string
  cs_candles :: "Candle list"

definition Candles_init :: "'j jops \<Rightarrow> 'j Candles" where
  "Candles_init J = Response.extend (Response_init J) (Candles.fields linear [] [])"

definition Candles_fromJson :: "'j jops \<Rightarrow> 'j \<Rightarrow> 'j Candles \<Rightarrow> 'j Candles res" where
  "Candles_fromJson J j = runSteps
     [Response_fromJson J j,
      (\<lambda>r. rdV (readString J) (result r) ''symbol'' cs_symbol cs_symbol_update r),
      (\<lambda>r. rdV (readCategory J) (result r) ''category'' cs_category cs_category_update r),
      (\<lambda>r. bindR (resultList J r) (\<lambda>els.
         bindR (pushAll (\<lambda>el. Candle_fromJson J el Candle_init) els (cs_candles r)) (\<lambda>xs.
           Inr (r\<lparr>cs_candles := xs\<rparr>))))]"

section \<open>Wallet balances\<close>

record Coin =
  coin_accruedInterest :: double
  coin_availableToBorrow :: double
  coin_availableToWithdraw :: double
  coin_bonus :: double
  coin_borrowAmount :: double
  coin_coin :: string
  coin_collateralSwitch :: bool
  coin_cumRealisedPnl :: double
  coin_equity :: double
  coin_locked :: double
  coin_marginCollateral :: bool
  coin_totalOrderIM :: double
  coin_totalPositionIM :: double
  coin_totalPositionMM :: double
  coin_unrealisedPnl :: double
  coin_usdValue :: double
  coin_walletBalance :: double

definition Coin_init :: Coin where
  "Coin_init = \<lparr>
    coin_accruedInterest = 0,
    coin_availableToBorrow = 0,
    coin_availableToWithdraw = 0,
    coin_bonus = 0,
    coin_borrowAmount = 0,
    coin_coin = [],
    coin_collateralSwitch = True,
    coin_cumRealisedPnl = 0,
    coin_equity = 0,
    coin_locked = 0,
    coin_marginCollateral = True,
    coin_totalOrderIM = 0,
    coin_totalPositionIM = 0,
    coin_totalPositionMM = 0,
    coin_unrealisedPnl = 0,
    coin_usdValue = 0,
    coin_walletBalance = 0\<rparr>"

definition Coin_fromJson :: "'j jops \<Rightarrow> 'j \<Rightarrow> Coin \<Rightarrow> Coin res" where
  "Coin_fromJson J j = runSteps
     [rdR (readStringAsDouble J) j ''accruedInterest'' coin_accruedInterest coin_accruedInterest_update,
      rdR (readStringAsDouble J) j ''availableToBorrow'' coin_availableToBorrow coin_availableToBorrow_update,
      rdR (readStringAsDouble J) j ''availableToWithdraw'' coin_availableToWithdraw coin_availableToWithdraw_update,
      rdR (readStringAsDouble J) j ''bonus'' coin_bonus coin_bonus_update,
      rdR (readStringAsDouble J) j ''borrowAmount'' coin_borrowAmount coin_borrowAmount_update,
      rdV (readString J) j ''coin'' coin_coin coin_coin_update,
      rdV (readBool J) j ''collateralSwitch'' coin_collateralSwitch coin_collateralSwitch_update,
      rdR (readStringAsDouble J) j ''cumRealisedPnl'' coin_cumRealisedPnl coin_cumRealisedPnl_update,
      rdR (readStringAsDouble J) j ''equity'' coin_equity coin_equity_update,
      rdR (readStringAsDouble J) j ''locked'' coin_locked coin_locked_update,
      rdV (readBool J) j ''marginCollateral'' coin_marginCollateral coin_marginCollateral_update,
      rdR (readStringAsDouble J) j ''totalOrderIM'' coin_totalOrderIM coin_totalOrderIM_update,
      rdR (readStringAsDouble J) j ''totalPositionIM'' coin_totalPositionIM coin_totalPositionIM_update,
      rdR (readStringAsDouble J) j ''totalPositionMM'' coin_totalPositionMM coin_totalPositionMM_update,
      rdR (readStringAsDouble J) j ''unrealisedPnl'' coin_unrealisedPnl coin_unrealisedPnl_update,
      rdR (readStringAsDouble J) j ''usdValue'' coin_usdValue coin_usdValue_update,
      rdR (readStringAsDouble J) j ''walletBalance'' coin_walletBalance coin_walletBalance_update]"

record AccountBalance =
  acct_accountIMRate :: double
  acct_accountLTV :: double
  acct_accountMMRate :: double
  acct_accountType :: AccountType
  acct_totalAvailableBalance :: double
  acct_totalEquity :: double
  acct_totalInitialMargin :: double
  acct_totalMaintenanceMargin :: double
  acct_totalMarginBalance :: double
  acct_totalPerpUPL :: double
  acct_totalWalletBalance :: double
  acct_coins :: "Coin list"

definition AccountBalance_init :: AccountBalance where
  "AccountBalance_init = \<lparr>
    acct_accountIMRate = 0,
    acct_accountLTV = 0,
    acct_accountMMRate = 0,
    acct_accountType = UNIFIED,
    acct_totalAvailableBalance = 0,
    acct_totalEquity = 0,
    acct_totalInitialMargin = 0,
    acct_totalMaintenanceMargin = 0,
    acct_totalMarginBalance = 0,
    acct_totalPerpUPL = 0,
    acct_totalWalletBalance = 0,
    acct_coins = []\<rparr>"

definition AccountBalance_fromJson :: "'j jops \<Rightarrow> 'j \<Rightarrow> AccountBalance \<Rightarrow> AccountBalance res" where
  "AccountBalance_fromJson J j = runSteps
     [rdR (readStringAsDouble J) j ''accountIMRate'' acct_accountIMRate acct_accountIMRate_update,
      rdR (readStringAsDouble J) j ''accountLTV'' acct_accountLTV acct_accountLTV_update,
      rdR (readStringAsDouble J) j ''accountMMRate'' acct_accountMMRate acct_accountMMRate_update,
      rdV (readAccountType J) j ''accountType'' acct_accountType acct_accountType_update,
      rdR (readStringAsDouble J) j ''totalAvailableBalance'' acct_totalAvailableBalance acct_totalAvailableBalance_update,
      rdR (readStringAsDouble J) j ''totalEquity'' acct_totalEquity acct_totalEquity_update,
      rdR (readStringAsDouble J) j ''totalInitialMargin'' acct_totalInitialMargin acct_totalInitialMargin_update,
      rdR (readStringAsDouble J) j ''totalMaintenanceMargin'' acct_totalMaintenanceMargin acct_totalMaintenanceMargin_update,
      rdR (readStringAsDouble J) j ''totalMarginBalance'' acct_totalMarginBalance acct_totalMarginBalance_update,
      rdR (readStringAsDouble J) j ''totalPerpUPL'' acct_totalPerpUPL acct_totalPerpUPL_update,
      rdR (readStringAsDouble J) j ''totalWalletBalance'' acct_totalWalletBalance acct_totalWalletBalance_update,
      (\<lambda>r. bindR (j_at J j ''coin'') (\<lambda>l.
         bindR (pushAll (\<lambda>el. Coin_fromJson J el Coin_init) (j_items J l) (acct_coins r)) (\<lambda>xs.
           Inr (r\<lparr>acct_coins := xs\<rparr>))))]"

record 'j WalletBalance = "'j Response" +
  wb_balances :: "AccountBalance list"

definition WalletBalance_init :: "'j jops \<Rightarrow> 'j WalletBalance" where
  "WalletBalance_init J = Response.extend (Response_init J) (WalletBalance.fields [])"

definition WalletBalance_fromJson :: "'j jops \<Rightarrow> 'j \<Rightarrow> 'j WalletBalance \<Rightarrow> 'j WalletBalance res" where
  "WalletBalance_fromJson J j = runSteps
     [Response_fromJson J j,
      (\<lambda>r. bindR (resultList J r) (\<lambda>els.
         bindR (pushAll (\<lambda>el. AccountBalance_fromJson J el AccountBalance_init) els (wb_balances r)) (\<lambda>xs.
           Inr (r\<lparr>wb_balances := xs\<rparr>))))]"

section \<open>Server time\<close>

record 'j ServerTime = "'j Response" +
  st_timeSecond :: int
  st_timeNano :: int

definition ServerTime_init :: "'j jops \<Rightarrow> 'j ServerTime" where
  "ServerTime_init J = Response.extend (Response_init J) (ServerTime.fields 0 0)"

definition ServerTime_fromJson :: "'j jops \<Rightarrow> 'j \<Rightarrow> 'j ServerTime \<Rightarrow> 'j ServerTime res" where
  "ServerTime_fromJson J j = runSteps
     [Response_fromJson J j,
      (\<lambda>r. rdN (readStringAsInt64Dflt J) (result r) ''timeSecond'' st_timeSecond_update r),
      (\<lambda>r. rdN (readStringAsInt64Dflt J) (result r) ''timeNano'' st_timeNano_update r)]"

section \<open>Positions\<close>

record Position =
  pos_positionIdx :: int
  pos_riskId :: int
  pos_riskLimitValue :: double
  pos_symbol :: string
  pos_side :: Side
  pos_size :: double
  pos_avgPrice :: double
  pos_positionValue :: double
  pos_tradeMode :: int
  pos_positionStatus :: PositionStatus
  pos_autoAddMargin :: int
  pos_adlRankIndicator :: int
  pos_leverage :: double
  pos_positionBalance :: double
  pos_markPrice :: double
  pos_liqPrice :: double
  pos_bustPrice :: double
  pos_positionMM :: double
  pos_positionIM :: double
  pos_tpSlMode :: TpSlMode
  pos_stopLoss :: double
  pos_takeProfit :: double
  pos_trailingStop :: double
  pos_unrealisedPnl :: double
  pos_cumRealisedPnl :: double
  pos_isReduceOnly :: bool
  pos_createdTime :: int
  pos_updatedTime :: int
  pos_seq :: int
  pos_mmrSysUpdateTime :: string
  pos_leverageSysUpdatedTime :: string
  pos_zeroSize :: bool

definition Position_init :: Position where
  "Position_init = \<lparr>
    pos_positionIdx = 0,
    pos_riskId = 0,
    pos_riskLimitValue = 0,
    pos_symbol = [],
    pos_side = Buy,
    pos_size = 0,
    pos_avgPrice = 0,
    pos_positionValue = 0,
    pos_tradeMode = 0,
    pos_positionStatus = Normal,
    pos_autoAddMargin = 0,
    pos_adlRankIndicator = 0,
    pos_leverage = 0,
    pos_positionBalance = 0,
    pos_markPrice = 0,
    pos_liqPrice = 0,
    pos_bustPrice = 0,
    pos_positionMM = 0,
    pos_positionIM = 0,
    pos_tpSlMode = Full,
    pos_stopLoss = 0,
    pos_takeProfit = 0,
    pos_trailingStop = 0,
    pos_unrealisedPnl = 0,
    pos_cumRealisedPnl = 0,
    pos_isReduceOnly = False,
    pos_createdTime = 0,
    pos_updatedTime = 0,
    pos_seq = 0,
    pos_mmrSysUpdateTime = [],
    pos_leverageSysUpdatedTime = [],
    pos_zeroSize = True\<rparr>"

definition Position_fromJson :: "'j jops \<Rightarrow> 'j \<Rightarrow> Position \<Rightarrow> Position res" where
  "Position_fromJson J j = runSteps
     [rdV (readInt J) j ''positionIdx'' pos_positionIdx pos_positionIdx_update,
      rdV (readInt J) j ''riskId'' pos_riskId pos_riskId_update,
      rdR (readStringAsDouble J) j ''riskLimitValue'' pos_riskLimitValue pos_riskLimitValue_update,
      rdV (readString J) j ''symbol'' pos_symbol pos_symbol_update,
      rdV (readSide J) j ''side'' pos_side pos_side_update,
      (\<lambda>r. bindR (readDecimalValue J j ''size'' 0 0) (\<lambda>(_, positionSize).
         Inr (if positionSize \<noteq> 0 then r\<lparr>pos_zeroSize := False\<rparr> else r))),
      rdR (readStringAsDouble J) j ''size'' pos_size pos_size_update,
      rdR (readStringAsDouble J) j ''avgPrice'' pos_avgPrice pos_avgPrice_update,
      rdR (readStringAsDouble J) j ''positionValue'' pos_positionValue pos_positionValue_update,
      rdV (readInt J) j ''tradeMode'' pos_tradeMode pos_tradeMode_update,
      rdV (readPositionStatus J) j ''positionStatus'' pos_positionStatus pos_positionStatus_update,
      rdV (readInt J) j ''autoAddMargin'' pos_autoAddMargin pos_autoAddMargin_update,
      rdV (readInt J) j ''adlRankIndicator'' pos_adlRankIndicator pos_adlRankIndicator_update,
      rdR (readStringAsDouble J) j ''leverage'' pos_leverage pos_leverage_update,
      rdR (readStringAsDouble J) j ''positionBalance'' pos_positionBalance pos_positionBalance_update,
      rdR (readStringAsDouble J) j ''markPrice'' pos_markPrice pos_markPrice_update,
      rdR (readStringAsDouble J) j ''liqPrice'' pos_liqPrice pos_liqPrice_update,
      rdR (readStringAsDouble J) j ''bustPrice'' pos_bustPrice pos_bustPrice_update,
      rdR (readStringAsDouble J) j ''positionMM'' pos_positionMM pos_positionMM_update,
      rdR (readStringAsDouble J) j ''positionIM'' pos_positionIM pos_positionIM_update,
      rdV (readTpSlMode J) j ''tpSlMode'' pos_tpSlMode pos_tpSlMode_update,
      rdR (readStringAsDouble J) j ''stopLoss'' pos_stopLoss pos_stopLoss_update,
      rdR (readStringAsDouble J) j ''takeProfit'' pos_takeProfit pos_takeProfit_update,
      rdR (readStringAsDouble J) j ''trailingStop'' pos_trailingStop pos_trailingStop_update,
      rdR (readStringAsDouble J) j ''unrealisedPnl'' pos_unrealisedPnl pos_unrealisedPnl_update,
      rdR (readStringAsDouble J) j ''cumRealisedPnl'' pos_cumRealisedPnl pos_cumRealisedPnl_update,
      rdV (readBool J) j ''isReduceOnly'' pos_isReduceOnly pos_isReduceOnly_update,
      rdN (readStringAsInt64Dflt J) j ''createdTime'' pos_createdTime_update,
      rdN (readStringAsInt64Dflt J) j ''updatedTime'' pos_updatedTime_update,
      rdV (readInt64 J) j ''seq'' pos_seq pos_seq_update,
      rdV (readString J) j ''mmrSysUpdateTime'' pos_mmrSysUpdateTime pos_mmrSysUpdateTime_update,
      rdV (readString J) j ''leverageSysUpdatedTime'' pos_leverageSysUpdatedTime pos_leverageSysUpdatedTime_update]"

record 'j Positions = "'j Response" +
  ps_category :: Category
  ps_positions :: "Position list"
  ps_nextPageCursor :: string

definition Positions_init :: "'j jops \<Rightarrow> 'j Positions" where
  "Positions_init J = Response.extend (Response_init J) (Positions.fields linear [] [])"

definition Positions_fromJson :: "'j jops \<Rightarrow> 'j \<Rightarrow> 'j Positions \<Rightarrow> 'j Positions res" where
  "Positions_fromJson J j = runSteps
     [Response_fromJson J j,
      (\<lambda>r. rdV (readCategory J) (result r) ''category'' ps_category ps_category_update r),
      (\<lambda>r. rdV (readString J) (result r) ''nextPageCursor'' ps_nextPageCursor ps_nextPageCursor_update r),
      (\<lambda>r. bindR (resultList J r) (\<lambda>els.
         bindR (pushAll (\<lambda>el. Position_fromJson J el Position_init) els (ps_positions r)) (\<lambda>xs.
           Inr (r\<lparr>ps_positions := xs\<rparr>))))]"

end
