(* ===== verification/Models_Market.thy ===== *)
theory Models_Market
  imports Models_Account
begin

text \<open>
  Instruments with their filters, funding rates and tickers: the market part of
  \<^verbatim>\<open>bybit_models.h\<close> and \<^verbatim>\<open>bybit_models.cpp\<close>, as in
  \<open>Models_Account\<close>.
\<close>

section \<open>Instruments\<close>

record PriceFilter =
  pf_minPrice :: double
  pf_maxPrice :: double
  pf_tickSize :: double

definition PriceFilter_init :: PriceFilter where
  "PriceFilter_init = \<lparr>
    pf_minPrice = 0,
    pf_maxPrice = 0,
    pf_tickSize = 0\<rparr>"

definition PriceFilter_fromJson :: "'j jops \<Rightarrow> 'j \<Rightarrow> PriceFilter \<Rightarrow> PriceFilter res" where
  "PriceFilter_fromJson J j = runSteps
     [rdR (readStringAsDouble J) j ''minPrice'' pf_minPrice pf_minPrice_update,
      rdR (readStringAsDouble J) j ''maxPrice'' pf_maxPrice pf_maxPrice_update,
      rdR (readStringAsDouble J) j ''tickSize'' pf_tickSize pf_tickSize_update]"

record LeverageFilter =
  lf_minLeverage :: double
  lf_maxLeverage :: double
  lf_leverageStep :: double

definition LeverageFilter_init :: LeverageFilter where
  "LeverageFilter_init = \<lparr>
    lf_minLeverage = 0,
    lf_maxLeverage = 0,
    lf_leverageStep = 0\<rparr>"

definition LeverageFilter_fromJson :: "'j jops \<Rightarrow> 'j \<Rightarrow> LeverageFilter \<Rightarrow> LeverageFilter res" where
  "LeverageFilter_fromJson J j = runSteps
     [rdR (readStringAsDouble J) j ''minLeverage'' lf_minLeverage lf_minLeverage_update,
      rdR (readStringAsDouble J) j ''maxLeverage'' lf_maxLeverage lf_maxLeverage_update,
      rdR (readStringAsDouble J) j ''leverageStep'' lf_leverageStep lf_leverageStep_update]"

record LotSizeFilter =
  ls_maxOrderQty :: double
  ls_minOrderQty :: double
  ls_qtyStep :: double
  ls_postOnlyMaxTradingQty :: double
  ls_minNotionalValue :: double

definition LotSizeFilter_init :: LotSizeFilter where
  "LotSizeFilter_init = \<lparr>
    ls_maxOrderQty = 0,
    ls_minOrderQty = 0,
    ls_qtyStep = 0,
    ls_postOnlyMaxTradingQty = 0,
    ls_minNotionalValue = 0\<rparr>"

definition LotSizeFilter_fromJson :: "'j jops \<Rightarrow> 'j \<Rightarrow> LotSizeFilter \<Rightarrow> LotSizeFilter res" where
  "LotSizeFilter_fromJson J j = runSteps
     [rdR (readStringAsDouble J) j ''maxOrderQty'' ls_maxOrderQty ls_maxOrderQty_update,
      rdR (readStringAsDouble J) j ''minOrderQty'' ls_minOrderQty ls_minOrderQty_update,
      rdR (readStringAsDouble J) j ''qtyStep'' ls_qtyStep ls_qtyStep_update,
      rdR (readStringAsDouble J) j ''postOnlyMaxTradingQty'' ls_postOnlyMaxTradingQty ls_postOnlyMaxTradingQty_update,
      rdR (readStringAsDouble J) j ''minNotionalValue'' ls_minNotionalValue ls_minNotionalValue_update]"

record Instrument =
  ins_symbol :: string
  ins_contractType :: ContractType
  ins_contractStatus :: ContractStatus
  ins_baseCoin :: string
  ins_quoteCoin :: string
  ins_symbolType :: string
  ins_launchTime :: int
  ins_deliveryTime :: int
  ins_deliveryFeeRate :: double
  ins_priceScale :: int
  ins_unifiedMarginTrade :: bool
  ins_fundingInterval :: int
  ins_settleCoin :: string
  ins_leverageFilter :: "LeverageFilter"
  ins_priceFilter :: "PriceFilter"
  ins_lotSizeFilter :: "LotSizeFilter"

definition Instrument_init :: Instrument where
  "Instrument_init = \<lparr>
    ins_symbol = [],
    ins_contractType = LinearPerpetual,
    ins_contractStatus = Trading,
    ins_baseCoin = [],
    ins_quoteCoin = [],
    ins_symbolType = [],
    ins_launchTime = 0,
    ins_deliveryTime = 0,
    ins_deliveryFeeRate = 0,
    ins_priceScale = 0,
    ins_unifiedMarginTrade = True,
    ins_fundingInterval = 0,
    ins_settleCoin = [],
    ins_leverageFilter = LeverageFilter_init,
    ins_priceFilter = PriceFilter_init,
    ins_lotSizeFilter = LotSizeFilter_init\<rparr>"

definition Instrument_fromJson :: "'j jops \<Rightarrow> 'j \<Rightarrow> Instrument \<Rightarrow> Instrument res" where
  "Instrument_fromJson J j = runSteps
     [rdV (readString J) j ''symbol'' ins_symbol ins_symbol_update,
      rdV (readContractType J) j ''contractType'' ins_contractType ins_contractType_update,
      rdV (readContractStatus J) j ''contractStatus'' ins_contractStatus ins_contractStatus_update,
      (\<lambda>r. if \<not> j_contains J j ''contractStatus'' \<and> j_contains J j ''status''
         then rdV (readContractStatus J) j ''status'' ins_contractStatus ins_contractStatus_update r
         else Inr r),
      rdV (readString J) j ''baseCoin'' ins_baseCoin ins_baseCoin_update,
      rdV (readString J) j ''quoteCoin'' ins_quoteCoin ins_quoteCoin_update,
      rdV (readString J) j ''symbolType'' ins_symbolType ins_symbolType_update,
      rdN (readStringAsInt64Dflt J) j ''launchTime'' ins_launchTime_update,
      rdN (readStringAsInt64Dflt J) j ''deliveryTime'' ins_deliveryTime_update,
      rdR (readStringAsDouble J) j ''deliveryFeeRate'' ins_deliveryFeeRate ins_deliveryFeeRate_update,
      rdR (readStringAsInt J) j ''priceScale'' ins_priceScale ins_priceScale_update,
      rdV (readBool J) j ''unifiedMarginTrade'' ins_unifiedMarginTrade ins_unifiedMarginTrade_update,
      rdV (readInt J) j ''fundingInterval'' ins_fundingInterval ins_fundingInterval_update,
      rdV (readString J) j ''settleCoin'' ins_settleCoin ins_settleCoin_update,
      (\<lambda>r. case j_find J j ''leverageFilter'' of None \<Rightarrow> Inr r
         | Some v \<Rightarrow> bindR (LeverageFilter_fromJson J v (ins_leverageFilter r)) (\<lambda>f.
             Inr (r\<lparr>ins_leverageFilter := f\<rparr>))),
      (\<lambda>r. bindR (j_at J j ''priceFilter'') (\<lambda>v. bindR (PriceFilter_fromJson J v (ins_priceFilter r)) (\<lambda>f.
         Inr (r\<lparr>ins_priceFilter := f\<rparr>)))),
      (\<lambda>r. bindR (j_at J j ''lotSizeFilter'') (\<lambda>v. bindR (LotSizeFilter_fromJson J v (ins_lotSizeFilter r)) (\<lambda>f.
         Inr (r\<lparr>ins_lotSizeFilter := f\<rparr>))))]"

record 'j Instruments = "'j Response" +
  is_category :: Category
  is_instruments :: "Instrument list"
  is_nextPageCursor :: string

definition Instruments_init :: "'j jops \<Rightarrow> 'j Instruments" where
  "Instruments_init J = Response.extend (Response_init J) (Instruments.fields linear [] [])"

definition Instruments_fromJson :: "'j jops \<Rightarrow> 'j \<Rightarrow> 'j Instruments \<Rightarrow> 'j Instruments res" where
  "Instruments_fromJson J j = runSteps
     [Response_fromJson J j,
      (\<lambda>r. rdV (readCategory J) (result r) ''category'' is_category is_category_update r),
      (\<lambda>r. rdV (readString J) (result r) ''nextPageCursor'' is_nextPageCursor is_nextPageCursor_update r),
      (\<lambda>r. bindR (resultList J r) (\<lambda>els.
         bindR (pushAll (\<lambda>el. Instrument_fromJson J el Instrument_init) els (is_instruments r)) (\<lambda>xs.
           Inr (r\<lparr>is_instruments := xs\<rparr>))))]"

section \<open>Funding rates\<close>

record FundingRate =
  fr_symbol :: string
  fr_fundingRate :: double
  fr_fundingRateTimestamp :: int

definition FundingRate_init :: FundingRate where
  "FundingRate_init = \<lparr>
    fr_symbol = [],
    fr_fundingRate = 0,
    fr_fundingRateTimestamp = 0\<rparr>"

definition FundingRate_fromJson :: "'j jops \<Rightarrow> 'j \<Rightarrow> FundingRate \<Rightarrow> FundingRate res" where
  "FundingRate_fromJson J j = runSteps
     [rdV (readString J) j ''symbol'' fr_symbol fr_symbol_update,
      rdR (readStringAsDouble J) j ''fundingRate'' fr_fundingRate fr_fundingRate_update,
      rdR (readStringAsInt64 J) j ''fundingRateTimestamp'' fr_fundingRateTimestamp fr_fundingRateTimestamp_update]"

record 'j FundingRates = "'j Response" +
  frs_category :: Category
  frs_fundingRates :: "FundingRate list"

definition FundingRates_init :: "'j jops \<Rightarrow> 'j FundingRates" where
  "FundingRates_init J = Response.extend (Response_init J) (FundingRates.fields linear [])"

definition FundingRates_fromJson :: "'j jops \<Rightarrow> 'j \<Rightarrow> 'j FundingRates \<Rightarrow> 'j FundingRates res" where
  "FundingRates_fromJson J j = runSteps
     [Response_fromJson J j,
      (\<lambda>r. rdV (readCategory J) (result r) ''category'' frs_category frs_category_update r),
      (\<lambda>r. bindR (resultList J r) (\<lambda>els.
         bindR (pushAll (\<lambda>el. FundingRate_fromJson J el FundingRate_init) els (frs_fundingRates r)) (\<lambda>xs.
           Inr (r\<lparr>frs_fundingRates := xs\<rparr>))))]"

section \<open>Tickers\<close>

record Ticker =
  tk_symbol :: string
  tk_lastPrice :: double
  tk_indexPrice :: double
  tk_markPrice :: double
  tk_prevPrice24h :: double
  tk_price24hPcnt :: double
  tk_highPrice24h :: double
  tk_prevPrice1h :: double
  tk_openInterest :: int
  tk_openInterestValue :: double
  tk_turnover24h :: double
  tk_volume24h :: double
  tk_fundingRate :: double
  tk_nextFundingTime :: int
  tk_ask1Size :: double
  tk_bid1Price :: double
  tk_ask1Price :: double
  tk_bid1Size :: double

definition Ticker_init :: Ticker where
  "Ticker_init = \<lparr>
    tk_symbol = [],
    tk_lastPrice = 0,
    tk_indexPrice = 0,
    tk_markPrice = 0,
    tk_prevPrice24h = 0,
    tk_price24hPcnt = 0,
    tk_highPrice24h = 0,
    tk_prevPrice1h = 0,
    tk_openInterest = 0,
    tk_openInterestValue = 0,
    tk_turnover24h = 0,
    tk_volume24h = 0,
    tk_fundingRate = 0,
    tk_nextFundingTime = 0,
    tk_ask1Size = 0,
    tk_bid1Price = 0,
    tk_ask1Price = 0,
    tk_bid1Size = 0\<rparr>"

definition Ticker_fromJson :: "'j jops \<Rightarrow> 'j \<Rightarrow> Ticker \<Rightarrow> Ticker res" where
  "Ticker_fromJson J j = runSteps
     [rdV (readString J) j ''symbol'' tk_symbol tk_symbol_update,
      rdR (readStringAsDouble J) j ''lastPrice'' tk_lastPrice tk_lastPrice_update,
      rdR (readStringAsDouble J) j ''indexPrice'' tk_indexPrice tk_indexPrice_update,
      rdR (readStringAsDouble J) j ''markPrice'' tk_markPrice tk_markPrice_update,
      rdR (readStringAsDouble J) j ''prevPrice24h'' tk_prevPrice24h tk_prevPrice24h_update,
      rdR (readStringAsDouble J) j ''price24hPcnt'' tk_price24hPcnt tk_price24hPcnt_update,
      rdR (readStringAsDouble J) j ''highPrice24h'' tk_highPrice24h tk_highPrice24h_update,
      rdR (readStringAsDouble J) j ''prevPrice1h'' tk_prevPrice1h tk_prevPrice1h_update,
      rdR (readStringAsInt64 J) j ''openInterest'' tk_openInterest tk_openInterest_update,
      rdR (readStringAsDouble J) j ''openInterestValue'' tk_openInterestValue tk_openInterestValue_update,
      rdR (readStringAsDouble J) j ''turnover24h'' tk_turnover24h tk_turnover24h_update,
      rdR (readStringAsDouble J) j ''volume24h'' tk_volume24h tk_volume24h_update,
      rdR (readStringAsDouble J) j ''fundingRate'' tk_fundingRate tk_fundingRate_update,
      rdR (readStringAsInt64 J) j ''nextFundingTime'' tk_nextFundingTime tk_nextFundingTime_update,
      rdR (readStringAsDouble J) j ''ask1Size'' tk_ask1Size tk_ask1Size_update,
      rdR (readStringAsDouble J) j ''bid1Price'' tk_bid1Price tk_bid1Price_update,
      rdR (readStringAsDouble J) j ''ask1Price'' tk_ask1Price tk_ask1Price_update,
      rdR (readStringAsDouble J) j ''bid1Size'' tk_bid1Size tk_bid1Size_update]"

record 'j Tickers = "'j Response" +
  tks_category :: Category
  tks_tickers :: "Ticker list"

definition Tickers_init :: "'j jops \<Rightarrow> 'j Tickers" where
  "Tickers_init J = Response.extend (Response_init J) (Tickers.fields linear [])"

definition Tickers_fromJson :: "'j jops \<Rightarrow> 'j \<Rightarrow> 'j Tickers \<Rightarrow> 'j Tickers res" where
  "Tickers_fromJson J j = runSteps
     [Response_fromJson J j,
      (\<lambda>r. rdV (readCategory J) (result r) ''category'' tks_category tks_category_update r),
      (\<lambda>r. bindR (resultList J r) (\<lambda>els.
         bindR (pushAll (\<lambda>el. Ticker_fromJson J el Ticker_init) els (tks_tickers r)) (\<lambda>xs.
           Inr (r\<lparr>tks_tickers := xs\<rparr>))))]"

end
