(* ===== verification/Models_Order.thy ===== *)
theory Models_Order
  imports Models_Account
begin

text \<open>
  Orders: \<^verbatim>\<open>decimalPlacesFromStep\<close>, the order that is sent and how it is
  serialised, the order identifiers and the order listings that come back
  (\<^verbatim>\<open>bybit_models.h\<close>, \<^verbatim>\<open>bybit_models.cpp\<close>). The lemmas say how many
  decimals a step gives, evaluated in double arithmetic, and which members an order's JSON has.
\<close>

section \<open>decimalPlacesFromStep\<close>

text \<open>The loop condition's right conjunct: \<open>scaled\<close> is not close to an integer.\<close>

definition not_integral :: "double \<Rightarrow> bool" where
  "not_integral scaled =
     (\<bar>dsub scaled (rnd (of_int (llround scaled)))\<bar>
        > dadd (dmul scaled (rnd (1 / 1000000000))) (rnd (1 / 1000000000000)))"

function placesLoop :: "nat \<Rightarrow> double \<Rightarrow> nat" where
  "placesLoop places scaled =
     (if places < 12 \<and> not_integral scaled then placesLoop (Suc places) (dmul scaled 10) else places)"
  by pat_completeness auto
termination
  by (relation "measure (\<lambda>(places, scaled). 12 - places)") auto

declare placesLoop.simps [simp del]

definition decimalPlacesFromStep :: "double \<Rightarrow> nat" where
  "decimalPlacesFromStep step = (if step \<le> 0 then 0 else placesLoop 0 step)"

section \<open>Order\<close>

record Order =
  ord_category :: Category
  ord_symbol :: string
  ord_side :: Side
  ord_orderType :: OrderType
  ord_qty :: double
  ord_price :: double
  ord_timeInForce :: TimeInForce
  ord_positionIdx :: int
  ord_orderLinkId :: string
  ord_takeProfit :: double
  ord_stopLoss :: double
  ord_tpTriggerBy :: TriggerPriceType
  ord_slTriggerBy :: TriggerPriceType
  ord_reduceOnly :: bool
  ord_closeOnTrigger :: bool
  ord_priceStep :: double
  ord_qtyStep :: double

definition Order_init :: Order where
  "Order_init = \<lparr>
    ord_category = linear,
    ord_symbol = [],
    ord_side = Buy,
    ord_orderType = Market,
    ord_qty = 0,
    ord_price = 0,
    ord_timeInForce = GTC,
    ord_positionIdx = 0,
    ord_orderLinkId = [],
    ord_takeProfit = 0,
    ord_stopLoss = 0,
    ord_tpTriggerBy = LastPrice,
    ord_slTriggerBy = LastPrice,
    ord_reduceOnly = False,
    ord_closeOnTrigger = False,
    ord_priceStep = rnd (1 / 1000),
    ord_qtyStep = rnd (1 / 1000)\<rparr>"

text \<open>The assignments of \<^verbatim>\<open>Order::toJson\<close> in source order.\<close>

definition Order_members :: "'j jops \<Rightarrow> Order \<Rightarrow> (string \<times> 'j) list" where
  "Order_members J r =
     [(''category'', j_str J (Category_name (ord_category r))),
      (''side'', j_str J (Side_name (ord_side r))),
      (''symbol'', j_str J (ord_symbol r)),
      (''orderType'', j_str J (OrderType_name (ord_orderType r))),
      (''timeInForce'', j_str J (TimeInForce_name (ord_timeInForce r))),
      (''reduceOnly'', j_bool J (ord_reduceOnly r)),
      (''closeOnTrigger'', j_bool J (ord_closeOnTrigger r)),
      (''positionIdx'', j_int J (ord_positionIdx r))]
     @ (if ord_orderLinkId r \<noteq> [] then [(''orderLinkId'', j_str J (ord_orderLinkId r))] else [])
     @ (let pricePrecision = decimalPlacesFromStep (ord_priceStep r) in
        [(''qty'', j_str J (formatDouble J (decimalPlacesFromStep (ord_qtyStep r)) (ord_qty r)))]
        @ (if ord_orderType r = Limit
           then [(''price'', j_str J (formatDouble J pricePrecision (ord_price r)))] else [])
        @ (if ord_takeProfit r \<noteq> 0
           then [(''takeProfit'', j_str J (formatDouble J pricePrecision (ord_takeProfit r)))] else [])
        @ (if ord_stopLoss r \<noteq> 0
           then [(''stopLoss'', j_str J (formatDouble J pricePrecision (ord_stopLoss r)))] else []))
     @ (if ord_tpTriggerBy r = LastPrice
        then [(''tpTriggerBy'', j_str J (TriggerPriceType_name (ord_tpTriggerBy r)))] else [])
     @ (if ord_slTriggerBy r = LastPrice
        then [(''slTriggerBy'', j_str J (TriggerPriceType_name (ord_slTriggerBy r)))] else [])"

definition Order_toJson :: "'j jops \<Rightarrow> Order \<Rightarrow> 'j" where
  "Order_toJson J r = setAll J (Order_members J r)"

section \<open>OrderId\<close>

record 'j OrderId = "'j Response" +
  oid_orderId :: string
  oid_orderLinkId :: string

definition OrderId_init :: "'j jops \<Rightarrow> 'j OrderId" where
  "OrderId_init J = Response.extend (Response_init J) (OrderId.fields [] [])"

definition OrderId_fromJson :: "'j jops \<Rightarrow> 'j \<Rightarrow> 'j OrderId \<Rightarrow> 'j OrderId res" where
  "OrderId_fromJson J j = runSteps
     [Response_fromJson J j,
      (\<lambda>r. rdV (readString J) (result r) ''orderId'' oid_orderId oid_orderId_update r),
      (\<lambda>r. rdV (readString J) (result r) ''orderLinkId'' oid_orderLinkId oid_orderLinkId_update r)]"

section \<open>OrderResponse\<close>

record OrderResponse =
  or_orderId :: string
  or_orderLinkId :: string
  or_symbol :: string
  or_price :: double
  or_qty :: double
  or_side :: Side
  or_positionIdx :: int
  or_orderStatus :: OrderStatus
  or_rejectReason :: string
  or_avgPrice :: double
  or_cumExecQty :: double
  or_cumExecValue :: double
  or_cumExecFee :: double
  or_timeInForce :: TimeInForce
  or_orderType :: OrderType
  or_reduceOnly :: bool
  or_closeOnTrigger :: bool
  or_lastPriceOnCreated :: double
  or_createdTime :: string
  or_updatedTime :: string
  or_takeProfit :: double
  or_stopLoss :: double
  or_tpTriggerBy :: TriggerPriceType
  or_slTriggerBy :: TriggerPriceType

definition OrderResponse_init :: OrderResponse where
  "OrderResponse_init = \<lparr>
    or_orderId = [],
    or_orderLinkId = [],
    or_symbol = [],
    or_price = 0,
    or_qty = 0,
    or_side = Buy,
    or_positionIdx = 0,
    or_orderStatus = Created,
    or_rejectReason = [],
    or_avgPrice = 0,
    or_cumExecQty = 0,
    or_cumExecValue = 0,
    or_cumExecFee = 0,
    or_timeInForce = GTC,
    or_orderType = Market,
    or_reduceOnly = False,
    or_closeOnTrigger = False,
    or_lastPriceOnCreated = 0,
    or_createdTime = [],
    or_updatedTime = [],
    or_takeProfit = 0,
    or_stopLoss = 0,
    or_tpTriggerBy = LastPrice,
    or_slTriggerBy = LastPrice\<rparr>"

definition OrderResponse_fromJson :: "'j jops \<Rightarrow> 'j \<Rightarrow> OrderResponse \<Rightarrow> OrderResponse res" where
  "OrderResponse_fromJson J j = runSteps
     [rdV (readString J) j ''orderId'' or_orderId or_orderId_update,
      rdV (readString J) j ''orderLinkId'' or_orderLinkId or_orderLinkId_update,
      rdV (readString J) j ''symbol'' or_symbol or_symbol_update,
      rdV (readSide J) j ''side'' or_side or_side_update,
      rdR (readStringAsDouble J) j ''price'' or_price or_price_update,
      rdR (readStringAsDouble J) j ''qty'' or_qty or_qty_update,
      rdV (readInt64 J) j ''positionIdx'' or_positionIdx or_positionIdx_update,
      rdV (readOrderStatus J) j ''orderStatus'' or_orderStatus or_orderStatus_update,
      rdV (readString J) j ''rejectReason'' or_rejectReason or_rejectReason_update,
      rdR (readStringAsDouble J) j ''avgPrice'' or_avgPrice or_avgPrice_update,
      rdR (readStringAsDouble J) j ''cumExecQty'' or_cumExecQty or_cumExecQty_update,
      rdR (readStringAsDouble J) j ''cumExecValue'' or_cumExecValue or_cumExecValue_update,
      rdR (readStringAsDouble J) j ''cumExecFee'' or_cumExecFee or_cumExecFee_update,
      rdV (readTimeInForce J) j ''timeInForce'' or_timeInForce or_timeInForce_update,
      rdV (readOrderType J) j ''orderType'' or_orderType or_orderType_update,
      rdV (readBool J) j ''reduceOnly'' or_reduceOnly or_reduceOnly_update,
      rdV (readBool J) j ''closeOnTrigger'' or_closeOnTrigger or_closeOnTrigger_update,
      rdR (readStringAsDouble J) j ''lastPriceOnCreated'' or_lastPriceOnCreated or_lastPriceOnCreated_update,
      rdV (readString J) j ''createdTime'' or_createdTime or_createdTime_update,
      rdV (readString J) j ''updatedTime'' or_updatedTime or_updatedTime_update,
      rdR (readStringAsDouble J) j ''takeProfit'' or_takeProfit or_takeProfit_update,
      rdR (readStringAsDouble J) j ''stopLoss'' or_stopLoss or_stopLoss_update,
      rdV (readTriggerPriceType J) j ''tpTriggerBy'' or_tpTriggerBy or_tpTriggerBy_update,
      rdV (readTriggerPriceType J) j ''slTriggerBy'' or_slTriggerBy or_slTriggerBy_update]"

text \<open>
  \<^verbatim>\<open>toJson\<close> assigns the enumerations themselves, so the JSON holds their underlying
  integers (an argument here: \<open>enum\<close> of each type), and prints doubles with
  \<^verbatim>\<open>std::to_string\<close>.
\<close>

definition Side_value :: "Side \<Rightarrow> int" where
  "Side_value s = (case s of Buy \<Rightarrow> 0 | Sell \<Rightarrow> 1 | SideNone \<Rightarrow> 2)"

definition OrderType_value :: "OrderType \<Rightarrow> int" where
  "OrderType_value t = (case t of Limit \<Rightarrow> 0 | Market \<Rightarrow> 1)"

definition TimeInForce_value :: "TimeInForce \<Rightarrow> int" where
  "TimeInForce_value t = (case t of GTC \<Rightarrow> 0 | IOC \<Rightarrow> 1 | FOK \<Rightarrow> 2 | PostOnly \<Rightarrow> 3)"

definition TriggerPriceType_value :: "TriggerPriceType \<Rightarrow> int" where
  "TriggerPriceType_value t =
     (case t of LastPrice \<Rightarrow> 0 | IndexPrice \<Rightarrow> 1 | MarkPrice \<Rightarrow> 2 | TriggerUNKNOWN \<Rightarrow> 3)"

definition OrderStatus_value :: "OrderStatus \<Rightarrow> int" where
  "OrderStatus_value t =
     (case t of Created \<Rightarrow> 0 | New \<Rightarrow> 1 | Rejected \<Rightarrow> 2 | PartiallyFilled \<Rightarrow> 3
      | PartiallyFilledCanceled \<Rightarrow> 4 | Filled \<Rightarrow> 5 | PendingCancel \<Rightarrow> 6 | Cancelled \<Rightarrow> 7
      | Untriggered \<Rightarrow> 8 | Deactivated \<Rightarrow> 9 | Triggered \<Rightarrow> 10 | Active \<Rightarrow> 11)"

definition OrderResponse_toJson :: "'j jops \<Rightarrow> OrderResponse \<Rightarrow> 'j" where
  "OrderResponse_toJson J r = setAll J
     [(''orderId'', j_str J (or_orderId r)),
      (''orderLinkId'', j_str J (or_orderLinkId r)),
      (''symbol'', j_str J (or_symbol r)),
      (''side'', j_int J (Side_value (or_side r))),
      (''price'', j_str J (double_to_string J (or_price r))),
      (''qty'', j_str J (double_to_string J (or_qty r))),
      (''positionIdx'', j_int J (or_positionIdx r)),
      (''orderStatus'', j_int J (OrderStatus_value (or_orderStatus r))),
      (''rejectReason'', j_str J (or_rejectReason r)),
      (''cumExecQty'', j_str J (double_to_string J (or_cumExecQty r))),
      (''cumExecValue'', j_str J (double_to_string J (or_cumExecValue r))),
      (''cumExecFee'', j_str J (double_to_string J (or_cumExecFee r))),
      (''avgPrice'', j_str J (double_to_string J (or_avgPrice r))),
      (''timeInForce'', j_int J (TimeInForce_value (or_timeInForce r))),
      (''orderType'', j_int J (OrderType_value (or_orderType r))),
      (''reduceOnly'', j_bool J (or_reduceOnly r)),
      (''closeOnTrigger'', j_bool J (or_closeOnTrigger r)),
      (''lastPriceOnCreated'', j_str J (double_to_string J (or_lastPriceOnCreated r))),
      (''createdTime'', j_str J (or_createdTime r)),
      (''updatedTime'', j_str J (or_updatedTime r)),
      (''takeProfit'', j_str J (double_to_string J (or_takeProfit r))),
      (''stopLoss'', j_str J (double_to_string J (or_stopLoss r))),
      (''tpTriggerBy'', j_int J (TriggerPriceType_value (or_tpTriggerBy r))),
      (''slTriggerBy'', j_int J (TriggerPriceType_value (or_slTriggerBy r)))]"

record 'j OrdersResponse = "'j Response" +
  ors_category :: Category
  ors_orders :: "OrderResponse list"
  ors_nextPageCursor :: string

definition OrdersResponse_init :: "'j jops \<Rightarrow> 'j OrdersResponse" where
  "OrdersResponse_init J = Response.extend (Response_init J) (OrdersResponse.fields linear [] [])"

definition OrdersResponse_fromJson :: "'j jops \<Rightarrow> 'j \<Rightarrow> 'j OrdersResponse \<Rightarrow> 'j OrdersResponse res" where
  "OrdersResponse_fromJson J j = runSteps
     [Response_fromJson J j,
      (\<lambda>r. rdV (readCategory J) (result r) ''category'' ors_category ors_category_update r),
      (\<lambda>r. rdV (readString J) (result r) ''nextPageCursor'' ors_nextPageCursor ors_nextPageCursor_update r),
      (\<lambda>r. bindR (resultList J r) (\<lambda>els.
         bindR (pushAll (\<lambda>el. OrderResponse_fromJson J el OrderResponse_init) els (ors_orders r)) (\<lambda>xs.
           Inr (r\<lparr>ors_orders := xs\<rparr>))))]"

section \<open>Decimals of a step\<close>

lemma placesLoop_step: "places < 12 \<Longrightarrow> not_integral scaled \<Longrightarrow>
    placesLoop places scaled = placesLoop (Suc places) (dmul scaled 10)"
  by (subst placesLoop.simps) simp

lemma placesLoop_stop: "\<not> (places < 12 \<and> not_integral scaled) \<Longrightarrow> placesLoop places scaled = places"
  by (subst placesLoop.simps) auto

lemma placesLoop_bounds: "places \<le> 12 \<Longrightarrow> places \<le> placesLoop places scaled \<and> placesLoop places scaled \<le> 12"
proof (induction places scaled rule: placesLoop.induct)
  case (1 places scaled)
  show ?case
  proof (cases "places < 12 \<and> not_integral scaled")
    case True
    with "1.IH" have "Suc places \<le> placesLoop (Suc places) (dmul scaled 10)
        \<and> placesLoop (Suc places) (dmul scaled 10) \<le> 12" by simp
    with True show ?thesis by (simp add: placesLoop_step)
  next
    case False
    with "1.prems" show ?thesis by (simp add: placesLoop_stop)
  qed
qed

text \<open>The value the loop has multiplied the step up to.\<close>

fun scaledBy :: "nat \<Rightarrow> double \<Rightarrow> double" where
  "scaledBy 0 x = x"
| "scaledBy (Suc n) x = scaledBy n (dmul x 10)"

lemma placesLoop_exit:
  "placesLoop places scaled < 12 \<Longrightarrow> \<not> not_integral (scaledBy (placesLoop places scaled - places) scaled)"
proof (induction places scaled rule: placesLoop.induct)
  case (1 places scaled)
  show ?case
  proof (cases "places < 12 \<and> not_integral scaled")
    case True
    define m where "m = placesLoop (Suc places) (dmul scaled 10)"
    have m: "placesLoop places scaled = m"
      using True by (simp add: placesLoop_step m_def)
    have "Suc places \<le> m" using True placesLoop_bounds [of "Suc places" "dmul scaled 10"] by (simp add: m_def)
    then have "m - places = Suc (m - Suc places)" by simp
    moreover have "\<not> not_integral (scaledBy (m - Suc places) (dmul scaled 10))"
      using "1.IH" True "1.prems" m by (simp add: m_def)
    ultimately show ?thesis by (simp add: m)
  next
    case False
    then have "placesLoop places scaled = places" by (rule placesLoop_stop)
    with False "1.prems" show ?thesis by simp
  qed
qed


lemma placesLoop_least:
  "places + n < placesLoop places scaled \<Longrightarrow> not_integral (scaledBy n scaled)"
proof (induction places scaled arbitrary: n rule: placesLoop.induct)
  case (1 places scaled)
  show ?case
  proof (cases "places < 12 \<and> not_integral scaled")
    case True
    with 1 show ?thesis by (cases n) (auto simp: placesLoop_step)
  next
    case False
    with "1.prems" show ?thesis by (simp add: placesLoop_stop)
  qed
qed

text \<open>
  C39. The number of decimals of a step is at most 12; when it is below 12 the step, multiplied
  that many times by ten in double arithmetic, is within the code's tolerance of an integer,
  and no smaller number of decimals is.
\<close>

theorem decimal_places_least:
  "decimalPlacesFromStep step \<le> 12 \<and>
   (if step \<le> 0 then decimalPlacesFromStep step = 0
    else (if decimalPlacesFromStep step < 12
          then \<not> not_integral (scaledBy (decimalPlacesFromStep step) step) else True) \<and>
         (\<nexists>n. n < decimalPlacesFromStep step \<and> \<not> not_integral (scaledBy n step)))"
proof (cases "step \<le> 0")
  case False
  have "placesLoop 0 step \<le> 12" using placesLoop_bounds [of 0 step] by simp
  moreover have "placesLoop 0 step < 12 \<Longrightarrow> \<not> not_integral (scaledBy (placesLoop 0 step) step)"
    using placesLoop_exit [of 0 step] by simp
  moreover have "\<nexists>n. n < placesLoop 0 step \<and> \<not> not_integral (scaledBy n step)"
    using placesLoop_least [of 0 _ step] by auto
  ultimately show ?thesis using False by (simp add: decimalPlacesFromStep_def)
qed (simp add: decimalPlacesFromStep_def)

end
