(* ===== verification/Event_Models.thy ===== *)
theory Event_Models
  imports Models_Account
begin

text \<open>
  The WebSocket events: \<^verbatim>\<open>bybit_event_models.h\<close> and
  \<^verbatim>\<open>bybit_event_models.cpp\<close>, in the manner of \<open>Models_Account\<close>.
\<close>

section \<open>Event\<close>

record 'j Event =
  ev_topic :: string
  ev_type :: ResponseType
  ev_ts :: int
  ev_data :: 'j

definition Event_init :: "'j jops \<Rightarrow> 'j Event" where
  "Event_init J = \<lparr>ev_topic = [], ev_type = snapshot, ev_ts = 0, ev_data = j_null J\<rparr>"

definition Event_fromJson :: "'j jops \<Rightarrow> 'j \<Rightarrow> 'j Event \<Rightarrow> 'j Event res" where
  "Event_fromJson J j = runSteps
     [rdV (readString J) j ''topic'' ev_topic ev_topic_update,
      rdV (readResponseType J) j ''type'' ev_type ev_type_update,
      (\<lambda>r. bindR (readInt64 J j ''ts'' (ev_ts r)) (\<lambda>(found, v).
         let r' = r\<lparr>ev_ts := v\<rparr> in
         if \<not> found then rdV (readInt64 J) j ''creationTime'' ev_ts ev_ts_update r' else Inr r')),
      (\<lambda>r. Inr (case j_find J j ''data'' of None \<Rightarrow> r | Some v \<Rightarrow> r\<lparr>ev_data := v\<rparr>))]"

section \<open>Tickers and candlesticks\<close>

record EventTicker =
  et_symbol :: string
  et_ask1Price :: double
  et_ask1Size :: double
  et_bid1Price :: double
  et_bid1Size :: double
  et_lastPrice :: double
  et_receivedTimestamp :: int

definition EventTicker_init :: EventTicker where
  "EventTicker_init = \<lparr>
    et_symbol = [],
    et_ask1Price = 0,
    et_ask1Size = 0,
    et_bid1Price = 0,
    et_bid1Size = 0,
    et_lastPrice = 0,
    et_receivedTimestamp = 0\<rparr>"

definition EventTicker_steps :: "'j jops \<Rightarrow> 'j \<Rightarrow> (EventTicker \<Rightarrow> EventTicker res) list" where
  "EventTicker_steps J j =
     [rdV (readString J) j ''symbol'' et_symbol et_symbol_update,
      rdR (readStringAsDouble J) j ''ask1Price'' et_ask1Price et_ask1Price_update,
      rdR (readStringAsDouble J) j ''ask1Size'' et_ask1Size et_ask1Size_update,
      rdR (readStringAsDouble J) j ''bid1Price'' et_bid1Price et_bid1Price_update,
      rdR (readStringAsDouble J) j ''bid1Size'' et_bid1Size et_bid1Size_update,
      rdR (readStringAsDouble J) j ''lastPrice'' et_lastPrice et_lastPrice_update]"

definition EventTicker_fromJson :: "'j jops \<Rightarrow> 'j \<Rightarrow> EventTicker \<Rightarrow> EventTicker res" where
  "EventTicker_fromJson J j = runSteps (EventTicker_steps J j)"

definition EventTicker_loadEventData :: "'j jops \<Rightarrow> 'j Event \<Rightarrow> EventTicker \<Rightarrow> EventTicker res" where
  "EventTicker_loadEventData J event r =
     (case ev_type event of
        snapshot \<Rightarrow> EventTicker_fromJson J (ev_data event) r
      | delta \<Rightarrow> EventTicker_fromJson J (ev_data event) r)"

record EventCandlestick =
  ec_start :: int
  ec_end :: int
  ec_interval :: string
  ec_open :: double
  ec_high :: double
  ec_low :: double
  ec_close :: double
  ec_volume :: double
  ec_turnover :: double
  ec_confirm :: bool
  ec_timestamp :: int

definition EventCandlestick_init :: EventCandlestick where
  "EventCandlestick_init = \<lparr>
    ec_start = 0,
    ec_end = 0,
    ec_interval = [],
    ec_open = 0,
    ec_high = 0,
    ec_low = 0,
    ec_close = 0,
    ec_volume = 0,
    ec_turnover = 0,
    ec_confirm = False,
    ec_timestamp = 0\<rparr>"

definition EventCandlestick_fromJson :: "'j jops \<Rightarrow> 'j \<Rightarrow> EventCandlestick \<Rightarrow> EventCandlestick res" where
  "EventCandlestick_fromJson J j = runSteps
     [rdV (readInt64 J) j ''start'' ec_start ec_start_update,
      rdV (readInt64 J) j ''end'' ec_end ec_end_update,
      rdV (readString J) j ''interval'' ec_interval ec_interval_update,
      rdR (readStringAsDouble J) j ''open'' ec_open ec_open_update,
      rdR (readStringAsDouble J) j ''high'' ec_high ec_high_update,
      rdR (readStringAsDouble J) j ''low'' ec_low ec_low_update,
      rdR (readStringAsDouble J) j ''close'' ec_close ec_close_update,
      rdR (readStringAsDouble J) j ''volume'' ec_volume ec_volume_update,
      rdR (readStringAsDouble J) j ''turnover'' ec_turnover ec_turnover_update,
      rdV (readBool J) j ''confirm'' ec_confirm ec_confirm_update,
      rdV (readInt64 J) j ''timestamp'' ec_timestamp ec_timestamp_update]"

section \<open>Private events\<close>

record EventOrderUpdate =
  eo_category :: string
  eo_symbol :: string
  eo_orderId :: string
  eo_orderLinkId :: string
  eo_side :: Side
  eo_orderType :: OrderType
  eo_orderStatus :: OrderStatus
  eo_rejectReason :: string
  eo_cancelType :: string
  eo_timeInForce :: TimeInForce
  eo_price :: double
  eo_qty :: double
  eo_avgPrice :: double
  eo_leavesQty :: double
  eo_cumExecQty :: double
  eo_cumExecValue :: double
  eo_reduceOnly :: bool
  eo_createdTime :: int
  eo_updatedTime :: int

definition EventOrderUpdate_init :: EventOrderUpdate where
  "EventOrderUpdate_init = \<lparr>
    eo_category = [],
    eo_symbol = [],
    eo_orderId = [],
    eo_orderLinkId = [],
    eo_side = SideNone,
    eo_orderType = Limit,
    eo_orderStatus = Created,
    eo_rejectReason = [],
    eo_cancelType = [],
    eo_timeInForce = GTC,
    eo_price = 0,
    eo_qty = 0,
    eo_avgPrice = 0,
    eo_leavesQty = 0,
    eo_cumExecQty = 0,
    eo_cumExecValue = 0,
    eo_reduceOnly = False,
    eo_createdTime = 0,
    eo_updatedTime = 0\<rparr>"

definition EventOrderUpdate_fromJson :: "'j jops \<Rightarrow> 'j \<Rightarrow> EventOrderUpdate \<Rightarrow> EventOrderUpdate res" where
  "EventOrderUpdate_fromJson J j = runSteps
     [rdV (readString J) j ''category'' eo_category eo_category_update,
      rdV (readString J) j ''symbol'' eo_symbol eo_symbol_update,
      rdV (readString J) j ''orderId'' eo_orderId eo_orderId_update,
      rdV (readString J) j ''orderLinkId'' eo_orderLinkId eo_orderLinkId_update,
      rdV (readSide J) j ''side'' eo_side eo_side_update,
      rdV (readOrderType J) j ''orderType'' eo_orderType eo_orderType_update,
      rdV (readOrderStatus J) j ''orderStatus'' eo_orderStatus eo_orderStatus_update,
      rdV (readString J) j ''rejectReason'' eo_rejectReason eo_rejectReason_update,
      rdV (readString J) j ''cancelType'' eo_cancelType eo_cancelType_update,
      rdV (readTimeInForce J) j ''timeInForce'' eo_timeInForce eo_timeInForce_update,
      rdR (readStringAsDouble J) j ''price'' eo_price eo_price_update,
      rdR (readStringAsDouble J) j ''qty'' eo_qty eo_qty_update,
      rdR (readStringAsDouble J) j ''avgPrice'' eo_avgPrice eo_avgPrice_update,
      rdR (readStringAsDouble J) j ''leavesQty'' eo_leavesQty eo_leavesQty_update,
      rdR (readStringAsDouble J) j ''cumExecQty'' eo_cumExecQty eo_cumExecQty_update,
      rdR (readStringAsDouble J) j ''cumExecValue'' eo_cumExecValue eo_cumExecValue_update,
      rdV (readBool J) j ''reduceOnly'' eo_reduceOnly eo_reduceOnly_update,
      rdR (readStringAsInt64 J) j ''createdTime'' eo_createdTime eo_createdTime_update,
      rdR (readStringAsInt64 J) j ''updatedTime'' eo_updatedTime eo_updatedTime_update]"

record EventExecution =
  ex_category :: string
  ex_symbol :: string
  ex_orderId :: string
  ex_orderLinkId :: string
  ex_execId :: string
  ex_side :: Side
  ex_execType :: ExecType
  ex_execPrice :: double
  ex_execQty :: double
  ex_execValue :: double
  ex_execFee :: double
  ex_feeRate :: double
  ex_leavesQty :: double
  ex_closedSize :: double
  ex_isMaker :: bool
  ex_execTime :: int
  ex_seq :: int

definition EventExecution_init :: EventExecution where
  "EventExecution_init = \<lparr>
    ex_category = [],
    ex_symbol = [],
    ex_orderId = [],
    ex_orderLinkId = [],
    ex_execId = [],
    ex_side = SideNone,
    ex_execType = ExecUNKNOWN,
    ex_execPrice = 0,
    ex_execQty = 0,
    ex_execValue = 0,
    ex_execFee = 0,
    ex_feeRate = 0,
    ex_leavesQty = 0,
    ex_closedSize = 0,
    ex_isMaker = False,
    ex_execTime = 0,
    ex_seq = 0\<rparr>"

definition EventExecution_fromJson :: "'j jops \<Rightarrow> 'j \<Rightarrow> EventExecution \<Rightarrow> EventExecution res" where
  "EventExecution_fromJson J j = runSteps
     [rdV (readString J) j ''category'' ex_category ex_category_update,
      rdV (readString J) j ''symbol'' ex_symbol ex_symbol_update,
      rdV (readString J) j ''orderId'' ex_orderId ex_orderId_update,
      rdV (readString J) j ''orderLinkId'' ex_orderLinkId ex_orderLinkId_update,
      rdV (readString J) j ''execId'' ex_execId ex_execId_update,
      rdV (readSide J) j ''side'' ex_side ex_side_update,
      rdV (readExecType J) j ''execType'' ex_execType ex_execType_update,
      rdR (readStringAsDouble J) j ''execPrice'' ex_execPrice ex_execPrice_update,
      rdR (readStringAsDouble J) j ''execQty'' ex_execQty ex_execQty_update,
      rdR (readStringAsDouble J) j ''execValue'' ex_execValue ex_execValue_update,
      rdR (readStringAsDouble J) j ''execFee'' ex_execFee ex_execFee_update,
      rdR (readStringAsDouble J) j ''feeRate'' ex_feeRate ex_feeRate_update,
      rdR (readStringAsDouble J) j ''leavesQty'' ex_leavesQty ex_leavesQty_update,
      rdR (readStringAsDouble J) j ''closedSize'' ex_closedSize ex_closedSize_update,
      rdV (readBool J) j ''isMaker'' ex_isMaker ex_isMaker_update,
      rdR (readStringAsInt64 J) j ''execTime'' ex_execTime ex_execTime_update,
      rdV (readInt64 J) j ''seq'' ex_seq ex_seq_update]"

text \<open>A ticker update does not touch the receipt time, which the stream manager stamps.\<close>

lemma EventTicker_fromJson_receivedTimestamp:
  "EventTicker_fromJson J j r = Inr r' \<Longrightarrow> et_receivedTimestamp r' = et_receivedTimestamp r"
  unfolding EventTicker_fromJson_def EventTicker_steps_def
  by (erule runSteps_keeps [rotated]) (auto simp: rdV_Inr rdR_Inr)

end
