(* ===== verification/Ws_Session.thy ===== *)
theory Ws_Session
  imports Event_Models Decimals "HOL-Library.AList"
begin

text \<open>
  One WebSocket connection that keeps itself alive: \<^verbatim>\<open>src/bybit_ws_session.cpp\<close> and
  \<^verbatim>\<open>bybit_ws_session.h\<close>. The record \<open>session\<close> holds the members of
  \<^verbatim>\<open>WebSocketSession::P\<close>, and every method is a function on it.

  Asynchrony: starting an asio operation, arming a timer or posting a handler on the strand adds
  an \<open>op\<close> to the pending list \<open>ops\<close>; \<open>dispatch\<close> is the completion handler
  that later runs with what the handler reads from outside, the record \<open>env\<close>: its error
  code and arguments, the clocks, \<^verbatim>\<open>ws->is_open()\<close>, and the results of OpenSSL. The
  strand runs one handler at a time, which is one step here, and so is a call of another thread;
  that a call may fall between two statements of a handler makes no difference to anyone, as
  \<open>Ws_Session_Threads\<close> shows.
  A handler reads the steady clock once. The object \<^verbatim>\<open>ws\<close> is the number of the
  generation whose stream it is. The map \<^verbatim>\<open>inflightSubscribes\<close> is an association
  list in the order of insertion.

  \<open>sent\<close>, \<open>logs\<close>, \<open>delivered\<close> and \<open>escaped\<close> record what the session did to the
  outside: the frames it gave to \<^verbatim>\<open>async_write\<close>, the log lines, the events handed to
  the data callback, and the exceptions that left a handler (the client's io loop logs them).
\<close>

section \<open>Constants, pending operations, the environment\<close>

definition PING_INTERVAL_IN_S :: int where "PING_INTERVAL_IN_S = 20"
definition PONG_TIMEOUT_IN_S :: int where "PONG_TIMEOUT_IN_S = 3 * PING_INTERVAL_IN_S"
definition RECONNECT_DELAY_MAX_IN_S :: int where "RECONNECT_DELAY_MAX_IN_S = 30"
definition AUTH_EXPIRES_OFFSET_IN_MS :: int where "AUTH_EXPIRES_OFFSET_IN_MS = 5000"
definition AUTH_ACK_TIMEOUT_IN_S :: int where "AUTH_ACK_TIMEOUT_IN_S = 15"

datatype LogSeverity = Info | Warning | Error

datatype op =
    Resolve nat
  | TcpConnect nat
  | TlsHandshake nat
  | WsHandshake nat
  | Read nat
  | Write nat
  | PingWait nat
  | ReconnectWait nat
  | AsyncClose
  | PostStart
  | PostFlush
  | PostUnsubscribe string
  | PostClose

record env =
  ec :: "string option"  \<comment> \<open>the error code's message, \<open>None\<close> for success\<close>
  message :: string  \<comment> \<open>the text a read put into the buffer\<close>
  ep_port :: nat  \<comment> \<open>the port of the endpoint connected to\<close>
  sni_error :: "string option"  \<comment> \<open>\<^verbatim>\<open>SSL_set_tlsext_host_name\<close> failed\<close>
  is_open :: bool  \<comment> \<open>\<^verbatim>\<open>ws->is_open()\<close>\<close>
  steady :: int  \<comment> \<open>\<^verbatim>\<open>steady_clock::now()\<close>, nanoseconds\<close>
  ms_clock :: int  \<comment> \<open>\<^verbatim>\<open>getMsTimestamp(currentTime())\<close>\<close>
  hmac_sha256_hex :: "string \<Rightarrow> string \<Rightarrow> string"  \<comment> \<open>\<^verbatim>\<open>HMAC\<close> (key, data), then \<^verbatim>\<open>stringToHex\<close>\<close>
  fileline :: "nat \<Rightarrow> string"  \<comment> \<open>\<^verbatim>\<open>MAKE_FILELINE\<close> at a line\<close>

definition seconds :: "int \<Rightarrow> int" where
  "seconds n = n * 1000000000"

section \<open>The session\<close>

record 'j session =
  host :: string
  port :: string
  path :: string
  hostHeader :: string
  apiKey :: string
  apiSecret :: string
  authRequired :: bool
  logMessageCB :: bool  \<comment> \<open>a logger is set\<close>
  dataEventCB :: "('j Event \<Rightarrow> exn option) option"  \<comment> \<open>what the callback throws, if it is set\<close>
  outboundQueue :: "string list"
  writeInFlight :: bool
  writeBuffer :: string
  subscriptions :: "string list"
  pendingTopics :: "string list"
  inflightSubscribes :: "(string \<times> string list) list"
  reqIdCounter :: nat
  reconnectDelayS :: int
  generation :: nat
  connected :: bool
  authenticated :: bool
  authenticatedFlag :: bool
  reconnectScheduled :: bool
  userClosed :: bool
  lastPongTime :: int
  authDeadline :: "int option"  \<comment> \<open>\<open>None\<close> is \<^verbatim>\<open>time_point::max()\<close>\<close>
  ws :: "nat option"
  ops :: "op list"
  sent :: "(nat \<times> string) list"
  logs :: "(LogSeverity \<times> string) list"
  delivered :: "'j Event list"
  escaped :: "exn list"

definition fresh_session :: "bool \<Rightarrow> 'j session" where
  "fresh_session logger = \<lparr>
    host = [], port = [], path = ''/v5/public/linear'', hostHeader = [],
    apiKey = [], apiSecret = [], authRequired = False,
    logMessageCB = logger, dataEventCB = None,
    outboundQueue = [], writeInFlight = False, writeBuffer = [],
    subscriptions = [], pendingTopics = [], inflightSubscribes = [], reqIdCounter = 0,
    reconnectDelayS = 1, generation = 0, connected = False, authenticated = False,
    authenticatedFlag = False, reconnectScheduled = False, userClosed = False,
    lastPongTime = 0, authDeadline = None, ws = None,
    ops = [], sent = [], logs = [], delivered = [], escaped = []\<rparr>"

definition log_line :: "LogSeverity \<Rightarrow> string \<Rightarrow> 'j session \<Rightarrow> 'j session" where
  "log_line severity msg s = (if logMessageCB s then s\<lparr>logs := logs s @ [(severity, msg)]\<rparr> else s)"

definition start_op :: "op \<Rightarrow> 'j session \<Rightarrow> 'j session" where
  "start_op x s = s\<lparr>ops := ops s @ [x]\<rparr>"

section \<open>Outbound write pump\<close>

definition enqueueOp :: "string \<Rightarrow> 'j session \<Rightarrow> 'j session" where
  "enqueueOp payload s = s\<lparr>outboundQueue := outboundQueue s @ [payload]\<rparr>"

definition pump :: "env \<Rightarrow> 'j session \<Rightarrow> 'j session" where
  "pump e s =
     (if writeInFlight s \<or> \<not> connected s \<or> ws s = None \<or> \<not> is_open e then s
      else case outboundQueue s of
        [] \<Rightarrow> s
      | frame # rest \<Rightarrow>
          start_op (Write (generation s))
            (s\<lparr>writeBuffer := frame, outboundQueue := rest, writeInFlight := True,
               sent := sent s @ [(generation s, frame)]\<rparr>))"

section \<open>Topic bookkeeping\<close>

definition addTopic :: "string \<Rightarrow> 'j session \<Rightarrow> 'j session" where
  "addTopic topic s =
     (if topic \<in> set (subscriptions s) then s
      else if topic \<in> set (pendingTopics s) then s
      else s\<lparr>pendingTopics := pendingTopics s @ [topic]\<rparr>)"

definition removeTopic :: "string \<Rightarrow> 'j session \<Rightarrow> bool \<times> 'j session" where
  "removeTopic topic s =
     (let s = s\<lparr>pendingTopics := removeAll topic (pendingTopics s)\<rparr> in
      if topic \<in> set (subscriptions s)
      then (True, s\<lparr>subscriptions := remove1 topic (subscriptions s)\<rparr>)
      else (False, s))"

definition isSubscribed :: "string \<Rightarrow> 'j session \<Rightarrow> bool" where
  "isSubscribed topic s = (topic \<in> set (subscriptions s) \<or> topic \<in> set (pendingTopics s))"

definition isSubscriptionConfirmed :: "string \<Rightarrow> 'j session \<Rightarrow> bool" where
  "isSubscriptionConfirmed topic s =
     (topic \<in> set (subscriptions s) \<and> list_all (\<lambda>(_, topics). topic \<notin> set topics) (inflightSubscribes s))"

definition isAuthenticated :: "'j session \<Rightarrow> bool" where
  "isAuthenticated s = authenticatedFlag s"

definition subscribe_frame :: "'j jops \<Rightarrow> string list \<Rightarrow> string \<Rightarrow> string" where
  "subscribe_frame J args reqId = j_dump J (setAll J
     [(''op'', j_str J ''subscribe''),
      (''args'', j_arr J (map (j_str J) args)),
      (''req_id'', j_str J reqId)])"

definition flushTopics :: "'j jops \<Rightarrow> env \<Rightarrow> 'j session \<Rightarrow> 'j session" where
  "flushTopics J e s =
     (if \<not> connected s \<or> (authRequired s \<and> \<not> authenticated s) then s
      else if pendingTopics s = [] then s
      else
        let args = pendingTopics s;
            reqId = nat_to_string (Suc (reqIdCounter s)) in
        pump e (enqueueOp (subscribe_frame J args reqId)
          (s\<lparr>subscriptions := subscriptions s @ args, pendingTopics := [],
             reqIdCounter := Suc (reqIdCounter s),
             inflightSubscribes := AList.update reqId args (inflightSubscribes s)\<rparr>)))"

section \<open>Auth\<close>

definition auth_frame :: "'j jops \<Rightarrow> string \<Rightarrow> int \<Rightarrow> string \<Rightarrow> string" where
  "auth_frame J key expires signature = j_dump J (setAll J
     [(''op'', j_str J ''auth''),
      (''args'', j_arr J [j_str J key, j_int J expires, j_str J signature])])"

definition sendAuth :: "'j jops \<Rightarrow> env \<Rightarrow> 'j session \<Rightarrow> 'j session" where
  "sendAuth J e s =
     (let expires = ms_clock e + AUTH_EXPIRES_OFFSET_IN_MS;
          payload = ''GET/realtime'' @ int_to_string expires;
          signature = hmac_sha256_hex e (apiSecret s) payload in
      pump e (enqueueOp (auth_frame J (apiKey s) expires signature)
        (s\<lparr>authDeadline := Some (steady e + seconds AUTH_ACK_TIMEOUT_IN_S)\<rparr>)))"

section \<open>Errors and reconnecting\<close>

definition handleError :: "env \<Rightarrow> nat \<Rightarrow> string \<Rightarrow> 'j session \<Rightarrow> 'j session" where
  "handleError e gen msg s =
     (if gen \<noteq> generation s \<or> reconnectScheduled s then s
      else
        let s = log_line Error msg s in
        if userClosed s then s
        else
          let s = s\<lparr>reconnectScheduled := True, connected := False, authenticated := False,
                    authenticatedFlag := False, writeInFlight := False, authDeadline := None,
                    outboundQueue := [], inflightSubscribes := [],
                    pendingTopics := subscriptions s @ pendingTopics s, subscriptions := []\<rparr>;
              s = log_line Warning
                    (''Bybit WS reconnecting in '' @ int_to_string (reconnectDelayS s) @ '' s'') s;
              s = s\<lparr>reconnectDelayS := min (reconnectDelayS s * 2) RECONNECT_DELAY_MAX_IN_S\<rparr> in
          start_op (ReconnectWait gen) s)"

text \<open>\<^verbatim>\<open>fmt::format("{}: {}", MAKE_FILELINE, m)\<close>\<close>

definition at_line :: "env \<Rightarrow> nat \<Rightarrow> string \<Rightarrow> string" where
  "at_line e n m = fileline e n @ '': '' @ m"

section \<open>The connect chain\<close>

definition startConnect :: "'j session \<Rightarrow> 'j session" where
  "startConnect s =
     (if userClosed s then s
      else
        let gen = Suc (generation s) in
        start_op (Resolve gen)
          (s\<lparr>generation := gen, connected := False, authenticated := False,
             authenticatedFlag := False, writeInFlight := False, authDeadline := None,
             hostHeader := host s, ws := Some gen\<rparr>))"

definition onReconnectTimer :: "env \<Rightarrow> nat \<Rightarrow> 'j session \<Rightarrow> 'j session" where
  "onReconnectTimer e gen s =
     (if gen \<noteq> generation s then s
      else
        let s = s\<lparr>reconnectScheduled := False\<rparr> in
        if ec e \<noteq> None \<or> userClosed s then s else startConnect s)"

definition onResolve :: "env \<Rightarrow> nat \<Rightarrow> 'j session \<Rightarrow> 'j session" where
  "onResolve e gen s =
     (case ec e of
        Some m \<Rightarrow> handleError e gen (at_line e 307 m) s
      | None \<Rightarrow> start_op (TcpConnect gen) s)"

definition onConnect :: "env \<Rightarrow> nat \<Rightarrow> 'j session \<Rightarrow> 'j session" where
  "onConnect e gen s =
     (case ec e of
        Some m \<Rightarrow> handleError e gen (at_line e 327 m) s
      | None \<Rightarrow>
          (case sni_error e of
             Some m \<Rightarrow> handleError e gen (at_line e 334 m) s
           | None \<Rightarrow> start_op (TlsHandshake gen)
               (s\<lparr>hostHeader := host s @ '':'' @ nat_to_string (ep_port e)\<rparr>)))"

definition onSSLHandshake :: "env \<Rightarrow> nat \<Rightarrow> 'j session \<Rightarrow> 'j session" where
  "onSSLHandshake e gen s =
     (case ec e of
        Some m \<Rightarrow> handleError e gen (at_line e 352 m) s
      | None \<Rightarrow> start_op (WsHandshake gen) s)"

text \<open>The control callback installed by \<^verbatim>\<open>onSSLHandshake\<close>, on a pong frame.\<close>

definition onPongFrame :: "env \<Rightarrow> 'j session \<Rightarrow> 'j session" where
  "onPongFrame e s = s\<lparr>lastPongTime := steady e\<rparr>"

definition onHandshake :: "'j jops \<Rightarrow> env \<Rightarrow> nat \<Rightarrow> 'j session \<Rightarrow> 'j session" where
  "onHandshake J e gen s =
     (case ec e of
        Some m \<Rightarrow> handleError e gen (at_line e 383 m) s
      | None \<Rightarrow>
          if userClosed s then s
          else
            let s = s\<lparr>connected := True, lastPongTime := steady e\<rparr>;
                s = start_op (PingWait gen) s;
                s = (if authRequired s then sendAuth J e s else flushTopics J e s) in
            start_op (Read gen) s)"

section \<open>Inbound\<close>

definition isApiControlMsg :: "'j jops \<Rightarrow> 'j \<Rightarrow> bool" where
  "isApiControlMsg J json =
     ((j_contains J json ''success'' \<or> j_contains J json ''op'') \<and> \<not> j_contains J json ''topic'')"

text \<open>
  \<^verbatim>\<open>std::ranges::min_element\<close> over the keys read by \<^verbatim>\<open>std::stoull\<close>, which may throw.
\<close>

fun oldest_op :: "string \<Rightarrow> string list \<Rightarrow> string res" where
  "oldest_op k [] = Inr k"
| "oldest_op k (k' # ks) =
     bindR (stoull k') (\<lambda>n'. bindR (stoull k) (\<lambda>n. oldest_op (if n' < n then k' else k) ks))"

text \<open>The op a subscribe ack answers, \<open>None\<close> for \<^verbatim>\<open>end()\<close>.\<close>

definition answered_op :: "string \<Rightarrow> (string \<times> string list) list \<Rightarrow> string option res" where
  "answered_op reqId inflight =
     (if reqId \<in> fst ` set inflight then Inr (Some reqId)
      else if reqId = [] then
        (case map fst inflight of
           [] \<Rightarrow> Inr None
         | k # ks \<Rightarrow> bindR (oldest_op k ks) (\<lambda>k. Inr (Some k)))
      else Inr None)"

fun join_comma :: "string list \<Rightarrow> string" where
  "join_comma [] = []"
| "join_comma [x] = x"
| "join_comma (x # y # ys) = x @ '', '' @ join_comma (y # ys)"

text \<open>\<^verbatim>\<open>for (topic : topics) erase its first occurrence from subscriptions\<close>\<close>

definition prune :: "string list \<Rightarrow> string list \<Rightarrow> string list" where
  "prune topics subs = foldl (\<lambda>subs topic. remove1 topic subs) subs topics"

definition handleSubscribeAck ::
  "bool \<Rightarrow> string \<Rightarrow> string \<Rightarrow> 'j session \<Rightarrow> 'j session res" where
  "handleSubscribeAck success ret_msg reqId s =
     bindR (answered_op reqId (inflightSubscribes s)) (\<lambda>it.
       case it of
         None \<Rightarrow> Inr (if success then s
           else log_line Error (''Bybit subscribe failed (no op in flight to attribute it to): '' @ ret_msg) s)
       | Some key \<Rightarrow>
           let topics = the (map_of (inflightSubscribes s) key);
               s = (if success then s
                    else log_line Error (''Bybit subscribe failed ('' @ join_comma topics @ ''): '' @ ret_msg)
                           (s\<lparr>subscriptions := prune topics (subscriptions s)\<rparr>)) in
           Inr (s\<lparr>inflightSubscribes := AList.delete key (inflightSubscribes s)\<rparr>))"

definition handleApiControlMsg ::
  "'j jops \<Rightarrow> env \<Rightarrow> nat \<Rightarrow> 'j \<Rightarrow> 'j session \<Rightarrow> 'j session res" where
  "handleApiControlMsg J e gen json s =
     bindR (readString J json ''op'' []) (\<lambda>(_, operation).
     bindR (readBool J json ''success'' True) (\<lambda>(_, success).
     bindR (readString J json ''ret_msg'' []) (\<lambda>(_, ret_msg).
       if operation = ''pong'' \<or> ret_msg = ''pong'' then Inr (s\<lparr>lastPongTime := steady e\<rparr>)
       else if operation = ''auth'' then
         if success then
           Inr (flushTopics J e (log_line Info ''Bybit WS authenticated''
             (s\<lparr>authenticated := True, authenticatedFlag := True, authDeadline := None,
                reconnectDelayS := 1\<rparr>)))
         else Inr (handleError e gen (''Bybit WS auth failed: '' @ ret_msg) s)
       else if operation = ''subscribe'' then
         bindR (readString J json ''req_id'' []) (\<lambda>(_, reqId). handleSubscribeAck success ret_msg reqId s)
       else if \<not> success then
         Inr (log_line Error
           (''Bybit API Error, operation: '' @ operation @ '', message: '' @ ret_msg) s)
       else Inr s)))"

definition deliver :: "'j jops \<Rightarrow> env \<Rightarrow> 'j \<Rightarrow> 'j session \<Rightarrow> 'j session" where
  "deliver J e json s =
     (case Event_fromJson J json (Event_init J) of
        Inl x \<Rightarrow> log_line Error (at_line e 451 (what x)) s
      | Inr event \<Rightarrow>
          (case dataEventCB s of
             None \<Rightarrow> s
           | Some cb \<Rightarrow>
               let s = s\<lparr>delivered := delivered s @ [event]\<rparr> in
               (case cb event of
                  None \<Rightarrow> s
                | Some x \<Rightarrow> log_line Error (at_line e 451 (what x)) s)))"

text \<open>The end of \<^verbatim>\<open>onRead\<close>: reset the backoff, read on.\<close>

definition rearmRead :: "nat \<Rightarrow> 'j session \<Rightarrow> 'j session" where
  "rearmRead gen s =
     (if gen \<noteq> generation s \<or> reconnectScheduled s \<or> \<not> connected s then s
      else
        let s = (if \<not> authRequired s \<or> authenticated s then s\<lparr>reconnectDelayS := 1\<rparr> else s) in
        start_op (Read gen) s)"

definition processMessage :: "'j jops \<Rightarrow> env \<Rightarrow> nat \<Rightarrow> 'j session \<Rightarrow> 'j session res" where
  "processMessage J e gen s =
     bindR (j_parse J (message e)) (\<lambda>json.
       if j_is_object J json then
         if isApiControlMsg J json then handleApiControlMsg J e gen json s
         else Inr (deliver J e json s)
       else Inr s)"

definition onRead :: "'j jops \<Rightarrow> env \<Rightarrow> nat \<Rightarrow> 'j session \<Rightarrow> 'j session" where
  "onRead J e gen s =
     (case ec e of
        Some m \<Rightarrow> handleError e gen (at_line e 425 m) s
      | None \<Rightarrow>
          (case processMessage J e gen s of
             Inr s' \<Rightarrow> rearmRead gen s'
           | Inl (JsonException m) \<Rightarrow> handleError e gen (at_line e 479 m) s
           | Inl x \<Rightarrow> s\<lparr>escaped := escaped s @ [x]\<rparr>))"

definition onWrite :: "env \<Rightarrow> nat \<Rightarrow> 'j session \<Rightarrow> 'j session" where
  "onWrite e gen s =
     (let s = s\<lparr>writeInFlight := False\<rparr> in
      case ec e of
        Some m \<Rightarrow> handleError e gen (fileline e 157 @ '': write: '' @ m) s
      | None \<Rightarrow> pump e s)"

section \<open>Heartbeat\<close>

definition ping_frame :: "'j jops \<Rightarrow> string" where
  "ping_frame J = j_dump J (j_obj J [(''op'', j_str J ''ping'')])"

definition onPingTimer :: "'j jops \<Rightarrow> env \<Rightarrow> nat \<Rightarrow> 'j session \<Rightarrow> 'j session" where
  "onPingTimer J e gen s =
     (if ec e \<noteq> None \<or> gen \<noteq> generation s then s
      else if userClosed s then s
      else if connected s then
        let sincePong = (steady e - lastPongTime s) div seconds 1 in
        if sincePong > PONG_TIMEOUT_IN_S then
          handleError e gen (at_line e 591 (''no pong for '' @ int_to_string sincePong @ '' s'')) s
        else if authRequired s \<and> \<not> authenticated s \<and>
                (case authDeadline s of None \<Rightarrow> False | Some d \<Rightarrow> steady e > d) then
          handleError e gen (at_line e 595 ''auth ack timeout'') s
        else start_op (PingWait gen) (pump e (enqueueOp (ping_frame J) s))
      else start_op (PingWait gen) s)"

section \<open>Closing\<close>

definition closeByUser :: "env \<Rightarrow> 'j session \<Rightarrow> 'j session" where
  "closeByUser e s =
     (if userClosed s then s
      else
        let s = s\<lparr>userClosed := True\<rparr> in
        if ws s = None then s
        else if is_open e \<and> \<not> writeInFlight s then start_op AsyncClose s
        else s)"

definition onAsyncClose :: "env \<Rightarrow> 'j session \<Rightarrow> 'j session" where
  "onAsyncClose e s =
     (case ec e of None \<Rightarrow> s | Some m \<Rightarrow> log_line Error (at_line e 692 m) s)"

section \<open>The interface\<close>

definition setCredentials :: "string \<Rightarrow> string \<Rightarrow> 'j session \<Rightarrow> 'j session" where
  "setCredentials key secret s =
     s\<lparr>apiKey := key, apiSecret := secret, authRequired := (key \<noteq> [] \<and> secret \<noteq> [])\<rparr>"

definition subscribe :: "string \<Rightarrow> 'j session \<Rightarrow> 'j session" where
  "subscribe topic s = start_op PostFlush (addTopic topic s)"

definition unsubscribe_frame :: "'j jops \<Rightarrow> string \<Rightarrow> string" where
  "unsubscribe_frame J topic = j_dump J (setAll J
     [(''op'', j_str J ''unsubscribe''), (''args'', j_arr J [j_str J topic])])"

definition unsubscribe :: "string \<Rightarrow> 'j session \<Rightarrow> 'j session" where
  "unsubscribe topic s =
     (case removeTopic topic s of
        (was_sent, s') \<Rightarrow> if \<not> was_sent then s' else start_op (PostUnsubscribe topic) s')"

definition postedUnsubscribe :: "'j jops \<Rightarrow> env \<Rightarrow> string \<Rightarrow> 'j session \<Rightarrow> 'j session" where
  "postedUnsubscribe J e topic s =
     (if \<not> connected s then s else pump e (enqueueOp (unsubscribe_frame J topic) s))"

definition run ::
  "string \<Rightarrow> string \<Rightarrow> string \<Rightarrow> string \<Rightarrow> ('j Event \<Rightarrow> exn option) option \<Rightarrow> 'j session \<Rightarrow> 'j session res" where
  "run h p pth topic cb s =
     (if topic = [] then Inl (RuntimeError ''SubscriptionFilter cannot be empty'')
      else Inr (start_op PostStart
        (addTopic topic (s\<lparr>host := h, port := p, path := pth, dataEventCB := cb\<rparr>))))"

definition close :: "'j session \<Rightarrow> 'j session" where
  "close s = start_op PostClose s"

section \<open>Completion handlers\<close>

text \<open>
  What runs when a pending operation completes: the lambda handed to it, its generation check
  included (\<^verbatim>\<open>onPingTimer\<close> and the reconnect timer check theirs themselves).
\<close>

definition guarded :: "nat \<Rightarrow> ('j session \<Rightarrow> 'j session) \<Rightarrow> 'j session \<Rightarrow> 'j session" where
  "guarded gen f s = (if gen \<noteq> generation s then s else f s)"

fun dispatch :: "'j jops \<Rightarrow> env \<Rightarrow> op \<Rightarrow> 'j session \<Rightarrow> 'j session" where
  "dispatch J e (Resolve g) s = guarded g (onResolve e g) s"
| "dispatch J e (TcpConnect g) s = guarded g (onConnect e g) s"
| "dispatch J e (TlsHandshake g) s = guarded g (onSSLHandshake e g) s"
| "dispatch J e (WsHandshake g) s = guarded g (onHandshake J e g) s"
| "dispatch J e (Read g) s = guarded g (onRead J e g) s"
| "dispatch J e (Write g) s = guarded g (onWrite e g) s"
| "dispatch J e (PingWait g) s = onPingTimer J e g s"
| "dispatch J e (ReconnectWait g) s = onReconnectTimer e g s"
| "dispatch J e AsyncClose s = onAsyncClose e s"
| "dispatch J e PostStart s = startConnect s"
| "dispatch J e PostFlush s = flushTopics J e s"
| "dispatch J e (PostUnsubscribe t) s = postedUnsubscribe J e t s"
| "dispatch J e PostClose s = closeByUser e s"

end
