(* ===== verification/Ws_Session_Inv.thy ===== *)
theory Ws_Session_Inv
  imports Ws_Session
begin

text \<open>
  The session as a state machine: its steps, its reachable states, and the invariants every
  reachable state satisfies. The lemmas go up from the building blocks (logging, the write pump,
  starting an operation) through \<^verbatim>\<open>handleError\<close> and \<^verbatim>\<open>startConnect\<close> to one
  lemma per completion handler.
\<close>

section \<open>Steps\<close>

text \<open>
  A timer's wait fails only when the timer is cancelled or re-armed. The ping timer is cancelled by
  \<^verbatim>\<open>handleError\<close>, which disconnects, by a new connection and by
  \<^verbatim>\<open>closeByUser\<close>; the reconnect timer by \<^verbatim>\<open>closeByUser\<close>.
\<close>

fun timer_ok :: "op \<Rightarrow> env \<Rightarrow> 'j session \<Rightarrow> bool" where
  "timer_ok (PingWait g) e s = (ec e = None \<or> userClosed s \<or> \<not> connected s \<or> g \<noteq> generation s)"
| "timer_ok (ReconnectWait g) e s = (ec e = None \<or> userClosed s \<or> g \<noteq> generation s)"
| "timer_ok _ e s = True"

definition complete :: "'j jops \<Rightarrow> env \<Rightarrow> op \<Rightarrow> 'j session \<Rightarrow> 'j session" where
  "complete J e x s = dispatch J e x (s\<lparr>ops := remove1 x (ops s)\<rparr>)"

inductive wstep :: "'j jops \<Rightarrow> 'j session \<Rightarrow> 'j session \<Rightarrow> bool" for J where
  completion: "x \<in> set (ops s) \<Longrightarrow> timer_ok x e s \<Longrightarrow> wstep J s (complete J e x s)"
| pong_frame: "wstep J s (onPongFrame e s)"
| call_subscribe: "wstep J s (subscribe t s)"
| call_unsubscribe: "wstep J s (unsubscribe t s)"
| call_close: "wstep J s (close s)"

text \<open>
  A session starts as the client makes it: constructed, given credentials or not, and run.
\<close>

definition made :: "bool \<Rightarrow> (string \<times> string) option \<Rightarrow> 'j session" where
  "made logger cred =
     (case cred of None \<Rightarrow> fresh_session logger
      | Some (key, secret) \<Rightarrow> setCredentials key secret (fresh_session logger))"

inductive reachable :: "'j jops \<Rightarrow> 'j session \<Rightarrow> bool" for J where
  started: "run h p pth t cb (made logger cred) = Inr s \<Longrightarrow> reachable J s"
| step: "reachable J s \<Longrightarrow> wstep J s s' \<Longrightarrow> reachable J s'"

section \<open>What the building blocks change\<close>

lemma log_line_frame [simp]:
  "host (log_line v m s) = host s"
  "port (log_line v m s) = port s"
  "path (log_line v m s) = path s"
  "hostHeader (log_line v m s) = hostHeader s"
  "apiKey (log_line v m s) = apiKey s"
  "apiSecret (log_line v m s) = apiSecret s"
  "authRequired (log_line v m s) = authRequired s"
  "logMessageCB (log_line v m s) = logMessageCB s"
  "dataEventCB (log_line v m s) = dataEventCB s"
  "outboundQueue (log_line v m s) = outboundQueue s"
  "writeInFlight (log_line v m s) = writeInFlight s"
  "writeBuffer (log_line v m s) = writeBuffer s"
  "subscriptions (log_line v m s) = subscriptions s"
  "pendingTopics (log_line v m s) = pendingTopics s"
  "inflightSubscribes (log_line v m s) = inflightSubscribes s"
  "reqIdCounter (log_line v m s) = reqIdCounter s"
  "reconnectDelayS (log_line v m s) = reconnectDelayS s"
  "generation (log_line v m s) = generation s"
  "connected (log_line v m s) = connected s"
  "authenticated (log_line v m s) = authenticated s"
  "authenticatedFlag (log_line v m s) = authenticatedFlag s"
  "reconnectScheduled (log_line v m s) = reconnectScheduled s"
  "userClosed (log_line v m s) = userClosed s"
  "lastPongTime (log_line v m s) = lastPongTime s"
  "authDeadline (log_line v m s) = authDeadline s"
  "ws (log_line v m s) = ws s"
  "ops (log_line v m s) = ops s"
  "sent (log_line v m s) = sent s"
  "delivered (log_line v m s) = delivered s"
  "escaped (log_line v m s) = escaped s"
  by (simp_all add: log_line_def)

lemma start_op_frame [simp]:
  "host (start_op x s) = host s"
  "port (start_op x s) = port s"
  "path (start_op x s) = path s"
  "hostHeader (start_op x s) = hostHeader s"
  "apiKey (start_op x s) = apiKey s"
  "apiSecret (start_op x s) = apiSecret s"
  "authRequired (start_op x s) = authRequired s"
  "logMessageCB (start_op x s) = logMessageCB s"
  "dataEventCB (start_op x s) = dataEventCB s"
  "outboundQueue (start_op x s) = outboundQueue s"
  "writeInFlight (start_op x s) = writeInFlight s"
  "writeBuffer (start_op x s) = writeBuffer s"
  "subscriptions (start_op x s) = subscriptions s"
  "pendingTopics (start_op x s) = pendingTopics s"
  "inflightSubscribes (start_op x s) = inflightSubscribes s"
  "reqIdCounter (start_op x s) = reqIdCounter s"
  "reconnectDelayS (start_op x s) = reconnectDelayS s"
  "generation (start_op x s) = generation s"
  "connected (start_op x s) = connected s"
  "authenticated (start_op x s) = authenticated s"
  "authenticatedFlag (start_op x s) = authenticatedFlag s"
  "reconnectScheduled (start_op x s) = reconnectScheduled s"
  "userClosed (start_op x s) = userClosed s"
  "lastPongTime (start_op x s) = lastPongTime s"
  "authDeadline (start_op x s) = authDeadline s"
  "ws (start_op x s) = ws s"
  "sent (start_op x s) = sent s"
  "logs (start_op x s) = logs s"
  "delivered (start_op x s) = delivered s"
  "escaped (start_op x s) = escaped s"
  by (simp_all add: start_op_def)

lemma enqueueOp_frame [simp]:
  "host (enqueueOp p s) = host s"
  "port (enqueueOp p s) = port s"
  "path (enqueueOp p s) = path s"
  "hostHeader (enqueueOp p s) = hostHeader s"
  "apiKey (enqueueOp p s) = apiKey s"
  "apiSecret (enqueueOp p s) = apiSecret s"
  "authRequired (enqueueOp p s) = authRequired s"
  "logMessageCB (enqueueOp p s) = logMessageCB s"
  "dataEventCB (enqueueOp p s) = dataEventCB s"
  "writeInFlight (enqueueOp p s) = writeInFlight s"
  "writeBuffer (enqueueOp p s) = writeBuffer s"
  "subscriptions (enqueueOp p s) = subscriptions s"
  "pendingTopics (enqueueOp p s) = pendingTopics s"
  "inflightSubscribes (enqueueOp p s) = inflightSubscribes s"
  "reqIdCounter (enqueueOp p s) = reqIdCounter s"
  "reconnectDelayS (enqueueOp p s) = reconnectDelayS s"
  "generation (enqueueOp p s) = generation s"
  "connected (enqueueOp p s) = connected s"
  "authenticated (enqueueOp p s) = authenticated s"
  "authenticatedFlag (enqueueOp p s) = authenticatedFlag s"
  "reconnectScheduled (enqueueOp p s) = reconnectScheduled s"
  "userClosed (enqueueOp p s) = userClosed s"
  "lastPongTime (enqueueOp p s) = lastPongTime s"
  "authDeadline (enqueueOp p s) = authDeadline s"
  "ws (enqueueOp p s) = ws s"
  "ops (enqueueOp p s) = ops s"
  "sent (enqueueOp p s) = sent s"
  "logs (enqueueOp p s) = logs s"
  "delivered (enqueueOp p s) = delivered s"
  "escaped (enqueueOp p s) = escaped s"
  by (simp_all add: enqueueOp_def)

lemma pump_frame [simp]:
  "host (pump e s) = host s"
  "port (pump e s) = port s"
  "path (pump e s) = path s"
  "hostHeader (pump e s) = hostHeader s"
  "apiKey (pump e s) = apiKey s"
  "apiSecret (pump e s) = apiSecret s"
  "authRequired (pump e s) = authRequired s"
  "logMessageCB (pump e s) = logMessageCB s"
  "dataEventCB (pump e s) = dataEventCB s"
  "subscriptions (pump e s) = subscriptions s"
  "pendingTopics (pump e s) = pendingTopics s"
  "inflightSubscribes (pump e s) = inflightSubscribes s"
  "reqIdCounter (pump e s) = reqIdCounter s"
  "reconnectDelayS (pump e s) = reconnectDelayS s"
  "generation (pump e s) = generation s"
  "connected (pump e s) = connected s"
  "authenticated (pump e s) = authenticated s"
  "authenticatedFlag (pump e s) = authenticatedFlag s"
  "reconnectScheduled (pump e s) = reconnectScheduled s"
  "userClosed (pump e s) = userClosed s"
  "lastPongTime (pump e s) = lastPongTime s"
  "authDeadline (pump e s) = authDeadline s"
  "ws (pump e s) = ws s"
  "logs (pump e s) = logs s"
  "delivered (pump e s) = delivered s"
  "escaped (pump e s) = escaped s"
  by (simp_all add: pump_def split: list.split)

definition writes :: "env \<Rightarrow> 'j session \<Rightarrow> bool" where
  "writes e s = (\<not> writeInFlight s \<and> connected s \<and> ws s \<noteq> None \<and> is_open e \<and> outboundQueue s \<noteq> [])"

lemma pump_changes [simp]:
  "ops (pump e s) = (if writes e s then ops s @ [Write (generation s)] else ops s)"
  "writeInFlight (pump e s) = (writeInFlight s \<or> writes e s)"
  "outboundQueue (pump e s) = (if writes e s then tl (outboundQueue s) else outboundQueue s)"
  "sent (pump e s) =
     (if writes e s then sent s @ [(generation s, hd (outboundQueue s))] else sent s)"
  by (auto simp: pump_def writes_def start_op_def split: list.splits)

lemma start_op_ops [simp]: "ops (start_op x s) = ops s @ [x]"
  by (simp add: start_op_def)

lemma enqueueOp_queue [simp]: "outboundQueue (enqueueOp p s) = outboundQueue s @ [p]"
  by (simp add: enqueueOp_def)

lemma count_remove1: "count_list (remove1 x xs) y = count_list xs y - (if x = y then 1 else 0)"
proof (induction xs)
  case (Cons z zs)
  show ?case
  proof (cases "x = z")
    case False
    then show ?thesis using Cons by (cases "x = y") (auto simp: count_list_0_iff)
  qed simp
qed simp

section \<open>The invariants\<close>

definition delays :: "int set" where
  "delays = {1, 2, 4, 8, 16, 30}"

text \<open>Request ids in flight: the numerals of increasing numbers up to the counter.\<close>

definition ids_ok :: "(string \<times> string list) list \<Rightarrow> nat \<Rightarrow> bool" where
  "ids_ok inflight n \<longleftrightarrow>
     (\<exists>ns. map fst inflight = map nat_to_string ns \<and> sorted_wrt (<) ns \<and> (\<forall>k \<in> set ns. k \<le> n))"

definition books_ok :: "'j session \<Rightarrow> bool" where
  "books_ok s \<longleftrightarrow>
     distinct (subscriptions s @ pendingTopics s) \<and>
     ids_ok (inflightSubscribes s) (reqIdCounter s) \<and>
     (\<not> connected s \<longrightarrow>
        subscriptions s = [] \<and> inflightSubscribes s = [] \<and> outboundQueue s = [] \<and> \<not> writeInFlight s) \<and>
     (authRequired s \<and> \<not> authenticated s \<longrightarrow> subscriptions s = [] \<and> inflightSubscribes s = []) \<and>
     (reconnectScheduled s \<longrightarrow> \<not> connected s) \<and>
     authenticatedFlag s = authenticated s \<and>
     authRequired s = (apiKey s \<noteq> [] \<and> apiSecret s \<noteq> []) \<and>
     reconnectDelayS s \<in> delays"

fun op_gen :: "op \<Rightarrow> nat option" where
  "op_gen (Resolve g) = Some g"
| "op_gen (TcpConnect g) = Some g"
| "op_gen (TlsHandshake g) = Some g"
| "op_gen (WsHandshake g) = Some g"
| "op_gen (Read g) = Some g"
| "op_gen (Write g) = Some g"
| "op_gen (PingWait g) = Some g"
| "op_gen (ReconnectWait g) = Some g"
| "op_gen _ = None"

definition chain :: "op list \<Rightarrow> nat \<Rightarrow> nat" where
  "chain xs g = count_list xs (Resolve g) + count_list xs (TcpConnect g)
     + count_list xs (TlsHandshake g) + count_list xs (WsHandshake g)"

definition gens_ok :: "nat \<Rightarrow> op list \<Rightarrow> bool" where
  "gens_ok n xs \<longleftrightarrow> (\<forall>x \<in> set xs. case op_gen x of None \<Rightarrow> True | Some g \<Rightarrow> 1 \<le> g \<and> g \<le> n)"

definition single_ok :: "op list \<Rightarrow> bool" where
  "single_ok xs \<longleftrightarrow>
     (\<forall>g. count_list xs (Read g) \<le> 1 \<and> count_list xs (Write g) \<le> 1 \<and>
          count_list xs (PingWait g) \<le> 1 \<and> count_list xs (ReconnectWait g) \<le> 1)"

definition ops_ok :: "'j session \<Rightarrow> bool" where
  "ops_ok s \<longleftrightarrow>
     gens_ok (generation s) (ops s) \<and> single_ok (ops s) \<and>
     chain (ops s) (generation s) \<le> 1 \<and>
     (chain (ops s) (generation s) = 1 \<longrightarrow> \<not> connected s \<and> \<not> reconnectScheduled s \<and>
        count_list (ops s) (Read (generation s)) = 0 \<and> count_list (ops s) (Write (generation s)) = 0 \<and>
        count_list (ops s) (PingWait (generation s)) = 0) \<and>
     (connected s \<longrightarrow> 1 \<le> generation s \<and>
        count_list (ops s) (Write (generation s)) = (if writeInFlight s then 1 else 0)) \<and>
     count_list (ops s) (ReconnectWait (generation s)) = (if reconnectScheduled s then 1 else 0) \<and>
     count_list (ops s) PostStart \<le> (if generation s = 0 then 1 else 0) \<and>
     ws s = (if generation s = 0 then None else Some (generation s))"

lemma ops_okD:
  assumes "ops_ok s"
  shows "gens_ok (generation s) (ops s)" and "single_ok (ops s)"
    and "chain (ops s) (generation s) \<le> 1"
    and "chain (ops s) (generation s) = 1 \<Longrightarrow> \<not> connected s \<and> \<not> reconnectScheduled s"
    and "chain (ops s) (generation s) = 1 \<Longrightarrow> count_list (ops s) (Read (generation s)) = 0
        \<and> count_list (ops s) (Write (generation s)) = 0 \<and> count_list (ops s) (PingWait (generation s)) = 0"
    and "connected s \<Longrightarrow> 1 \<le> generation s"
    and "connected s \<Longrightarrow> count_list (ops s) (Write (generation s)) = (if writeInFlight s then 1 else 0)"
    and "count_list (ops s) (ReconnectWait (generation s)) = (if reconnectScheduled s then 1 else 0)"
    and "count_list (ops s) PostStart \<le> (if generation s = 0 then 1 else 0)"
    and "ws s = (if generation s = 0 then None else Some (generation s))"
  using assms unfolding ops_ok_def by (blast+)

lemma ops_okI:
  assumes "gens_ok (generation s) (ops s)" and "single_ok (ops s)" and "chain (ops s) (generation s) = 0"
    and "connected s \<Longrightarrow> 1 \<le> generation s"
    and "connected s \<Longrightarrow> count_list (ops s) (Write (generation s)) = (if writeInFlight s then 1 else 0)"
    and "count_list (ops s) (ReconnectWait (generation s)) = (if reconnectScheduled s then 1 else 0)"
    and "count_list (ops s) PostStart \<le> (if generation s = 0 then 1 else 0)"
    and "ws s = (if generation s = 0 then None else Some (generation s))"
  shows "ops_ok s"
  unfolding ops_ok_def using assms by simp

text \<open>An open session always has an operation pending that drives it on.\<close>

definition alive :: "'j session \<Rightarrow> bool" where
  "alive s \<longleftrightarrow> userClosed s \<or> PostStart \<in> set (ops s) \<or>
     chain (ops s) (generation s) = 1 \<or> reconnectScheduled s \<or>
     (connected s \<and> PingWait (generation s) \<in> set (ops s))"

section \<open>Pending operations under adding and removing\<close>

lemma chain_append [simp]: "chain (xs @ [x]) g = chain xs g + chain [x] g"
  by (simp add: chain_def)

lemma chain_single [simp]:
  "chain [Resolve h] g = (if h = g then 1 else 0)"
  "chain [TcpConnect h] g = (if h = g then 1 else 0)"
  "chain [TlsHandshake h] g = (if h = g then 1 else 0)"
  "chain [WsHandshake h] g = (if h = g then 1 else 0)"
  "chain [Read h] g = 0" "chain [Write h] g = 0" "chain [PingWait h] g = 0"
  "chain [ReconnectWait h] g = 0" "chain [AsyncClose] g = 0" "chain [PostStart] g = 0"
  "chain [PostFlush] g = 0" "chain [PostUnsubscribe t] g = 0" "chain [PostClose] g = 0"
  by (simp_all add: chain_def)

lemma count_in_set: "x \<in> set xs \<longleftrightarrow> 1 \<le> count_list xs x"
  by (metis count_list_0_iff less_one linorder_not_less)

lemma chain_remove1: "x \<in> set xs \<Longrightarrow> chain (remove1 x xs) g = chain xs g - chain [x] g"
  by (cases x) (auto simp: chain_def count_remove1 count_in_set)

lemma gens_ok_append [simp]:
  "gens_ok n (xs @ [x]) \<longleftrightarrow>
     gens_ok n xs \<and> (case op_gen x of None \<Rightarrow> True | Some g \<Rightarrow> 1 \<le> g \<and> g \<le> n)"
  by (auto simp: gens_ok_def)

lemma gens_ok_remove1: "gens_ok n xs \<Longrightarrow> gens_ok n (remove1 x xs)"
  by (auto simp: gens_ok_def dest: subsetD [OF set_remove1_subset])

lemma gens_ok_Suc: "gens_ok n xs \<Longrightarrow> gens_ok (Suc n) xs"
  by (fastforce simp: gens_ok_def split: option.splits)

lemma gens_ok_none: "gens_ok n xs \<Longrightarrow> op_gen x = Some g \<Longrightarrow> g = 0 \<or> n < g \<Longrightarrow> count_list xs x = 0"
  by (fastforce simp: gens_ok_def count_list_0_iff)

lemma gens_ok_chain: "gens_ok n xs \<Longrightarrow> g = 0 \<or> n < g \<Longrightarrow> chain xs g = 0"
  by (simp add: chain_def gens_ok_none)

lemma gens_ok_pos: "gens_ok n xs \<Longrightarrow> x \<in> set xs \<Longrightarrow> op_gen x = Some g \<Longrightarrow> 1 \<le> g"
  by (fastforce simp: gens_ok_def)

lemma single_ok_remove1: "single_ok xs \<Longrightarrow> single_ok (remove1 x xs)"
  by (simp add: single_ok_def count_remove1 le_diff_conv le_SucI)

lemma single_ok_append:
  "single_ok xs \<Longrightarrow> (case x of Read g \<Rightarrow> count_list xs x = 0 | Write g \<Rightarrow> count_list xs x = 0
     | PingWait g \<Rightarrow> count_list xs x = 0 | ReconnectWait g \<Rightarrow> count_list xs x = 0 | _ \<Rightarrow> True)
   \<Longrightarrow> single_ok (xs @ [x])"
  by (auto simp: single_ok_def split: op.splits)

section \<open>The write pump keeps the invariants\<close>

lemma pump_books: "books_ok s \<Longrightarrow> books_ok (pump e s)"
  by (auto simp: books_ok_def writes_def)

lemma pump_ops:
  assumes "ops_ok s"
  shows "ops_ok (pump e s)"
proof (cases "writes e s")
  case True
  then have w: "connected s" "\<not> writeInFlight s" by (auto simp: writes_def)
  with assms have "1 \<le> generation s" "count_list (ops s) (Write (generation s)) = 0"
    "chain (ops s) (generation s) = 0"
    by (auto simp: ops_ok_def)
  with assms w True show ?thesis
    by (auto simp: ops_ok_def intro!: single_ok_append)
qed (use assms in \<open>auto simp: ops_ok_def\<close>)

lemma pump_alive: "alive s \<Longrightarrow> alive (pump e s)"
  by (auto simp: alive_def)

text \<open>What the invariants on operations do not look at.\<close>

lemma ops_ok_frame [simp]:
  "ops_ok (outboundQueue_update f1 s) = ops_ok s"
  "ops_ok (writeBuffer_update f2 s) = ops_ok s"
  "ops_ok (sent_update f3 s) = ops_ok s"
  "ops_ok (subscriptions_update f4 s) = ops_ok s"
  "ops_ok (pendingTopics_update f5 s) = ops_ok s"
  "ops_ok (inflightSubscribes_update f6 s) = ops_ok s"
  "ops_ok (reqIdCounter_update f7 s) = ops_ok s"
  "ops_ok (reconnectDelayS_update f8 s) = ops_ok s"
  "ops_ok (authenticated_update f9 s) = ops_ok s"
  "ops_ok (authenticatedFlag_update f10 s) = ops_ok s"
  "ops_ok (authDeadline_update f11 s) = ops_ok s"
  "ops_ok (lastPongTime_update f12 s) = ops_ok s"
  "ops_ok (hostHeader_update f13 s) = ops_ok s"
  "ops_ok (delivered_update f14 s) = ops_ok s"
  "ops_ok (escaped_update f0 s) = ops_ok s"
  by (simp_all add: ops_ok_def)

lemma alive_frame [simp]:
  "alive (outboundQueue_update f1 s) = alive s"
  "alive (writeBuffer_update f2 s) = alive s"
  "alive (sent_update f3 s) = alive s"
  "alive (subscriptions_update f4 s) = alive s"
  "alive (pendingTopics_update f5 s) = alive s"
  "alive (inflightSubscribes_update f6 s) = alive s"
  "alive (reqIdCounter_update f7 s) = alive s"
  "alive (reconnectDelayS_update f8 s) = alive s"
  "alive (authenticated_update f9 s) = alive s"
  "alive (authenticatedFlag_update f10 s) = alive s"
  "alive (authDeadline_update f11 s) = alive s"
  "alive (lastPongTime_update f12 s) = alive s"
  "alive (hostHeader_update f13 s) = alive s"
  "alive (delivered_update f14 s) = alive s"
  "alive (escaped_update f0 s) = alive s"
  by (simp_all add: alive_def)

lemma log_keeps [simp]:
  "books_ok (log_line v m s) = books_ok s" "ops_ok (log_line v m s) = ops_ok s"
  "alive (log_line v m s) = alive s"
  by (simp_all add: books_ok_def ops_ok_def alive_def)

lemma enqueue_books: "books_ok s \<Longrightarrow> connected s \<Longrightarrow> books_ok (enqueueOp p s)"
  by (auto simp: books_ok_def)

lemma enqueue_keeps [simp]:
  "ops_ok (enqueueOp p s) = ops_ok s" "alive (enqueueOp p s) = alive s"
  by (simp_all add: enqueueOp_def)

section \<open>Errors and reconnecting keep the invariants\<close>

lemma delays_double: "d \<in> delays \<Longrightarrow> min (d * 2) RECONNECT_DELAY_MAX_IN_S \<in> delays"
  by (auto simp: delays_def RECONNECT_DELAY_MAX_IN_S_def)

lemma delays_1 [simp]: "1 \<in> delays"
  by (simp add: delays_def)

lemma ids_ok_Nil [simp]: "ids_ok [] n"
  by (simp add: ids_ok_def)

lemma handleError_books: "books_ok s \<Longrightarrow> books_ok (handleError e g m s)"
  by (auto simp: handleError_def books_ok_def Let_def delays_double)

lemma handleError_ops:
  assumes "ops_ok s" and "chain (ops s) (generation s) = 0" and "1 \<le> generation s"
  shows "ops_ok (handleError e g m s)"
  using assms
  by (auto simp: handleError_def ops_ok_def Let_def intro!: single_ok_append)

lemma handleError_alive: "g = generation s \<Longrightarrow> alive (handleError e g m s)"
  by (auto simp: handleError_def alive_def Let_def)

lemma handleError_alive_keep: "alive s \<Longrightarrow> alive (handleError e g m s)"
  by (auto simp: handleError_def alive_def Let_def)

lemma startConnect_books: "books_ok s \<Longrightarrow> \<not> connected s \<Longrightarrow> books_ok (startConnect s)"
  by (auto simp: startConnect_def books_ok_def Let_def)

lemma startConnect_ops:
  assumes "ops_ok s" and "\<not> connected s" and "\<not> reconnectScheduled s"
    and "count_list (ops s) PostStart = 0"
  shows "ops_ok (startConnect s)"
proof (cases "userClosed s")
  case False
  let ?n = "Suc (generation s)"
  have "gens_ok (generation s) (ops s)" using assms(1) by (simp add: ops_ok_def)
  moreover from this have "chain (ops s) ?n = 0" "count_list (ops s) (Read ?n) = 0"
    "count_list (ops s) (Write ?n) = 0" "count_list (ops s) (PingWait ?n) = 0"
    "count_list (ops s) (ReconnectWait ?n) = 0"
    by (auto simp: gens_ok_chain gens_ok_none)
  ultimately show ?thesis
    using assms False
    by (auto simp: startConnect_def ops_ok_def Let_def gens_ok_Suc intro!: single_ok_append)
qed (use assms in \<open>simp add: startConnect_def\<close>)

lemma startConnect_alive:
  assumes "ops_ok s"
  shows "alive (startConnect s)"
proof (cases "userClosed s")
  case False
  have "gens_ok (generation s) (ops s)" using assms by (simp add: ops_ok_def)
  with False show ?thesis
    by (simp add: startConnect_def alive_def Let_def gens_ok_chain)
qed (simp add: startConnect_def alive_def)

section \<open>Flushing, authenticating and pinging keep the invariants\<close>

lemma ids_ok_update:
  assumes "ids_ok inflight n"
  shows "ids_ok (AList.update (nat_to_string (Suc n)) v inflight) (Suc n)"
proof -
  obtain ns where ns: "map fst inflight = map nat_to_string ns" "sorted_wrt (<) ns" "\<forall>k \<in> set ns. k \<le> n"
    using assms by (auto simp: ids_ok_def)
  have "nat_to_string (Suc n) \<notin> set (map fst inflight)"
    unfolding ns(1) using ns(3) by auto
  then have "map fst (AList.update (nat_to_string (Suc n)) v inflight) = map nat_to_string (ns @ [Suc n])"
    using ns(1) by (simp add: AList.update_keys)
  moreover have "sorted_wrt (<) (ns @ [Suc n])"
    using ns(2,3) by (auto simp: sorted_wrt_append less_Suc_eq_le)
  ultimately show ?thesis
    using ns(3) unfolding ids_ok_def by (intro exI [of _ "ns @ [Suc n]"]) auto
qed

lemma ids_ok_delete:
  assumes "ids_ok inflight n"
  shows "ids_ok (AList.delete k inflight) n"
proof -
  obtain ns where ns: "map fst inflight = map nat_to_string ns" "sorted_wrt (<) ns" "\<forall>k \<in> set ns. k \<le> n"
    using assms by (auto simp: ids_ok_def)
  have "map fst (AList.delete k inflight) = map nat_to_string (filter (\<lambda>i. k \<noteq> nat_to_string i) ns)"
    using ns(1) by (simp add: delete_keys removeAll_filter_not_eq filter_map comp_def)
  with ns(2,3) show ?thesis
    unfolding ids_ok_def
    by (intro exI [of _ "filter (\<lambda>i. k \<noteq> nat_to_string i) ns"]) (auto intro: sorted_wrt_filter)
qed

lemma flushTopics_books:
  assumes "books_ok s"
  shows "books_ok (flushTopics J e s)"
proof (cases "\<not> connected s \<or> (authRequired s \<and> \<not> authenticated s) \<or> pendingTopics s = []")
  case False
  with assms show ?thesis
    unfolding flushTopics_def
    by (auto simp: Let_def books_ok_def ids_ok_update intro!: pump_books)
qed (use assms in \<open>auto simp: flushTopics_def\<close>)

lemma flushTopics_ops: "ops_ok s \<Longrightarrow> ops_ok (flushTopics J e s)"
  by (simp add: flushTopics_def Let_def pump_ops)

lemma flushTopics_alive: "alive s \<Longrightarrow> alive (flushTopics J e s)"
  by (simp add: flushTopics_def Let_def pump_alive)

lemma sendAuth_books: "books_ok s \<Longrightarrow> connected s \<Longrightarrow> books_ok (sendAuth J e s)"
  by (auto simp: sendAuth_def Let_def books_ok_def intro!: pump_books)

lemma sendAuth_ops: "ops_ok s \<Longrightarrow> ops_ok (sendAuth J e s)"
  by (simp add: sendAuth_def Let_def pump_ops)

lemma sendAuth_alive: "alive s \<Longrightarrow> alive (sendAuth J e s)"
  by (simp add: sendAuth_def Let_def pump_alive)

section \<open>Every step keeps the invariants\<close>

definition inv :: "'j session \<Rightarrow> bool" where
  "inv s \<longleftrightarrow> books_ok s \<and> ops_ok s \<and> alive s"

lemma books_ops [simp]: "books_ok (ops_update f s) = books_ok s"
  by (simp add: books_ok_def)

text \<open>Taking an operation off the pending list.\<close>

lemma take_ops:
  assumes "ops_ok s" and "x \<in> set (ops s)"
    and "x \<noteq> Write (generation s)" and "x \<noteq> ReconnectWait (generation s)"
  shows "ops_ok (s\<lparr>ops := remove1 x (ops s)\<rparr>)"
  using assms
  by (auto simp: ops_ok_def count_remove1 chain_remove1 gens_ok_remove1 single_ok_remove1)

lemma take_write:
  assumes "ops_ok s" and "Write (generation s) \<in> set (ops s)"
  shows "ops_ok (s\<lparr>ops := remove1 (Write (generation s)) (ops s), writeInFlight := False\<rparr>)"
proof -
  have "1 \<le> count_list (ops s) (Write (generation s))"
    using assms(2) by (simp add: count_in_set)
  moreover have "count_list (ops s) (Write (generation s)) \<le> 1"
    using ops_okD(2) [OF assms(1)] unfolding single_ok_def by blast
  ultimately have w: "count_list (ops s) (Write (generation s)) = 1" by simp
  then have "chain (ops s) (generation s) \<noteq> 1"
    using ops_okD(5) [OF assms(1)] by auto
  then have "chain (ops s) (generation s) = 0"
    using ops_okD(3) [OF assms(1)] by simp
  then show ?thesis
    using ops_okD [OF assms(1)] assms(2) w
    by (intro ops_okI) (simp_all add: count_remove1 chain_remove1 gens_ok_remove1 single_ok_remove1)
qed

lemma take_reconnect:
  assumes "ops_ok s" and "ReconnectWait (generation s) \<in> set (ops s)"
  shows "reconnectScheduled s"
    and "ops_ok (s\<lparr>ops := remove1 (ReconnectWait (generation s)) (ops s), reconnectScheduled := False\<rparr>)"
proof -
  have "count_list (ops s) (ReconnectWait (generation s)) \<noteq> 0"
    using assms(2) by (simp add: count_list_0_iff)
  then show r: "reconnectScheduled s"
    using ops_okD(8) [OF assms(1)] by (cases "reconnectScheduled s") simp_all
  then have "chain (ops s) (generation s) \<noteq> 1"
    using ops_okD(4) [OF assms(1)] by auto
  then have "chain (ops s) (generation s) = 0"
    using ops_okD(3) [OF assms(1)] by simp
  then show "ops_ok (s\<lparr>ops := remove1 (ReconnectWait (generation s)) (ops s), reconnectScheduled := False\<rparr>)"
    using ops_okD [OF assms(1)] assms(2) r
    by (intro ops_okI) (simp_all add: count_remove1 chain_remove1 gens_ok_remove1 single_ok_remove1)
qed

lemma take_alive:
  assumes "alive s" and "x \<in> set (ops s)"
    and "chain [x] (generation s) = 0" and "x \<noteq> PostStart" and "x \<noteq> PingWait (generation s)"
  shows "alive (s\<lparr>ops := remove1 x (ops s)\<rparr>)"
  using assms by (auto simp: alive_def chain_remove1)

text \<open>A completion of another generation.\<close>

lemma stale_inv:
  assumes "inv s" and "x \<in> set (ops s)" and "op_gen x = Some g" and "g \<noteq> generation s"
  shows "inv (s\<lparr>ops := remove1 x (ops s)\<rparr>)"
proof -
  have "chain [x] (generation s) = 0"
    using assms(3,4) by (cases x) auto
  moreover have "x \<noteq> PostStart" "x \<noteq> PingWait (generation s)" "x \<noteq> Write (generation s)"
    "x \<noteq> ReconnectWait (generation s)"
    using assms(3,4) by auto
  ultimately show ?thesis
    using assms(1,2) by (simp add: inv_def take_alive take_ops)
qed

text \<open>Operations of the current generation put on the list.\<close>

lemma chain_gen: "chain [y] g = 1 \<Longrightarrow> op_gen y = Some g"
  by (cases y) (auto split: if_splits)

lemma add_chain:
  assumes "ops_ok s" and "chain (ops s) (generation s) = 0" and "\<not> connected s" and "\<not> reconnectScheduled s"
    and "count_list (ops s) (Read (generation s)) = 0" and "count_list (ops s) (Write (generation s)) = 0"
    and "count_list (ops s) (PingWait (generation s)) = 0" and "1 \<le> generation s"
    and "chain [y] (generation s) = 1"
  shows "ops_ok (start_op y s)"
proof -
  have y: "y = Resolve (generation s) \<or> y = TcpConnect (generation s)
      \<or> y = TlsHandshake (generation s) \<or> y = WsHandshake (generation s)"
    using assms(9) by (cases y) (auto split: if_splits)
  then have "op_gen y = Some (generation s)" by auto
  moreover have "single_ok (ops s @ [y])"
    using assms(1) y by (intro single_ok_append) (auto simp: ops_ok_def)
  moreover have "count_list [y] x = 0" if "x \<in> {Read g, Write g, PingWait g, ReconnectWait g, PostStart}" for x g
    using y that by auto
  ultimately show ?thesis
    using assms y by (auto simp: ops_ok_def)
qed

lemma add_read_or_ping:
  assumes "ops_ok s" and "chain (ops s) (generation s) = 0" and "1 \<le> generation s"
    and "y = Read (generation s) \<or> y = PingWait (generation s)" and "count_list (ops s) y = 0"
  shows "ops_ok (start_op y s)"
proof -
  have "single_ok (ops s @ [y])"
    using assms by (intro single_ok_append) (auto simp: ops_ok_def)
  with assms show ?thesis by (auto simp: ops_ok_def)
qed

lemma add_posted:
  assumes "ops_ok s" and "y = PostFlush \<or> y = PostUnsubscribe t \<or> y = PostClose \<or> y = AsyncClose"
  shows "ops_ok (start_op y s)"
proof -
  have "single_ok (ops s @ [y])"
    using assms by (intro single_ok_append) (auto simp: ops_ok_def)
  with assms show ?thesis by (auto simp: ops_ok_def)
qed

section \<open>What the handlers change\<close>

lemma flushTopics_frame [simp]:
  "host (flushTopics J e s) = host s"
  "port (flushTopics J e s) = port s"
  "path (flushTopics J e s) = path s"
  "hostHeader (flushTopics J e s) = hostHeader s"
  "apiKey (flushTopics J e s) = apiKey s"
  "apiSecret (flushTopics J e s) = apiSecret s"
  "authRequired (flushTopics J e s) = authRequired s"
  "logMessageCB (flushTopics J e s) = logMessageCB s"
  "dataEventCB (flushTopics J e s) = dataEventCB s"
  "reconnectDelayS (flushTopics J e s) = reconnectDelayS s"
  "generation (flushTopics J e s) = generation s"
  "connected (flushTopics J e s) = connected s"
  "authenticated (flushTopics J e s) = authenticated s"
  "authenticatedFlag (flushTopics J e s) = authenticatedFlag s"
  "reconnectScheduled (flushTopics J e s) = reconnectScheduled s"
  "userClosed (flushTopics J e s) = userClosed s"
  "lastPongTime (flushTopics J e s) = lastPongTime s"
  "authDeadline (flushTopics J e s) = authDeadline s"
  "ws (flushTopics J e s) = ws s"
  "logs (flushTopics J e s) = logs s"
  "delivered (flushTopics J e s) = delivered s"
  "escaped (flushTopics J e s) = escaped s"
  by (simp_all add: flushTopics_def Let_def)

lemma sendAuth_frame [simp]:
  "host (sendAuth J e s) = host s"
  "port (sendAuth J e s) = port s"
  "path (sendAuth J e s) = path s"
  "hostHeader (sendAuth J e s) = hostHeader s"
  "apiKey (sendAuth J e s) = apiKey s"
  "apiSecret (sendAuth J e s) = apiSecret s"
  "authRequired (sendAuth J e s) = authRequired s"
  "logMessageCB (sendAuth J e s) = logMessageCB s"
  "dataEventCB (sendAuth J e s) = dataEventCB s"
  "subscriptions (sendAuth J e s) = subscriptions s"
  "pendingTopics (sendAuth J e s) = pendingTopics s"
  "inflightSubscribes (sendAuth J e s) = inflightSubscribes s"
  "reqIdCounter (sendAuth J e s) = reqIdCounter s"
  "reconnectDelayS (sendAuth J e s) = reconnectDelayS s"
  "generation (sendAuth J e s) = generation s"
  "connected (sendAuth J e s) = connected s"
  "authenticated (sendAuth J e s) = authenticated s"
  "authenticatedFlag (sendAuth J e s) = authenticatedFlag s"
  "reconnectScheduled (sendAuth J e s) = reconnectScheduled s"
  "userClosed (sendAuth J e s) = userClosed s"
  "lastPongTime (sendAuth J e s) = lastPongTime s"
  "ws (sendAuth J e s) = ws s"
  "logs (sendAuth J e s) = logs s"
  "delivered (sendAuth J e s) = delivered s"
  "escaped (sendAuth J e s) = escaped s"
  by (simp_all add: sendAuth_def Let_def)

lemma handleError_frame [simp]:
  "host (handleError e g m s) = host s"
  "port (handleError e g m s) = port s"
  "path (handleError e g m s) = path s"
  "hostHeader (handleError e g m s) = hostHeader s"
  "apiKey (handleError e g m s) = apiKey s"
  "apiSecret (handleError e g m s) = apiSecret s"
  "authRequired (handleError e g m s) = authRequired s"
  "logMessageCB (handleError e g m s) = logMessageCB s"
  "dataEventCB (handleError e g m s) = dataEventCB s"
  "writeBuffer (handleError e g m s) = writeBuffer s"
  "reqIdCounter (handleError e g m s) = reqIdCounter s"
  "generation (handleError e g m s) = generation s"
  "userClosed (handleError e g m s) = userClosed s"
  "lastPongTime (handleError e g m s) = lastPongTime s"
  "ws (handleError e g m s) = ws s"
  "sent (handleError e g m s) = sent s"
  "delivered (handleError e g m s) = delivered s"
  "escaped (handleError e g m s) = escaped s"
  by (simp_all add: handleError_def Let_def)

lemma deliver_frame [simp]:
  "host (deliver J e json s) = host s"
  "port (deliver J e json s) = port s"
  "path (deliver J e json s) = path s"
  "hostHeader (deliver J e json s) = hostHeader s"
  "apiKey (deliver J e json s) = apiKey s"
  "apiSecret (deliver J e json s) = apiSecret s"
  "authRequired (deliver J e json s) = authRequired s"
  "logMessageCB (deliver J e json s) = logMessageCB s"
  "dataEventCB (deliver J e json s) = dataEventCB s"
  "outboundQueue (deliver J e json s) = outboundQueue s"
  "writeInFlight (deliver J e json s) = writeInFlight s"
  "writeBuffer (deliver J e json s) = writeBuffer s"
  "subscriptions (deliver J e json s) = subscriptions s"
  "pendingTopics (deliver J e json s) = pendingTopics s"
  "inflightSubscribes (deliver J e json s) = inflightSubscribes s"
  "reqIdCounter (deliver J e json s) = reqIdCounter s"
  "reconnectDelayS (deliver J e json s) = reconnectDelayS s"
  "generation (deliver J e json s) = generation s"
  "connected (deliver J e json s) = connected s"
  "authenticated (deliver J e json s) = authenticated s"
  "authenticatedFlag (deliver J e json s) = authenticatedFlag s"
  "reconnectScheduled (deliver J e json s) = reconnectScheduled s"
  "userClosed (deliver J e json s) = userClosed s"
  "lastPongTime (deliver J e json s) = lastPongTime s"
  "authDeadline (deliver J e json s) = authDeadline s"
  "ws (deliver J e json s) = ws s"
  "ops (deliver J e json s) = ops s"
  "sent (deliver J e json s) = sent s"
  "escaped (deliver J e json s) = escaped s"
  by (simp_all add: deliver_def Let_def split: sum.split option.split)

lemma bindR_pair_Inr:
  "bindR m (\<lambda>(a, b). f a b) = Inr y \<longleftrightarrow> (\<exists>a b. m = Inr (a, b) \<and> f a b = Inr y)"
  by (cases m) auto

lemma if_chain_cases:
  assumes "(if p then A else if a then if b then B else C else if u then D else if \<not> b then E else F) = X"
  obtains "D = X" "\<not> p" "u" | "A = X" | "B = X" | "C = X" | "E = X" | "F = X"
  using assms by (auto split: if_splits)

text \<open>The text a read delivered is a subscribe ack: its success flag and its request id.\<close>

definition ack_of :: "'j jops \<Rightarrow> env \<Rightarrow> (bool \<times> string) option" where
  "ack_of J e =
     (case bindR (j_parse J (message e)) (\<lambda>json.
        if j_is_object J json \<and> isApiControlMsg J json then
          bindR (readString J json ''op'' []) (\<lambda>(_, operation).
          bindR (readBool J json ''success'' True) (\<lambda>(_, success).
          bindR (readString J json ''ret_msg'' []) (\<lambda>(_, ret_msg).
            if operation = ''subscribe'' \<and> ret_msg \<noteq> ''pong'' then
              bindR (readString J json ''req_id'' []) (\<lambda>(_, reqId). Inr (Some (success, reqId)))
            else Inr None)))
        else Inr None)
      of Inr a \<Rightarrow> a | Inl _ \<Rightarrow> None)"

text \<open>A message's effect, by kind of message.\<close>

lemma processMessage_cases:
  assumes "processMessage J e g s = Inr s'"
  obtains (pong) "s' = s\<lparr>lastPongTime := steady e\<rparr>"
  | (auth_ok) "s' = flushTopics J e (log_line Info ''Bybit WS authenticated''
      (s\<lparr>authenticated := True, authenticatedFlag := True, authDeadline := None, reconnectDelayS := 1\<rparr>))"
  | (auth_failed) m where "s' = handleError e g m s"
  | (ack) success ret_msg reqId where "ack_of J e = Some (success, reqId)"
      "handleSubscribeAck success ret_msg reqId s = Inr s'"
  | (logged) m where "s' = log_line Error m s"
  | (event) json where "s' = deliver J e json s"
  | (nothing) "s' = s"
proof -
  obtain json where parse: "j_parse J (message e) = Inr json" and j: "(if j_is_object J json then if isApiControlMsg J json then handleApiControlMsg J e g json s
      else Inr (deliver J e json s) else Inr s) = Inr s'"
    using assms unfolding processMessage_def bindR_eq_Inr by blast
  show thesis
  proof (cases "j_is_object J json \<and> isApiControlMsg J json")
    case True
    with j have "handleApiControlMsg J e g json s = Inr s'" by simp
    then obtain operation success ret_msg u1 u2 u3 where
      reads: "readString J json ''op'' [] = Inr (u1, operation)"
        "readBool J json ''success'' True = Inr (u2, success)"
        "readString J json ''ret_msg'' [] = Inr (u3, ret_msg)" and
      "(if operation = ''pong'' \<or> ret_msg = ''pong'' then Inr (s\<lparr>lastPongTime := steady e\<rparr>)
       else if operation = ''auth'' then
         if success then
           Inr (flushTopics J e (log_line Info ''Bybit WS authenticated''
             (s\<lparr>authenticated := True, authenticatedFlag := True, authDeadline := None,
                reconnectDelayS := 1\<rparr>)))
         else Inr (handleError e g (''Bybit WS auth failed: '' @ ret_msg) s)
       else if operation = ''subscribe'' then
         bindR (readString J json ''req_id'' []) (\<lambda>(_, reqId). handleSubscribeAck success ret_msg reqId s)
       else if \<not> success then
         Inr (log_line Error
           (''Bybit API Error, operation: '' @ operation @ '', message: '' @ ret_msg) s)
       else Inr s) = Inr s'"
      unfolding handleApiControlMsg_def bindR_pair_Inr by (elim exE conjE) (rule that)
    from this(4) show thesis
    proof (rule if_chain_cases)
      assume u: "bindR (readString J json ''req_id'' []) (\<lambda>(_, reqId). handleSubscribeAck success ret_msg reqId s) = Inr s'"
        "\<not> (operation = ''pong'' \<or> ret_msg = ''pong'')" "operation = ''subscribe''"
      from u(1) obtain u4 reqId where r: "readString J json ''req_id'' [] = Inr (u4, reqId)"
        and h: "handleSubscribeAck success ret_msg reqId s = Inr s'"
        unfolding bindR_pair_Inr by blast
      have "ack_of J e = Some (success, reqId)"
        using True u(2,3) reads r parse unfolding ack_of_def by simp
      then show thesis using h by (rule ack)
    qed ((drule Inr_inject, rule pong auth_ok auth_failed logged, erule sym) | (rule nothing, drule Inr_inject, erule sym))+
  next
    case False
    show thesis
    proof (cases "j_is_object J json")
      case True
      with j False have "s' = deliver J e json s" by simp
      then show thesis by (rule event)
    next
      case False
      with j have "s' = s" by simp
      then show thesis by (rule nothing)
    qed
  qed
qed

lemma prune_Nil [simp]: "prune ts [] = []"
  unfolding prune_def by (induction ts) simp_all

lemma prune_distinct: "distinct subs \<Longrightarrow> prune ts subs = filter (\<lambda>t. t \<notin> set ts) subs"
proof (induction ts arbitrary: subs)
  case (Cons t ts)
  then have "prune (t # ts) subs = filter (\<lambda>u. u \<notin> set ts) (remove1 t subs)"
    by (simp add: prune_def)
  also have "remove1 t subs = filter (\<lambda>u. u \<noteq> t) subs"
    using Cons.prems by (simp add: distinct_remove1_removeAll removeAll_filter_not_eq eq_commute)
  finally show ?case by (simp add: conj_commute)
qed (simp add: prune_def)

lemma log_line_inflight:
  "(log_line v m s)\<lparr>inflightSubscribes := x\<rparr> = log_line v m (s\<lparr>inflightSubscribes := x\<rparr>)"
  by (simp add: log_line_def)

text \<open>A subscribe ack, by what it is attributed to.\<close>

lemma handleSubscribeAck_cases:
  assumes "handleSubscribeAck success ret_msg reqId s = Inr s'"
  obtains (none) "answered_op reqId (inflightSubscribes s) = Inr None"
      "s' = s \<or> (\<exists>m. s' = log_line Error m s)"
  | (confirmed) key where "answered_op reqId (inflightSubscribes s) = Inr (Some key)" "success"
      "s' = s\<lparr>inflightSubscribes := AList.delete key (inflightSubscribes s)\<rparr>"
  | (rejected) key m where "answered_op reqId (inflightSubscribes s) = Inr (Some key)" "\<not> success"
      "s' = log_line Error m (s\<lparr>
         subscriptions := prune (the (map_of (inflightSubscribes s) key)) (subscriptions s),
         inflightSubscribes := AList.delete key (inflightSubscribes s)\<rparr>)"
proof -
  from assms obtain it where it: "answered_op reqId (inflightSubscribes s) = Inr it"
    by (auto simp: handleSubscribeAck_def bindR_eq_Inr)
  show thesis
  proof (cases it)
    case None
    with assms it none show ?thesis by (auto simp: handleSubscribeAck_def split: if_splits)
  next
    case (Some key)
    show ?thesis
    proof (cases success)
      case True
      with assms it Some confirmed show ?thesis by (simp add: handleSubscribeAck_def)
    next
      case False
      with assms it Some have "s' = log_line Error (''Bybit subscribe failed ('' @
          join_comma (the (map_of (inflightSubscribes s) key)) @ ''): '' @ ret_msg) (s\<lparr>
         subscriptions := prune (the (map_of (inflightSubscribes s) key)) (subscriptions s),
         inflightSubscribes := AList.delete key (inflightSubscribes s)\<rparr>)"
        by (simp add: handleSubscribeAck_def Let_def log_line_inflight)
      then show ?thesis by (rule rejected [OF it [unfolded Some] False])
    qed
  qed
qed

lemma filter_books:
  assumes "books_ok s" and "subs = filter P (subscriptions s)" and "ids_ok infl (reqIdCounter s)"
    and "\<not> connected s \<or> (authRequired s \<and> \<not> authenticated s) \<Longrightarrow> infl = []"
  shows "books_ok (s\<lparr>subscriptions := subs, inflightSubscribes := infl\<rparr>)"
  using assms by (auto simp: books_ok_def)

lemma ack_books:
  assumes "handleSubscribeAck success ret_msg reqId s = Inr s'" and "books_ok s"
  shows "books_ok s'"
proof -
  have ids: "ids_ok (AList.delete key (inflightSubscribes s)) (reqIdCounter s)" for key
    using assms(2) by (simp add: books_ok_def ids_ok_delete)
  have empty: "AList.delete key (inflightSubscribes s) = []"
    if "\<not> connected s \<or> (authRequired s \<and> \<not> authenticated s)" for key
    using assms(2) that by (auto simp: books_ok_def)
  have d: "distinct (subscriptions s)"
    using assms(2) by (simp add: books_ok_def)
  from assms(1) show ?thesis
  proof (cases rule: handleSubscribeAck_cases)
    case none
    with assms(2) show ?thesis by auto
  next
    case (confirmed key)
    have "books_ok (s\<lparr>subscriptions := subscriptions s, inflightSubscribes := AList.delete key (inflightSubscribes s)\<rparr>)"
      using assms(2) ids empty by (intro filter_books [where P = "\<lambda>_. True"]) auto
    with confirmed show ?thesis by simp
  next
    case (rejected key m)
    have "books_ok (s\<lparr>subscriptions := prune (the (map_of (inflightSubscribes s) key)) (subscriptions s),
        inflightSubscribes := AList.delete key (inflightSubscribes s)\<rparr>)"
      using assms(2) prune_distinct [OF d] ids empty by (rule filter_books)
    with rejected show ?thesis by simp
  qed
qed

lemma ack_frame:
  assumes "handleSubscribeAck success ret_msg reqId s = Inr s'"
  shows "ops_ok s' = ops_ok s" "alive s' = alive s" "ops s' = ops s" "generation s' = generation s"
    "connected s' = connected s" "reconnectDelayS s' = reconnectDelayS s" "userClosed s' = userClosed s"
    "authenticated s' = authenticated s" "authRequired s' = authRequired s" "sent s' = sent s"
    "pendingTopics s' = pendingTopics s" "reconnectScheduled s' = reconnectScheduled s"
  using assms by (cases rule: handleSubscribeAck_cases; auto)+

lemma processMessage_books:
  assumes "processMessage J e g s = Inr s'" and "books_ok s"
  shows "books_ok s'"
  using assms(1)
proof (cases rule: processMessage_cases)
  case auth_ok
  have "books_ok (s\<lparr>authenticated := True, authenticatedFlag := True, authDeadline := None, reconnectDelayS := 1\<rparr>)"
    using assms(2) by (auto simp: books_ok_def)
  with auth_ok show ?thesis by (simp add: flushTopics_books)
next
  case (ack success ret_msg reqId)
  with assms(2) show ?thesis by (simp add: ack_books)
qed (use assms(2) in \<open>auto simp: handleError_books, auto simp: books_ok_def\<close>)

lemma flush_ops_cases: "ops (flushTopics J e s) = ops s \<or> ops (flushTopics J e s) = ops s @ [Write (generation s)]"
  by (simp add: flushTopics_def Let_def)

lemma sendAuth_ops_cases: "ops (sendAuth J e s) = ops s \<or> ops (sendAuth J e s) = ops s @ [Write (generation s)]"
  by (simp add: sendAuth_def Let_def)

end
