(* ===== verification/Ws_Session_Props.thy ===== *)
theory Ws_Session_Props
  imports Ws_Session_Inv
begin

text \<open>
  Every step of the session keeps its invariants, so every reachable state has them; then the
  properties of the session.
\<close>

section \<open>Completions of the current generation\<close>

text \<open>The state in which the handler of a chain operation runs.\<close>

lemma take_chain:
  assumes "inv s" and "x \<in> set (ops s)" and "chain [x] (generation s) = 1"
  shows "ops_ok (s\<lparr>ops := remove1 x (ops s)\<rparr>)" and "chain (remove1 x (ops s)) (generation s) = 0"
    and "1 \<le> generation s" and "\<not> connected s" and "\<not> reconnectScheduled s"
    and "count_list (remove1 x (ops s)) (Read (generation s)) = 0"
    and "count_list (remove1 x (ops s)) (Write (generation s)) = 0"
    and "count_list (remove1 x (ops s)) (PingWait (generation s)) = 0"
proof -
  have o: "ops_ok s" using assms(1) by (simp add: inv_def)
  have x: "x = Resolve (generation s) \<or> x = TcpConnect (generation s)
      \<or> x = TlsHandshake (generation s) \<or> x = WsHandshake (generation s)"
    using assms(3) by (cases x) (auto split: if_splits)
  then have "1 \<le> chain (ops s) (generation s)"
    using assms(2) by (auto simp: chain_def count_in_set)
  then have c: "chain (ops s) (generation s) = 1" using ops_okD(3) [OF o] by simp
  show "ops_ok (s\<lparr>ops := remove1 x (ops s)\<rparr>)"
    using o assms(2) x by (intro take_ops) auto
  show "chain (remove1 x (ops s)) (generation s) = 0"
    using c assms(2,3) by (simp add: chain_remove1)
  show "1 \<le> generation s"
    using gens_ok_pos [OF ops_okD(1) [OF o] assms(2)] chain_gen [OF assms(3)] by simp
  show "\<not> connected s" "\<not> reconnectScheduled s"
    using ops_okD(4) [OF o c] by simp_all
  show "count_list (remove1 x (ops s)) (Read (generation s)) = 0"
    "count_list (remove1 x (ops s)) (Write (generation s)) = 0"
    "count_list (remove1 x (ops s)) (PingWait (generation s)) = 0"
    using ops_okD(5) [OF o c] x by (auto simp: count_remove1)
qed

lemma chain_fail_inv:
  assumes "inv s" and "x \<in> set (ops s)" and "chain [x] (generation s) = 1"
  shows "inv (handleError e (generation s) m (s\<lparr>ops := remove1 x (ops s)\<rparr>))"
  using assms(1) take_chain(1-3) [OF assms]
  by (simp add: inv_def handleError_books handleError_ops handleError_alive)

lemma chain_next_inv:
  assumes "inv s" and "x \<in> set (ops s)" and "chain [x] (generation s) = 1"
    and "chain [y] (generation s) = 1"
  shows "inv (start_op y (s\<lparr>ops := remove1 x (ops s), hostHeader := h\<rparr>))"
proof -
  let ?s = "s\<lparr>ops := remove1 x (ops s), hostHeader := h\<rparr>"
  have "ops_ok (start_op y ?s)"
    using take_chain [OF assms(1-3)] assms(4) by (intro add_chain) simp_all
  moreover have "alive (start_op y ?s)"
    using take_chain(2) [OF assms(1-3)] assms(4) by (simp add: alive_def)
  moreover have "books_ok (start_op y ?s)"
    using assms(1) by (simp add: inv_def start_op_def books_ok_def)
  ultimately show ?thesis by (simp add: inv_def)
qed

lemma start_op_books [simp]: "books_ok (start_op y s) = books_ok s"
  by (simp add: start_op_def)

lemma chain_append2 [simp]: "chain (xs @ [x, y]) g = chain xs g + chain [x] g + chain [y] g"
  using chain_append [of "xs @ [x]" y g] by simp

lemma handshake_inv:
  assumes "inv s" and "WsHandshake (generation s) \<in> set (ops s)"
  shows "inv (onHandshake J e (generation s) (s\<lparr>ops := remove1 (WsHandshake (generation s)) (ops s)\<rparr>))"
proof -
  let ?g = "generation s" and ?x = "WsHandshake (generation s)"
  let ?s = "s\<lparr>ops := remove1 ?x (ops s)\<rparr>"
  note t = take_chain [OF assms(1,2), simplified]
  show ?thesis
  proof (cases "ec e = None \<and> \<not> userClosed s")
    case True
    define s1 where "s1 = ?s\<lparr>connected := True, lastPongTime := steady e\<rparr>"
    define s2 where "s2 = start_op (PingWait ?g) s1"
    define s3 where "s3 = (if authRequired s2 then sendAuth J e s2 else flushTopics J e s2)"
    have b: "books_ok s" using assms(1) by (simp add: inv_def)
    then have "\<not> writeInFlight s" using t(4) by (simp add: books_ok_def)
    then have o1: "ops_ok s1"
      using ops_okD [OF t(1)] t by (intro ops_okI) (simp_all add: s1_def)
    have b1: "books_ok s1" using b t(5) by (auto simp: books_ok_def s1_def)
    have "ops_ok s2"
      unfolding s2_def using o1 t by (intro add_read_or_ping) (simp_all add: s1_def)
    then have o3: "ops_ok s3" by (simp add: s3_def sendAuth_ops flushTopics_ops)
    have b3: "books_ok s3"
      using b1 by (simp add: s3_def s2_def sendAuth_books flushTopics_books s1_def)
    have ops3: "ops s3 = ops s2 \<or> ops s3 = ops s2 @ [Write ?g]"
      using flush_ops_cases [of J e s2] sendAuth_ops_cases [of J e s2] by (simp add: s3_def s2_def s1_def)
    have fr: "generation s3 = ?g" "connected s3"
      by (simp_all add: s3_def s2_def s1_def)
    have "chain (ops s3) ?g = 0" "count_list (ops s3) (Read ?g) = 0" "PingWait ?g \<in> set (ops s3)"
      using ops3 t by (auto simp: s2_def s1_def)
    then have "inv (start_op (Read ?g) s3)"
      using o3 b3 fr t(3) add_read_or_ping [of s3 "Read ?g"] by (simp add: inv_def alive_def)
    moreover have "onHandshake J e ?g ?s = start_op (Read ?g) s3"
      using True by (simp add: onHandshake_def s3_def s2_def s1_def Let_def)
    ultimately show ?thesis by (simp only:)
  next
    case False
    then show ?thesis
    proof (cases "ec e")
      case None
      with False have "userClosed s" by simp
      with None show ?thesis
        using assms(1) t(1) by (simp add: onHandshake_def inv_def alive_def)
    next
      case (Some m)
      then show ?thesis
        using chain_fail_inv [OF assms] by (simp add: onHandshake_def)
    qed
  qed
qed

lemma chain_0:
  assumes "ops_ok s" and "x \<in> set (ops s)"
    and "x = Read (generation s) \<or> x = Write (generation s) \<or> x = PingWait (generation s)"
  shows "chain (ops s) (generation s) = 0" and "1 \<le> generation s"
proof -
  have "1 \<le> count_list (ops s) x" using assms(2) by (simp add: count_in_set)
  then have "chain (ops s) (generation s) \<noteq> 1"
    using ops_okD(5) [OF assms(1)] assms(3) by auto
  then show "chain (ops s) (generation s) = 0"
    using ops_okD(3) [OF assms(1)] by simp
  show "1 \<le> generation s"
    using gens_ok_pos [OF ops_okD(1) [OF assms(1)] assms(2)] assms(3) by auto
qed

lemma single_count:
  assumes "ops_ok s" and "x \<in> {Read g, Write g, PingWait g, ReconnectWait g}"
  shows "count_list (remove1 x (ops s)) x = 0"
proof -
  have "count_list (ops s) x \<le> 1"
    using ops_okD(2) [OF assms(1)] assms(2) unfolding single_ok_def by blast
  then show ?thesis by (simp add: count_remove1)
qed

lemma handleError_ops_cases:
  "ops (handleError e g m s) = ops s \<or> ops (handleError e g m s) = ops s @ [ReconnectWait g]"
  by (simp add: handleError_def Let_def)

lemma processMessage_ops:
  assumes "processMessage J e g s = Inr s'" and "ops_ok s" and "chain (ops s) (generation s) = 0"
    and "1 \<le> generation s"
  shows "ops_ok s'" and "alive s \<Longrightarrow> alive s'" and "generation s' = generation s"
    and "ops s' = ops s \<or> ops s' = ops s @ [Write (generation s)] \<or> ops s' = ops s @ [ReconnectWait g]"
proof -
  have "ops_ok s' \<and> (alive s \<longrightarrow> alive s') \<and> generation s' = generation s \<and>
    (ops s' = ops s \<or> ops s' = ops s @ [Write (generation s)] \<or> ops s' = ops s @ [ReconnectWait g])"
    using assms(1)
  proof (cases rule: processMessage_cases)
    case auth_ok
    then show ?thesis
      using assms(2) flush_ops_cases [of J e "log_line Info ''Bybit WS authenticated''
        (s\<lparr>authenticated := True, authenticatedFlag := True, authDeadline := None, reconnectDelayS := 1\<rparr>)"]
      by (auto simp: flushTopics_ops flushTopics_alive)
  next
    case (auth_failed m)
    then show ?thesis
      using assms(2-4) handleError_ops_cases [of e g m s]
      by (auto simp: handleError_ops handleError_alive_keep)
  next
    case (ack success ret_msg reqId)
    then show ?thesis using assms(2) by (simp add: ack_frame)
  next
    case (event json)
    then show ?thesis
      using assms(2) by (simp add: ops_ok_def alive_def)
  qed (use assms(2) in auto)
  then show "ops_ok s'" "alive s \<Longrightarrow> alive s'" "generation s' = generation s"
    "ops s' = ops s \<or> ops s' = ops s @ [Write (generation s)] \<or> ops s' = ops s @ [ReconnectWait g]"
    by auto
qed

lemma books_delay_1 [simp]: "books_ok s \<Longrightarrow> books_ok (s\<lparr>reconnectDelayS := 1\<rparr>)"
  by (simp add: books_ok_def)

lemma books_escaped [simp]: "books_ok (escaped_update f s) = books_ok s"
  by (simp add: books_ok_def)

lemma read_inv:
  assumes "inv s" and "Read (generation s) \<in> set (ops s)"
  shows "inv (onRead J e (generation s) (s\<lparr>ops := remove1 (Read (generation s)) (ops s)\<rparr>))"
proof -
  let ?g = "generation s"
  let ?s = "s\<lparr>ops := remove1 (Read (generation s)) (ops s)\<rparr>"
  have o: "ops_ok s" and b: "books_ok ?s" using assms(1) by (simp_all add: inv_def)
  note c = chain_0 [OF o assms(2), simplified]
  have o1: "ops_ok ?s" using o assms(2) by (intro take_ops) auto
  have a1: "alive ?s" using assms by (intro take_alive) (auto simp: inv_def)
  have c1: "chain (ops ?s) (generation ?s) = 0" using c(1) assms(2) by (simp add: chain_remove1)
  have fail: "inv (handleError e ?g m ?s)" for m
    using b o1 c1 c(2) by (simp add: inv_def handleError_books handleError_ops handleError_alive)
  show ?thesis
  proof (cases "ec e")
    case (Some m)
    with fail show ?thesis by (simp add: onRead_def)
  next
    case None
    show ?thesis
    proof (cases "processMessage J e ?g ?s")
      case (Inl x)
      with None fail b o1 a1 show ?thesis
        by (cases x) (simp_all add: onRead_def inv_def)
    next
      case (Inr s')
      note p = processMessage_ops [OF Inr o1 c1]
      have g1: "1 \<le> generation ?s" using c(2) by simp
      have b': "books_ok s'" using Inr b by (rule processMessage_books)
      have "inv (rearmRead ?g s')"
      proof (cases "reconnectScheduled s' \<or> \<not> connected s'")
        case True
        with p(1,2) [OF g1] a1 b' show ?thesis by (auto simp: rearmRead_def inv_def)
      next
        case False
        define s2 where "s2 = (if \<not> authRequired s' \<or> authenticated s' then s'\<lparr>reconnectDelayS := 1\<rparr> else s')"
        have s2: "ops_ok s2" "alive s2" "books_ok s2" "generation s2 = ?g" "ops s2 = ops s'"
          using p(1-3) [OF g1] a1 b' by (auto simp: s2_def)
        have "count_list (ops s') (Read ?g) = 0" "chain (ops s') ?g = 0"
          using p(4) [OF g1] c1 single_count [OF o, of "Read ?g" ?g] by auto
        with s2 c(2) have "ops_ok (start_op (Read ?g) s2)"
          using add_read_or_ping [of s2 "Read ?g"] by simp
        with s2 have "inv (start_op (Read ?g) s2)" by (auto simp: inv_def alive_def)
        with False s2(4) p(3) [OF g1] show ?thesis
          by (simp add: rearmRead_def s2_def Let_def)
      qed
      with None Inr show ?thesis by (simp add: onRead_def)
    qed
  qed
qed

lemma write_inv:
  assumes "inv s" and "Write (generation s) \<in> set (ops s)"
  shows "inv (onWrite e (generation s) (s\<lparr>ops := remove1 (Write (generation s)) (ops s)\<rparr>))"
proof -
  let ?s = "s\<lparr>ops := remove1 (Write (generation s)) (ops s), writeInFlight := False\<rparr>"
  have o: "ops_ok s" and b: "books_ok s" using assms(1) by (simp_all add: inv_def)
  have b1: "books_ok ?s" using b by (auto simp: books_ok_def)
  have o1: "ops_ok ?s" using o assms(2) by (rule take_write)
  have "alive (s\<lparr>ops := remove1 (Write (generation s)) (ops s)\<rparr>)"
    using assms by (intro take_alive) (auto simp: inv_def)
  then have a1: "alive ?s" by (simp add: alive_def)
  have "inv (handleError e (generation s) m ?s)" for m
    using b1 o1 chain_0 [OF o assms(2), simplified] assms(2)
    by (simp add: inv_def handleError_books handleError_ops handleError_alive chain_remove1)
  moreover have "inv (pump e ?s)"
    using b1 o1 a1 by (simp add: inv_def pump_books pump_ops pump_alive)
  ultimately show ?thesis by (simp add: onWrite_def Let_def split: option.split)
qed

lemma ping_inv:
  assumes "inv s" and "PingWait (generation s) \<in> set (ops s)" and "timer_ok (PingWait (generation s)) e s"
  shows "inv (onPingTimer J e (generation s) (s\<lparr>ops := remove1 (PingWait (generation s)) (ops s)\<rparr>))"
proof -
  let ?g = "generation s" and ?x = "PingWait (generation s)"
  let ?s = "s\<lparr>ops := remove1 ?x (ops s)\<rparr>"
  have o: "ops_ok s" and b: "books_ok s" and a: "alive s" using assms(1) by (simp_all add: inv_def)
  note c = chain_0 [OF o assms(2), simplified]
  have o1: "ops_ok ?s" using o assms(2) by (intro take_ops) auto
  have c1: "chain (ops ?s) ?g = 0" using c(1) assms(2) by (simp add: chain_remove1)
  have n1: "count_list (ops ?s) ?x = 0" using single_count [OF o, of ?x ?g] by simp
  have post: "PostStart \<notin> set (ops s)" using ops_okD(9) [OF o] c(2) by (simp add: count_list_0_iff)
  have fail: "inv (handleError e ?g m ?s)" for m
    using b o1 c1 c(2) by (simp add: inv_def handleError_books handleError_ops handleError_alive)
  have rearm: "inv (start_op ?x s2)"
    if "ops_ok s2" "books_ok s2" "generation s2 = ?g" "chain (ops s2) ?g = 0" "count_list (ops s2) ?x = 0"
      "connected s2 \<or> reconnectScheduled s2 \<or> userClosed s2" for s2
    using that c(2) add_read_or_ping [of s2 ?x] by (auto simp: inv_def alive_def)
  have stop: "inv ?s" if "\<not> connected s \<or> userClosed s"
    using that b o1 a c(1) post by (auto simp: inv_def alive_def)
  consider (stop) "ec e \<noteq> None \<or> userClosed s"
    | (live) "ec e = None" "\<not> userClosed s" "connected s"
    | (idle) "ec e = None" "\<not> userClosed s" "\<not> connected s" by blast
  then show ?thesis
  proof cases
    case stop
    with assms(3) have "\<not> connected s \<or> userClosed s" by auto
    with stop \<open>\<not> connected s \<or> userClosed s \<Longrightarrow> inv ?s\<close> show ?thesis
      by (auto simp: onPingTimer_def)
  next
    case live
    have "ops (pump e (enqueueOp (ping_frame J) ?s)) = ops ?s
        \<or> ops (pump e (enqueueOp (ping_frame J) ?s)) = ops ?s @ [Write ?g]" by simp
    then have "inv (start_op ?x (pump e (enqueueOp (ping_frame J) ?s)))"
      using b o1 c1 n1 live by (intro rearm) (auto simp: pump_books pump_ops enqueue_books)
    with live fail show ?thesis by (simp add: onPingTimer_def Let_def)
  next
    case idle
    have "reconnectScheduled s"
      using a idle post c(1) by (simp add: alive_def)
    then have "inv (start_op ?x ?s)"
      using b o1 c1 n1 by (intro rearm) simp_all
    with idle show ?thesis by (simp add: onPingTimer_def)
  qed
qed

lemma reconnect_inv:
  assumes "inv s" and "ReconnectWait (generation s) \<in> set (ops s)"
    and "timer_ok (ReconnectWait (generation s)) e s"
  shows "inv (onReconnectTimer e (generation s)
    (s\<lparr>ops := remove1 (ReconnectWait (generation s)) (ops s)\<rparr>))"
proof -
  let ?s = "s\<lparr>ops := remove1 (ReconnectWait (generation s)) (ops s), reconnectScheduled := False\<rparr>"
  have o: "ops_ok s" and b: "books_ok s" using assms(1) by (simp_all add: inv_def)
  note r = take_reconnect [OF o assms(2)]
  have nc: "\<not> connected s" using b r(1) by (simp add: books_ok_def)
  have b1: "books_ok ?s" using b by (simp add: books_ok_def)
  have "1 \<le> generation s"
    using gens_ok_pos [OF ops_okD(1) [OF o] assms(2)] by simp
  then have "count_list (ops ?s) PostStart = 0"
    using ops_okD(9) [OF r(2)] by simp
  then have start: "inv (startConnect ?s)"
    using b1 r(2) nc by (simp add: inv_def startConnect_books startConnect_ops startConnect_alive)
  show ?thesis
  proof (cases "userClosed s")
    case True
    with b1 r(2) show ?thesis by (auto simp: onReconnectTimer_def Let_def inv_def alive_def startConnect_def)
  next
    case False
    with assms(3) have "ec e = None" by simp
    with False start show ?thesis by (simp add: onReconnectTimer_def Let_def)
  qed
qed

section \<open>Posted handlers, calls, and every step\<close>

lemma post_start_inv:
  assumes "inv s" and "PostStart \<in> set (ops s)"
  shows "inv (startConnect (s\<lparr>ops := remove1 PostStart (ops s)\<rparr>))"
proof -
  let ?s = "s\<lparr>ops := remove1 PostStart (ops s)\<rparr>"
  have o: "ops_ok s" and b: "books_ok s" using assms(1) by (simp_all add: inv_def)
  have n: "count_list (ops s) PostStart \<noteq> 0" using assms(2) by (simp add: count_list_0_iff)
  then have "generation s = 0" "count_list (ops s) PostStart \<le> 1"
    using ops_okD(9) [OF o] by (auto split: if_splits)
  moreover from this have "\<not> connected s" using ops_okD(6) [OF o] by auto
  moreover have "\<not> reconnectScheduled s"
    using ops_okD(8) [OF o] gens_ok_none [OF ops_okD(1) [OF o], of "ReconnectWait (generation s)"]
      \<open>generation s = 0\<close> by (simp split: if_splits)
  moreover have "ops_ok ?s" using o assms(2) by (intro take_ops) auto
  ultimately show ?thesis
    using b by (simp add: inv_def startConnect_books startConnect_ops startConnect_alive count_remove1)
qed

lemma close_inv:
  assumes "inv s" and "PostClose \<in> set (ops s)"
  shows "inv (closeByUser e (s\<lparr>ops := remove1 PostClose (ops s)\<rparr>))"
proof -
  let ?s = "s\<lparr>ops := remove1 PostClose (ops s)\<rparr>"
  have o: "ops_ok ?s" using assms by (intro take_ops) (auto simp: inv_def)
  have "ops_ok (?s\<lparr>userClosed := True\<rparr>)" using o by (simp add: ops_ok_def)
  moreover from this have "ops_ok (start_op AsyncClose (?s\<lparr>userClosed := True\<rparr>))"
    by (rule add_posted) simp
  moreover have "books_ok (?s\<lparr>userClosed := True\<rparr>)" using assms(1) by (simp add: inv_def books_ok_def)
  ultimately show ?thesis
    using assms(1) o by (auto simp: closeByUser_def Let_def inv_def alive_def)
qed

lemma add_topic_inv: "inv s \<Longrightarrow> inv (addTopic t s)"
  by (auto simp: addTopic_def inv_def books_ok_def)

lemma books_topics:
  assumes "books_ok s" and "distinct (subs @ pend)" and "subscriptions s = [] \<Longrightarrow> subs = []"
  shows "books_ok (s\<lparr>pendingTopics := pend, subscriptions := subs\<rparr>)"
  using assms by (simp add: books_ok_def)

lemma remove_topic_inv:
  assumes "inv s"
  shows "inv (snd (removeTopic t s))"
proof -
  have b: "books_ok s" and d: "distinct (subscriptions s @ pendingTopics s)"
    using assms by (simp_all add: inv_def books_ok_def)
  have "books_ok (s\<lparr>pendingTopics := removeAll t (pendingTopics s), subscriptions := remove1 t (subscriptions s)\<rparr>)"
    using b d set_remove1_subset [of t "subscriptions s"]
    by (intro books_topics) (auto simp: distinct_remove1 distinct_removeAll)
  moreover have "books_ok (s\<lparr>pendingTopics := removeAll t (pendingTopics s), subscriptions := subscriptions s\<rparr>)"
    using b d by (intro books_topics) (auto simp: distinct_removeAll)
  ultimately show ?thesis
    using assms by (simp add: removeTopic_def inv_def Let_def)
qed

lemma posted_inv:
  assumes "inv s" and "y = PostFlush \<or> y = PostUnsubscribe t \<or> y = PostClose"
  shows "inv (start_op y s)"
proof -
  have "ops_ok (start_op y s)"
    using assms by (intro add_posted [of _ _ t]) (auto simp: inv_def)
  with assms show ?thesis by (auto simp: inv_def alive_def)
qed

lemma take_posted_inv:
  assumes "inv s" and "x \<in> set (ops s)" and "op_gen x = None" and "x \<noteq> PostStart"
  shows "inv (s\<lparr>ops := remove1 x (ops s)\<rparr>)"
proof -
  have "chain [x] (generation s) = 0" using assms(3) by (cases x) simp_all
  moreover have "x \<noteq> Write (generation s)" "x \<noteq> ReconnectWait (generation s)" "x \<noteq> PingWait (generation s)"
    using assms(3) by auto
  ultimately show ?thesis
    using assms by (simp add: inv_def take_ops take_alive)
qed

lemma posted_unsubscribe_inv: "inv s \<Longrightarrow> inv (postedUnsubscribe J e t s)"
  by (auto simp: postedUnsubscribe_def inv_def pump_books pump_ops pump_alive enqueue_books)

lemma flush_inv: "inv s \<Longrightarrow> inv (flushTopics J e s)"
  by (simp add: inv_def flushTopics_books flushTopics_ops flushTopics_alive)

lemma complete_inv:
  assumes "inv s" and "x \<in> set (ops s)" and "timer_ok x e s"
  shows "inv (complete J e x s)"
proof (cases "\<exists>g. op_gen x = Some g \<and> g \<noteq> generation s")
  case True
  then obtain g where g: "op_gen x = Some g" "g \<noteq> generation s" by blast
  with stale_inv [OF assms(1,2)] have "inv (s\<lparr>ops := remove1 x (ops s)\<rparr>)" by blast
  with g show ?thesis
    by (cases x) (auto simp: complete_def guarded_def onPingTimer_def onReconnectTimer_def)
next
  case False
  note cur = False
  show ?thesis
  proof (cases x)
    case (Resolve g)
    with cur assms(1,2) show ?thesis
      using chain_fail_inv [of s x] chain_next_inv [of s x "TcpConnect g" "hostHeader s"]
      by (auto simp: complete_def guarded_def onResolve_def split: option.split)
  next
    case (TcpConnect g)
    with cur assms(1,2) show ?thesis
      using chain_fail_inv [of s x] chain_next_inv [of s x "TlsHandshake g"]
      by (auto simp: complete_def guarded_def onConnect_def split: option.split)
  next
    case (TlsHandshake g)
    with cur assms(1,2) show ?thesis
      using chain_fail_inv [of s x] chain_next_inv [of s x "WsHandshake g" "hostHeader s"]
      by (auto simp: complete_def guarded_def onSSLHandshake_def split: option.split)
  next
    case (WsHandshake g)
    with cur assms(1,2) show ?thesis by (simp add: complete_def guarded_def handshake_inv)
  next
    case (Read g)
    with cur assms(1,2) show ?thesis by (simp add: complete_def guarded_def read_inv)
  next
    case (Write g)
    with cur assms(1,2) show ?thesis by (simp add: complete_def guarded_def write_inv)
  next
    case (PingWait g)
    with cur assms show ?thesis by (simp add: complete_def ping_inv del: timer_ok.simps)
  next
    case (ReconnectWait g)
    with cur assms show ?thesis by (simp add: complete_def reconnect_inv del: timer_ok.simps)
  next
    case AsyncClose
    with assms(1,2) take_posted_inv [of s x] show ?thesis
      by (auto simp: complete_def onAsyncClose_def inv_def split: option.split)
  next
    case PostStart
    with assms(1,2) show ?thesis by (simp add: complete_def post_start_inv)
  next
    case PostFlush
    with assms(1,2) take_posted_inv [of s x] show ?thesis by (simp add: complete_def flush_inv)
  next
    case (PostUnsubscribe t)
    with assms(1,2) take_posted_inv [of s x] show ?thesis
      by (simp add: complete_def posted_unsubscribe_inv)
  next
    case PostClose
    with assms(1,2) show ?thesis by (simp add: complete_def close_inv)
  qed
qed

lemma wstep_inv: "wstep J s s' \<Longrightarrow> inv s \<Longrightarrow> inv s'"
proof (induction rule: wstep.induct)
  case (pong_frame s e)
  then show ?case by (simp add: onPongFrame_def inv_def) (simp add: books_ok_def)
next
  case (call_unsubscribe s t)
  then show ?case
    using remove_topic_inv [of s t] posted_inv [of "snd (removeTopic t s)" "PostUnsubscribe t" t]
    by (auto simp: unsubscribe_def split: prod.split)
qed (simp_all add: complete_inv subscribe_def close_def posted_inv add_topic_inv)

lemma made_inv: "run h p pth t cb (made logger cred) = Inr s \<Longrightarrow> inv s"
  by (auto simp: run_def made_def fresh_session_def setCredentials_def addTopic_def start_op_def inv_def
      books_ok_def ops_ok_def alive_def gens_ok_def single_ok_def chain_def delays_def
      split: if_splits option.splits prod.splits)

theorem reachable_inv: "reachable J s \<Longrightarrow> inv s"
  by (induction rule: reachable.induct) (auto simp: made_inv intro: wstep_inv)

end
