(* ===== verification/Mini_Json.thy ===== *)
theory Mini_Json
  imports Json_Ops Decimals "HOL-Library.AList"
begin

text \<open>
  One concrete instance of the JSON parameters, \<open>mini parse\<close>: a JSON value type, its members,
  and readers that do what their names document. Parsing stays an argument, a table of texts.
  It is used only to apply theorems about the parameters at concrete inputs.
\<close>

datatype json =
    JNull
  | JBool bool
  | JInt int
  | JStr string
  | JArr "json list"
  | JObj "(string \<times> json) list"

fun mini_find :: "json \<Rightarrow> string \<Rightarrow> json option" where
  "mini_find (JObj kvs) k = map_of kvs k"
| "mini_find _ k = None"

fun mini_items :: "json \<Rightarrow> json list" where
  "mini_items (JArr js) = js"
| "mini_items (JObj kvs) = map snd kvs"
| "mini_items _ = []"

fun mini_set :: "json \<Rightarrow> string \<Rightarrow> json \<Rightarrow> json" where
  "mini_set (JObj kvs) k v = JObj (AList.update k v kvs)"
| "mini_set _ k v = JObj [(k, v)]"

fun mini_string :: "json \<Rightarrow> string res" where
  "mini_string (JStr s) = Inr s"
| "mini_string _ = Inl (JsonException ''type must be string'')"

text \<open>A member of the wanted kind, or else the value the out parameter had.\<close>

definition mini_read :: "(json \<Rightarrow> 'a option) \<Rightarrow> json \<Rightarrow> string \<Rightarrow> 'a \<Rightarrow> (bool \<times> 'a) res" where
  "mini_read f j k v =
     (case mini_find j k of None \<Rightarrow> Inr (False, v)
      | Some w \<Rightarrow> (case f w of None \<Rightarrow> Inr (False, v) | Some x \<Rightarrow> Inr (True, x)))"

fun as_string :: "json \<Rightarrow> string option" where
  "as_string (JStr s) = Some s" | "as_string _ = None"

fun as_int :: "json \<Rightarrow> int option" where
  "as_int (JInt i) = Some i" | "as_int _ = None"

fun as_bool :: "json \<Rightarrow> bool option" where
  "as_bool (JBool b) = Some b" | "as_bool _ = None"

definition as_enum :: "(string \<times> 'a) list \<Rightarrow> json \<Rightarrow> 'a option" where
  "as_enum names j = (case as_string j of None \<Rightarrow> None | Some s \<Rightarrow> map_of names s)"

text \<open>Decimal strings are read as integers here, enough for the concrete inputs.\<close>

definition mini_num :: "string \<Rightarrow> int option" where
  "mini_num s = (case stoll s of Inl _ \<Rightarrow> None | Inr i \<Rightarrow> Some i)"

definition mini_num_read :: "(int \<Rightarrow> 'a) \<Rightarrow> json \<Rightarrow> string \<Rightarrow> 'a \<Rightarrow> 'a res" where
  "mini_num_read f j k v =
     (case mini_find j k of Some (JStr s) \<Rightarrow>
        (case mini_num s of None \<Rightarrow> Inr v | Some i \<Rightarrow> Inr (f i)) | _ \<Rightarrow> Inr v)"

fun mini_dump :: "json \<Rightarrow> string" where
  "mini_dump JNull = ''null''"
| "mini_dump (JBool b) = (if b then ''true'' else ''false'')"
| "mini_dump (JInt i) = int_to_string i"
| "mini_dump (JStr s) = CHR 0x22 # s @ [CHR 0x22]"
| "mini_dump (JArr js) = ''['' @ concat (map (\<lambda>j. mini_dump j @ '','') js) @ '']''"
| "mini_dump (JObj kvs) = ''{'' @ concat (map (\<lambda>(k, v). k @ '':'' @ mini_dump v @ '','') kvs) @ ''}''"

definition mini :: "(string \<Rightarrow> json option) \<Rightarrow> json jops" where
  "mini parse = \<lparr>
     j_parse = (\<lambda>s. case parse s of None \<Rightarrow> Inl (JsonException ''parse error'') | Some j \<Rightarrow> Inr j),
     j_dump = mini_dump, j_dump_error = (\<lambda>_. None),
     j_is_object = (\<lambda>j. case j of JObj _ \<Rightarrow> True | _ \<Rightarrow> False),
     j_is_array = (\<lambda>j. case j of JArr _ \<Rightarrow> True | _ \<Rightarrow> False),
     j_is_string = (\<lambda>j. case j of JStr _ \<Rightarrow> True | _ \<Rightarrow> False),
     j_is_null = (\<lambda>j. j = JNull),
     j_find = mini_find,
     j_at = (\<lambda>j k. case mini_find j k of None \<Rightarrow> Inr JNull | Some v \<Rightarrow> Inr v),
     j_idx = (\<lambda>j n. case j of JArr js \<Rightarrow>
         if n < length js then Inr (js ! n) else Inl (JsonException ''index'')
       | _ \<Rightarrow> Inl (JsonException ''type must be array'')),
     j_items = mini_items,
     j_size = (\<lambda>j. length (mini_items j)),
     j_get_string = mini_string,
     j_str = JStr, j_bool = JBool, j_int = JInt, j_arr = JArr, j_obj = JObj,
     j_set = mini_set, j_null = JNull,
     readString = mini_read as_string,
     readInt = mini_read as_int,
     readInt64 = mini_read as_int,
     readBool = mini_read as_bool,
     readSide = mini_read (as_enum [(''Buy'', Buy), (''Sell'', Sell)]),
     readCategory = mini_read (as_enum [(''spot'', spot), (''linear'', linear)]),
     readAccountType = mini_read (as_enum []),
     readPositionStatus = mini_read (as_enum []),
     readTpSlMode = mini_read (as_enum []),
     readContractType = mini_read (as_enum []),
     readContractStatus = mini_read (as_enum []),
     readOrderType = mini_read (as_enum [(''Limit'', Limit), (''Market'', Market)]),
     readOrderStatus = mini_read (as_enum [(''New'', New), (''Filled'', Filled), (''Cancelled'', Cancelled)]),
     readTimeInForce = mini_read (as_enum []),
     readTriggerPriceType = mini_read (as_enum []),
     readExecType = mini_read (as_enum [(''Trade'', Trade), (''Funding'', Funding)]),
     readResponseType = mini_read (as_enum [(''snapshot'', snapshot), (''delta'', delta)]),
     readStringAsDouble = mini_num_read of_int,
     readStringAsInt64 = mini_num_read (\<lambda>i. i),
     readStringAsInt64Dflt = (\<lambda>j k. mini_num_read (\<lambda>i. i) j k 0),
     readStringAsInt = mini_num_read (\<lambda>i. i),
     stod = (\<lambda>s. case mini_num s of None \<Rightarrow> Inl (InvalidArgument ''stod'') | Some i \<Rightarrow> Inr (of_int i)),
     dec_assign = (\<lambda>s. case mini_num s of None \<Rightarrow> Inl (RuntimeError ''assign'') | Some i \<Rightarrow> Inr (of_int i)),
     formatDouble = (\<lambda>places x. int_to_string (floor x)),
     double_to_string = (\<lambda>x. int_to_string (floor x))\<rparr>"

lemma mini_simps [simp]:
  "j_parse (mini p) = (\<lambda>s. case p s of None \<Rightarrow> Inl (JsonException ''parse error'') | Some j \<Rightarrow> Inr j)"
  "j_is_object (mini p) (JObj kvs)" "j_find (mini p) = mini_find"
  "readString (mini p) = mini_read as_string" "readBool (mini p) = mini_read as_bool"
  "j_items (mini p) = mini_items"
  by (simp_all add: mini_def)

end
