(* ===== verification/Ws_Session_Spec.thy ===== *)
theory Ws_Session_Spec
  imports Ws_Session_Props Mini_Json
begin

text \<open>
  What the session promises: which topics it keeps and replays, when a topic counts as confirmed,
  that it reads and writes one frame at a time, keeps trying to connect, backs off, and stops
  when closed.
\<close>

section \<open>Topics through a handler\<close>

lemma isSubscribed_upd [simp]:
  "isSubscribed t (host_update f0 s) = isSubscribed t s"
  "isSubscribed t (port_update f1 s) = isSubscribed t s"
  "isSubscribed t (path_update f2 s) = isSubscribed t s"
  "isSubscribed t (hostHeader_update f3 s) = isSubscribed t s"
  "isSubscribed t (apiKey_update f4 s) = isSubscribed t s"
  "isSubscribed t (apiSecret_update f5 s) = isSubscribed t s"
  "isSubscribed t (authRequired_update f6 s) = isSubscribed t s"
  "isSubscribed t (logMessageCB_update f7 s) = isSubscribed t s"
  "isSubscribed t (dataEventCB_update f8 s) = isSubscribed t s"
  "isSubscribed t (outboundQueue_update f9 s) = isSubscribed t s"
  "isSubscribed t (writeInFlight_update f10 s) = isSubscribed t s"
  "isSubscribed t (writeBuffer_update f11 s) = isSubscribed t s"
  "isSubscribed t (inflightSubscribes_update f12 s) = isSubscribed t s"
  "isSubscribed t (reqIdCounter_update f13 s) = isSubscribed t s"
  "isSubscribed t (reconnectDelayS_update f14 s) = isSubscribed t s"
  "isSubscribed t (generation_update f15 s) = isSubscribed t s"
  "isSubscribed t (connected_update f16 s) = isSubscribed t s"
  "isSubscribed t (authenticated_update f17 s) = isSubscribed t s"
  "isSubscribed t (authenticatedFlag_update f18 s) = isSubscribed t s"
  "isSubscribed t (reconnectScheduled_update f19 s) = isSubscribed t s"
  "isSubscribed t (userClosed_update f20 s) = isSubscribed t s"
  "isSubscribed t (lastPongTime_update f21 s) = isSubscribed t s"
  "isSubscribed t (authDeadline_update f22 s) = isSubscribed t s"
  "isSubscribed t (ws_update f23 s) = isSubscribed t s"
  "isSubscribed t (ops_update f24 s) = isSubscribed t s"
  "isSubscribed t (sent_update f25 s) = isSubscribed t s"
  "isSubscribed t (logs_update f26 s) = isSubscribed t s"
  "isSubscribed t (delivered_update f27 s) = isSubscribed t s"
  "isSubscribed t (escaped_update f28 s) = isSubscribed t s"
  by (simp_all add: isSubscribed_def)

lemma isSubscribed_frame [simp]:
  "isSubscribed t (log_line v m s) = isSubscribed t s"
  "isSubscribed t (start_op x s) = isSubscribed t s"
  "isSubscribed t (enqueueOp p s) = isSubscribed t s"
  "isSubscribed t (pump e s) = isSubscribed t s"
  "isSubscribed t (sendAuth J e s) = isSubscribed t s"
  "isSubscribed t (deliver J e j s) = isSubscribed t s"
  by (simp_all add: isSubscribed_def)

lemma isSubscribed_moves [simp]:
  "isSubscribed t (flushTopics J e s) = isSubscribed t s"
  "isSubscribed t (handleError e g m s) = isSubscribed t s"
  "isSubscribed t (startConnect s) = isSubscribed t s"
  by (auto simp: isSubscribed_def flushTopics_def handleError_def startConnect_def Let_def)

lemma prune_other: "t \<notin> set ts \<Longrightarrow> t \<in> set (prune ts subs) \<longleftrightarrow> t \<in> set subs"
  unfolding prune_def by (induction ts arbitrary: subs) auto

lemma processMessage_lost:
  assumes "processMessage J e g s = Inr s'" and "isSubscribed t s" and "\<not> isSubscribed t s'"
  shows "\<exists>reqId key. ack_of J e = Some (False, reqId) \<and>
    answered_op reqId (inflightSubscribes s) = Inr (Some key) \<and>
    t \<in> set (the (map_of (inflightSubscribes s) key))"
  using assms(1)
proof (cases rule: processMessage_cases)
  case (ack success ret_msg reqId)
  from ack(2) show ?thesis
  proof (cases rule: handleSubscribeAck_cases)
    case (rejected key m)
    then have "t \<in> set (the (map_of (inflightSubscribes s) key))"
      using assms(2,3) prune_other [of t "the (map_of (inflightSubscribes s) key)" "subscriptions s"]
      by (auto simp: isSubscribed_def)
    with rejected ack(1) show ?thesis by auto
  qed (use assms(2,3) in auto)
qed (use assms(2,3) in auto)

lemma onRead_lost:
  assumes "isSubscribed t s" and "\<not> isSubscribed t (onRead J e g s)"
  shows "ec e = None \<and> (\<exists>reqId key. ack_of J e = Some (False, reqId) \<and>
    answered_op reqId (inflightSubscribes s) = Inr (Some key) \<and>
    t \<in> set (the (map_of (inflightSubscribes s) key)))"
proof (cases "ec e")
  case None
  show ?thesis
  proof (cases "processMessage J e g s")
    case (Inl x)
    with assms None show ?thesis by (cases x) (auto simp: onRead_def)
  next
    case (Inr s')
    with assms None have "\<not> isSubscribed t (rearmRead g s')" by (simp add: onRead_def)
    then have "\<not> isSubscribed t s'"
      by (auto simp: rearmRead_def Let_def split: if_splits)
    with processMessage_lost [OF Inr assms(1)] None show ?thesis by simp
  qed
qed (use assms in \<open>simp add: onRead_def\<close>)

lemma complete_lost:
  assumes "isSubscribed t s" and "\<not> isSubscribed t (complete J e x s)"
  shows "x = Read (generation s)"
  using assms
  by (cases x) (auto simp: complete_def guarded_def onResolve_def onConnect_def onSSLHandshake_def
      onHandshake_def onWrite_def onPingTimer_def onReconnectTimer_def onAsyncClose_def
      postedUnsubscribe_def closeByUser_def Let_def split: if_splits option.splits)

section \<open>Confirmation through a handler\<close>

lemma confirmed_upd [simp]:
  "isSubscriptionConfirmed t (host_update f0 s) = isSubscriptionConfirmed t s"
  "isSubscriptionConfirmed t (port_update f1 s) = isSubscriptionConfirmed t s"
  "isSubscriptionConfirmed t (path_update f2 s) = isSubscriptionConfirmed t s"
  "isSubscriptionConfirmed t (hostHeader_update f3 s) = isSubscriptionConfirmed t s"
  "isSubscriptionConfirmed t (apiKey_update f4 s) = isSubscriptionConfirmed t s"
  "isSubscriptionConfirmed t (apiSecret_update f5 s) = isSubscriptionConfirmed t s"
  "isSubscriptionConfirmed t (authRequired_update f6 s) = isSubscriptionConfirmed t s"
  "isSubscriptionConfirmed t (logMessageCB_update f7 s) = isSubscriptionConfirmed t s"
  "isSubscriptionConfirmed t (dataEventCB_update f8 s) = isSubscriptionConfirmed t s"
  "isSubscriptionConfirmed t (outboundQueue_update f9 s) = isSubscriptionConfirmed t s"
  "isSubscriptionConfirmed t (writeInFlight_update f10 s) = isSubscriptionConfirmed t s"
  "isSubscriptionConfirmed t (writeBuffer_update f11 s) = isSubscriptionConfirmed t s"
  "isSubscriptionConfirmed t (pendingTopics_update f12 s) = isSubscriptionConfirmed t s"
  "isSubscriptionConfirmed t (reqIdCounter_update f13 s) = isSubscriptionConfirmed t s"
  "isSubscriptionConfirmed t (reconnectDelayS_update f14 s) = isSubscriptionConfirmed t s"
  "isSubscriptionConfirmed t (generation_update f15 s) = isSubscriptionConfirmed t s"
  "isSubscriptionConfirmed t (connected_update f16 s) = isSubscriptionConfirmed t s"
  "isSubscriptionConfirmed t (authenticated_update f17 s) = isSubscriptionConfirmed t s"
  "isSubscriptionConfirmed t (authenticatedFlag_update f18 s) = isSubscriptionConfirmed t s"
  "isSubscriptionConfirmed t (reconnectScheduled_update f19 s) = isSubscriptionConfirmed t s"
  "isSubscriptionConfirmed t (userClosed_update f20 s) = isSubscriptionConfirmed t s"
  "isSubscriptionConfirmed t (lastPongTime_update f21 s) = isSubscriptionConfirmed t s"
  "isSubscriptionConfirmed t (authDeadline_update f22 s) = isSubscriptionConfirmed t s"
  "isSubscriptionConfirmed t (ws_update f23 s) = isSubscriptionConfirmed t s"
  "isSubscriptionConfirmed t (ops_update f24 s) = isSubscriptionConfirmed t s"
  "isSubscriptionConfirmed t (sent_update f25 s) = isSubscriptionConfirmed t s"
  "isSubscriptionConfirmed t (logs_update f26 s) = isSubscriptionConfirmed t s"
  "isSubscriptionConfirmed t (delivered_update f27 s) = isSubscriptionConfirmed t s"
  "isSubscriptionConfirmed t (escaped_update f28 s) = isSubscriptionConfirmed t s"
  by (simp_all add: isSubscriptionConfirmed_def)

lemma confirmed_frame [simp]:
  "isSubscriptionConfirmed t (log_line v m s) = isSubscriptionConfirmed t s"
  "isSubscriptionConfirmed t (start_op x s) = isSubscriptionConfirmed t s"
  "isSubscriptionConfirmed t (enqueueOp p s) = isSubscriptionConfirmed t s"
  "isSubscriptionConfirmed t (pump e s) = isSubscriptionConfirmed t s"
  "isSubscriptionConfirmed t (sendAuth J e s) = isSubscriptionConfirmed t s"
  "isSubscriptionConfirmed t (deliver J e j s) = isSubscriptionConfirmed t s"
  "isSubscriptionConfirmed t (startConnect s) = isSubscriptionConfirmed t s"
  by (simp_all add: isSubscriptionConfirmed_def startConnect_def Let_def)

lemma confirmed_handleError: "isSubscriptionConfirmed t (handleError e g m s) \<Longrightarrow> isSubscriptionConfirmed t s"
  by (auto simp: isSubscriptionConfirmed_def handleError_def Let_def split: if_splits)

lemma ids_ok_fresh:
  assumes "ids_ok inflight n"
  shows "nat_to_string (Suc n) \<notin> set (map fst inflight)"
proof -
  obtain ns where ns: "map fst inflight = map nat_to_string ns" "\<forall>k \<in> set ns. k \<le> n"
    using assms unfolding ids_ok_def by blast
  show ?thesis unfolding ns(1) using ns(2) by auto
qed

lemma ids_ok_distinct:
  assumes "ids_ok inflight n"
  shows "distinct (map fst inflight)"
proof -
  obtain ns where ns: "map fst inflight = map nat_to_string ns" "sorted_wrt (<) ns"
    using assms unfolding ids_ok_def by blast
  then show ?thesis unfolding ns(1) by (simp add: distinct_map inj_on_def strict_sorted_iff)
qed

lemma update_fresh: "k \<notin> set (map fst al) \<Longrightarrow> AList.update k v al = al @ [(k, v)]"
  by (induction al) auto

lemma confirmed_flush:
  assumes "ids_ok (inflightSubscribes s) (reqIdCounter s)" and "isSubscriptionConfirmed t (flushTopics J e s)"
  shows "isSubscriptionConfirmed t s"
proof -
  have "nat_to_string (Suc (reqIdCounter s)) \<notin> set (map fst (inflightSubscribes s))"
    using assms(1) by (rule ids_ok_fresh)
  then show ?thesis
    using assms(2)
    by (auto simp: flushTopics_def Let_def update_fresh isSubscriptionConfirmed_def split: if_splits)
qed

lemma delete_list_all:
  assumes "distinct (map fst al)" and "list_all P (AList.delete k al)"
    and "\<And>v. map_of al k = Some v \<Longrightarrow> P (k, v)"
  shows "list_all P al"
  unfolding list_all_iff
proof
  fix x assume x: "x \<in> set al"
  show "P x"
  proof (cases "fst x = k")
    case True
    with x assms(1) have "map_of al k = Some (snd x)" by (metis map_of_is_SomeI prod.collapse)
    with assms(3) True show ?thesis by (metis prod.collapse)
  next
    case False
    with x have "x \<in> set (AList.delete k al)" by (simp add: AList.delete_eq split_beta)
    with assms(2) show ?thesis by (simp add: list_all_iff)
  qed
qed

lemma oldest_in: "oldest_op k ks = Inr key \<Longrightarrow> key \<in> insert k (set ks)"
proof (induction k ks rule: oldest_op.induct)
  case (2 k k' ks)
  then obtain n' n where "stoull k' = Inr n'" "stoull k = Inr n"
    "oldest_op (if n' < n then k' else k) ks = Inr key" by (auto simp: bindR_eq_Inr)
  with "2.IH" [of n' n] show ?case by (auto split: if_splits)
qed simp

lemma answered_in:
  assumes "answered_op reqId inflight = Inr (Some key)"
  shows "key \<in> set (map fst inflight)"
proof (cases "reqId \<in> fst ` set inflight")
  case True
  with assms show ?thesis by (simp add: answered_op_def)
next
  case False
  with assms obtain k ks where "map fst inflight = k # ks" "oldest_op k ks = Inr key"
    by (auto simp: answered_op_def bindR_eq_Inr split: if_splits list.splits)
  with oldest_in show ?thesis by fastforce
qed

lemma ack_confirms:
  assumes "handleSubscribeAck success ret_msg reqId s = Inr s'" and "books_ok s"
    and "\<not> isSubscriptionConfirmed t s" and "isSubscriptionConfirmed t s'"
  shows "success \<and> (\<exists>key. answered_op reqId (inflightSubscribes s) = Inr (Some key) \<and>
    t \<in> set (the (map_of (inflightSubscribes s) key)))"
proof -
  have d: "distinct (map fst (inflightSubscribes s))"
    using assms(2) by (intro ids_ok_distinct [of _ "reqIdCounter s"]) (simp add: books_ok_def)
  have sub: "t \<in> set (prune ts (subscriptions s)) \<Longrightarrow> t \<in> set (subscriptions s) \<and> t \<notin> set ts" for ts
    using assms(2) by (simp add: books_ok_def prune_distinct)
  have conf: "isSubscriptionConfirmed t s"
    if "t \<in> set (subscriptions s)" "t \<notin> set (the (map_of (inflightSubscribes s) key))"
      "list_all (\<lambda>(_, topics). t \<notin> set topics) (AList.delete key (inflightSubscribes s))" for key
  proof -
    have "list_all (\<lambda>(_, topics). t \<notin> set topics) (inflightSubscribes s)"
      using that(2) by (intro delete_list_all [OF d that(3)]) auto
    with that(1) show ?thesis by (simp add: isSubscriptionConfirmed_def)
  qed
  from assms(1) show ?thesis
  proof (cases rule: handleSubscribeAck_cases)
    case none
    with assms(3,4) show ?thesis by auto
  next
    case (confirmed key)
    with assms(3,4) conf [of key]
    show ?thesis by (auto simp: isSubscriptionConfirmed_def [of _ "inflightSubscribes_update _ _"])
  next
    case (rejected key m)
    with assms(4) sub have "isSubscriptionConfirmed t s"
      by (intro conf [of key])
        (auto simp: isSubscriptionConfirmed_def [of _ "inflightSubscribes_update _ _"])
    with assms(3) show ?thesis by simp
  qed
qed

lemma processMessage_confirms:
  assumes "processMessage J e g s = Inr s'" and "books_ok s"
    and "\<not> isSubscriptionConfirmed t s" and "isSubscriptionConfirmed t s'"
  shows "\<exists>reqId key. ack_of J e = Some (True, reqId) \<and>
    answered_op reqId (inflightSubscribes s) = Inr (Some key) \<and>
    t \<in> set (the (map_of (inflightSubscribes s) key))"
  using assms(1)
proof (cases rule: processMessage_cases)
  case auth_ok
  let ?s = "log_line Info ''Bybit WS authenticated''
    (s\<lparr>authenticated := True, authenticatedFlag := True, authDeadline := None, reconnectDelayS := 1\<rparr>)"
  have "isSubscriptionConfirmed t ?s"
    using assms(2,4) auth_ok by (intro confirmed_flush [of ?s t J e]) (simp_all add: books_ok_def)
  with assms(3) show ?thesis by simp
next
  case (auth_failed m)
  with assms(3,4) confirmed_handleError show ?thesis by blast
next
  case (ack success ret_msg reqId)
  with ack_confirms [OF ack(2) assms(2-4)] show ?thesis by auto
qed (use assms(3,4) in auto)

lemma onRead_confirms:
  assumes "books_ok s" and "\<not> isSubscriptionConfirmed t s" and "isSubscriptionConfirmed t (onRead J e g s)"
  shows "ec e = None \<and> (\<exists>reqId key. ack_of J e = Some (True, reqId) \<and>
    answered_op reqId (inflightSubscribes s) = Inr (Some key) \<and>
    t \<in> set (the (map_of (inflightSubscribes s) key)))"
proof (cases "ec e")
  case None
  show ?thesis
  proof (cases "processMessage J e g s")
    case (Inl x)
    with assms None confirmed_handleError show ?thesis by (cases x) (fastforce simp: onRead_def)+
  next
    case (Inr s')
    with assms None have "isSubscriptionConfirmed t (rearmRead g s')" by (simp add: onRead_def)
    then have "isSubscriptionConfirmed t s'" by (auto simp: rearmRead_def Let_def split: if_splits)
    with processMessage_confirms [OF Inr assms(1,2)] None show ?thesis by simp
  qed
next
  case (Some m)
  with assms confirmed_handleError show ?thesis by (fastforce simp: onRead_def)
qed

lemma complete_confirms:
  assumes "books_ok s" and "\<not> isSubscriptionConfirmed t s" and "isSubscriptionConfirmed t (complete J e x s)"
  shows "x = Read (generation s)"
proof (rule ccontr)
  assume x: "x \<noteq> Read (generation s)"
  let ?s = "s\<lparr>ops := remove1 x (ops s)\<rparr>"
  have ids: "ids_ok (inflightSubscribes s) (reqIdCounter s)" using assms(1) by (simp add: books_ok_def)
  have hs: "isSubscriptionConfirmed t s"
    if "isSubscriptionConfirmed t (onHandshake J e g ?s)" for g
    using that ids confirmed_handleError [of t e _ _ ?s]
      confirmed_flush [of "start_op (PingWait g) (?s\<lparr>connected := True, lastPongTime := steady e\<rparr>)" t J e]
    by (auto simp: onHandshake_def Let_def split: if_splits option.splits)
  have hs2: "isSubscriptionConfirmed t s"
    if "isSubscriptionConfirmed t (flushTopics J e ?s)"
    using confirmed_flush [OF _ that] ids by simp
  show False
    using assms(2,3) x confirmed_handleError [of t e _ _ ?s]
      confirmed_handleError [of t e _ _ "?s\<lparr>writeInFlight := False\<rparr>"] hs hs2
    by (cases x) (auto simp: complete_def guarded_def onResolve_def onConnect_def onSSLHandshake_def
      onWrite_def onPingTimer_def onReconnectTimer_def onAsyncClose_def
      postedUnsubscribe_def closeByUser_def Let_def split: if_splits option.splits)
qed

section \<open>Properties: topics\<close>

lemma unsubscribe_other: "u \<noteq> t \<Longrightarrow> isSubscribed t (unsubscribe u s) = isSubscribed t s"
  by (auto simp: unsubscribe_def removeTopic_def Let_def isSubscribed_def)

lemma unsubscribe_confirms: "isSubscriptionConfirmed t (unsubscribe u s) \<Longrightarrow> isSubscriptionConfirmed t s"
  by (auto simp: unsubscribe_def removeTopic_def Let_def isSubscriptionConfirmed_def
      split: if_splits dest!: subsetD [OF set_remove1_subset])

text \<open>
  C7. A subscribed topic (sent or pending) is lost only when the client unsubscribes it, or when
  the venue's negative subscribe ack is attributed to an op that carried it. Every error,
  reconnect, authentication, flush, close or stale completion keeps it.
\<close>

theorem topic_lost_only_when_told:
  assumes "wstep J s s'" and "isSubscribed t s" and "\<not> isSubscribed t s'"
  shows "s' = unsubscribe t s \<or>
    (\<exists>e reqId key. s' = complete J e (Read (generation s)) s \<and> ec e = None \<and>
       ack_of J e = Some (False, reqId) \<and>
       answered_op reqId (inflightSubscribes s) = Inr (Some key) \<and>
       t \<in> set (the (map_of (inflightSubscribes s) key)))"
  using assms(1)
proof (cases rule: wstep.cases)
  case (completion x e)
  then have x: "x = Read (generation s)" using complete_lost assms(2,3) by blast
  let ?s = "s\<lparr>ops := remove1 x (ops s)\<rparr>"
  have "\<not> isSubscribed t (onRead J e (generation s) ?s)"
    using assms(3) completion x by (simp add: complete_def guarded_def)
  with onRead_lost [of t ?s J e "generation s"] assms(2) completion x show ?thesis by auto
next
  case (call_unsubscribe u)
  with assms(2,3) unsubscribe_other [of u t s] show ?thesis by (cases "u = t") auto
qed (use assms(2,3) in \<open>auto simp: onPongFrame_def subscribe_def addTopic_def close_def isSubscribed_def split: if_splits\<close>)

text \<open>
  C8. A topic becomes confirmed only by a positive subscribe ack, read on the current connection
  and attributed to an op in flight that carried the topic.
\<close>

theorem confirmed_only_by_ack:
  assumes "reachable J s" and "wstep J s s'"
    and "\<not> isSubscriptionConfirmed t s" and "isSubscriptionConfirmed t s'"
  shows "\<exists>e reqId key. s' = complete J e (Read (generation s)) s \<and> ec e = None \<and>
       ack_of J e = Some (True, reqId) \<and>
       answered_op reqId (inflightSubscribes s) = Inr (Some key) \<and>
       t \<in> set (the (map_of (inflightSubscribes s) key))"
proof -
  have b: "books_ok s" using reachable_inv [OF assms(1)] by (simp add: inv_def)
  from assms(2) show ?thesis
  proof (cases rule: wstep.cases)
    case (completion x e)
    then have x: "x = Read (generation s)" using complete_confirms [OF b] assms(3,4) by blast
    let ?s = "s\<lparr>ops := remove1 x (ops s)\<rparr>"
    have "isSubscriptionConfirmed t (onRead J e (generation s) ?s)"
      using assms(4) completion x by (simp add: complete_def guarded_def)
    with onRead_confirms [of ?s t J e "generation s"] b assms(3) completion x show ?thesis by auto
  next
    case (call_unsubscribe u)
    with assms(3,4) unsubscribe_confirms show ?thesis by blast
  qed (use assms(3,4) in \<open>auto simp: onPongFrame_def subscribe_def addTopic_def close_def split: if_splits\<close>)
qed

text \<open>
  C20. A confirmed topic has a live connection behind it: the session is connected, no reconnect
  is pending, and with credentials the connection is authenticated. No topic is in both books
  or twice in one.
\<close>

theorem confirmed_means_live:
  assumes "reachable J s"
  shows "distinct (subscriptions s @ pendingTopics s) \<and>
    (isSubscriptionConfirmed t s \<longrightarrow> isSubscribed t s \<and> connected s \<and> \<not> reconnectScheduled s \<and>
      (apiKey s \<noteq> [] \<and> apiSecret s \<noteq> [] \<longrightarrow> isAuthenticated s))"
  using reachable_inv [OF assms]
  by (auto simp: inv_def books_ok_def isSubscriptionConfirmed_def isSubscribed_def isAuthenticated_def)

text \<open>
  C27. A request id in an ack is looked up; an ack without one answers the op sent first among
  those in flight, and an ack with an unknown id answers none. Reading the ids as numbers never
  throws.
\<close>

theorem ack_attribution:
  assumes "reachable J s" and "int (reqIdCounter s) \<le> UINT64_MAX"
  shows "answered_op reqId (inflightSubscribes s) =
    Inr (if reqId \<in> set (map fst (inflightSubscribes s)) then Some reqId
         else if reqId = [] then
           (case inflightSubscribes s of [] \<Rightarrow> None | (k, _) # _ \<Rightarrow> Some k)
         else None)"
proof -
  obtain ns where ns: "map fst (inflightSubscribes s) = map nat_to_string ns" "sorted_wrt (<) ns"
    "\<forall>k \<in> set ns. k \<le> reqIdCounter s"
    using reachable_inv [OF assms(1)] by (auto simp: inv_def books_ok_def ids_ok_def)
  have read: "stoull (nat_to_string k) = Inr (int k)" if "k \<in> set ns" for k
    using that ns(3) assms(2) by (intro stoull_nat_to_string) force
  have first: "oldest_op (nat_to_string k) (map nat_to_string ks) = Inr (nat_to_string k)"
    if "k \<in> set ns" "set ks \<subseteq> set ns" "\<forall>j \<in> set ks. k < j" for k ks
    using that
  proof (induction ks)
    case (Cons j ks)
    have "\<not> int j < int k" using Cons.prems(3) by simp
    with Cons read [of j] read [of k] show ?case by simp
  qed simp
  show ?thesis
  proof (cases ns)
    case Nil
    with ns(1) show ?thesis by (simp add: answered_op_def)
  next
    case (Cons k ks)
    then have "oldest_op (nat_to_string k) (map nat_to_string ks) = Inr (nat_to_string k)"
      using ns(2) by (intro first) auto
    moreover obtain v rest where "inflightSubscribes s = (nat_to_string k, v) # rest"
      "map fst rest = map nat_to_string ks"
      using ns(1) Cons by (cases "inflightSubscribes s") auto
    ultimately have "inflightSubscribes s = (nat_to_string k, v) # rest"
      "oldest_op (nat_to_string k) (map fst rest) = Inr (nat_to_string k)" by simp_all
    then show ?thesis by (simp add: answered_op_def)
  qed
qed

lemma pump_written:
  "\<exists>written. sent (pump e s) = sent s @ map (Pair (generation s)) written \<and> length written \<le> 1 \<and>
     written @ outboundQueue (pump e s) = outboundQueue s"
proof (cases "writes e s")
  case True
  then have "outboundQueue s \<noteq> []" by (simp add: writes_def)
  with True show ?thesis by (intro exI [of _ "[hd (outboundQueue s)]"]) simp
qed simp

text \<open>
  Flushing, once the connection is up and authenticated where it must be, requests all
  pending topics in one op: they move in order behind the subscribed ones, the op is in flight
  under a fresh request id, and its frame joins the outbound frames, none of which is lost or
  overtaken.
\<close>

theorem flush_requests_all_pending:
  assumes "reachable J s" and "connected s" and "authRequired s \<Longrightarrow> authenticated s"
    and "pendingTopics s \<noteq> []"
  shows "let s' = flushTopics J e s; reqId = nat_to_string (Suc (reqIdCounter s)) in
    subscriptions s' = subscriptions s @ pendingTopics s \<and> pendingTopics s' = [] \<and>
    reqId \<notin> set (map fst (inflightSubscribes s)) \<and>
    inflightSubscribes s' = inflightSubscribes s @ [(reqId, pendingTopics s)] \<and>
    (\<exists>written. sent s' = sent s @ map (Pair (generation s)) written \<and> length written \<le> 1 \<and>
       written @ outboundQueue s' = outboundQueue s @ [subscribe_frame J (pendingTopics s) reqId])"
proof -
  let ?id = "nat_to_string (Suc (reqIdCounter s))"
  have fresh: "?id \<notin> set (map fst (inflightSubscribes s))"
    using reachable_inv [OF assms(1)] by (intro ids_ok_fresh) (simp add: inv_def books_ok_def)
  define s1 where "s1 = enqueueOp (subscribe_frame J (pendingTopics s) ?id)
    (s\<lparr>subscriptions := subscriptions s @ pendingTopics s, pendingTopics := [],
       reqIdCounter := Suc (reqIdCounter s),
       inflightSubscribes := inflightSubscribes s @ [(?id, pendingTopics s)]\<rparr>)"
  have "\<not> (authRequired s \<and> \<not> authenticated s)" using assms(3) by blast
  then have "flushTopics J e s = pump e s1"
    using assms(2,4) update_fresh [OF fresh] by (auto simp: flushTopics_def Let_def s1_def)
  then show ?thesis
    using pump_written [of e s1] fresh by (simp add: Let_def s1_def)
qed

end
