(* ===== verification/Ws_Session_Life.thy ===== *)
theory Ws_Session_Life
  imports Ws_Session_Spec
begin

text \<open>
  The life of a connection: one reader and one writer, stale completions, the reconnect with
  its replay and its backoff, the heartbeat, closing, and that an open session can always
  connect.
\<close>

section \<open>Operations\<close>

text \<open>
  C23. On one stream at most one read and one write are outstanding, and a write is outstanding on
  the current connection exactly when \<^verbatim>\<open>writeInFlight\<close> says so.
\<close>

theorem single_reader_writer:
  assumes "reachable J s"
  shows "count_list (ops s) (Read g) \<le> 1 \<and> count_list (ops s) (Write g) \<le> 1 \<and>
    (connected s \<longrightarrow> (Write (generation s) \<in> set (ops s)) = writeInFlight s)"
proof -
  have o: "ops_ok s" using reachable_inv [OF assms] by (simp add: inv_def)
  then have "count_list (ops s) (Read g) \<le> 1 \<and> count_list (ops s) (Write g) \<le> 1"
    using ops_okD(2) unfolding single_ok_def by blast
  moreover have "connected s \<longrightarrow> (Write (generation s) \<in> set (ops s)) = writeInFlight s"
    using ops_okD(7) [OF o] by (auto simp: count_in_set)
  ultimately show ?thesis by simp
qed

text \<open>
  The completion of an operation of another generation changes nothing: a handler of a socket
  that was torn down neither mutates the new connection nor starts an operation on it.
\<close>

theorem stale_completion_is_noop:
  assumes "op_gen x = Some g" and "g \<noteq> generation s"
  shows "complete J e x s = s\<lparr>ops := remove1 x (ops s)\<rparr>"
  using assms by (cases x) (auto simp: complete_def guarded_def onPingTimer_def onReconnectTimer_def)

section \<open>Reconnecting\<close>

text \<open>
  An error on the current, open connection disconnects, arms the reconnect timer and puts every
  sent topic back in front of the pending ones, in order; nothing is in flight or queued, and
  the next delay is the double of this one, at most 30 seconds. A second error of the same
  connection, or one of an older connection, changes nothing.
\<close>

theorem error_prepares_replay:
  "(g \<noteq> generation s \<or> reconnectScheduled s \<longrightarrow> handleError e g m s = s) \<and>
   (g = generation s \<and> \<not> reconnectScheduled s \<and> \<not> userClosed s \<longrightarrow>
     (let s' = handleError e g m s in
      pendingTopics s' = subscriptions s @ pendingTopics s \<and> subscriptions s' = [] \<and>
      inflightSubscribes s' = [] \<and> outboundQueue s' = [] \<and> \<not> connected s' \<and>
      \<not> isAuthenticated s' \<and> reconnectScheduled s' \<and> generation s' = generation s \<and>
      ops s' = ops s @ [ReconnectWait g] \<and>
      reconnectDelayS s' = min (2 * reconnectDelayS s) 30))"
  by (auto simp: handleError_def Let_def isAuthenticated_def RECONNECT_DELAY_MAX_IN_S_def)

text \<open>The backoff through a handler.\<close>

lemma delay_frame [simp]:
  "reconnectDelayS (startConnect s) = reconnectDelayS s"
  by (simp add: startConnect_def Let_def)

lemma handleError_delay: "reconnectDelayS s \<in> delays \<Longrightarrow> reconnectDelayS s \<le> reconnectDelayS (handleError e g m s)"
  by (auto simp: handleError_def Let_def RECONNECT_DELAY_MAX_IN_S_def delays_def)

lemma processMessage_delay:
  assumes "processMessage J e g s = Inr s'" and "reconnectDelayS s \<in> delays"
    and "reconnectDelayS s' < reconnectDelayS s"
  shows "authenticated s' \<and> reconnectDelayS s' = 1"
  using assms(1)
proof (cases rule: processMessage_cases)
  case (auth_failed m)
  with assms(2,3) handleError_delay [of s e g m] show ?thesis by simp
next
  case (ack success ret_msg reqId)
  with assms(3) show ?thesis by (simp add: ack_frame)
qed (use assms(3) in auto)

lemma processMessage_delay_auth:
  assumes "processMessage J e g s = Inr s'"
  shows "authRequired s' = authRequired s"
  using assms
proof (cases rule: processMessage_cases)
  case (ack success ret_msg reqId)
  then show ?thesis by (simp add: ack_frame)
qed auto

lemma onRead_delay:
  assumes "reconnectDelayS s \<in> delays" and "reconnectDelayS (onRead J e g s) < reconnectDelayS s"
  shows "ec e = None \<and> reconnectDelayS (onRead J e g s) = 1 \<and>
    (authRequired s \<longrightarrow> authenticated (onRead J e g s))"
proof (cases "ec e")
  case None
  show ?thesis
  proof (cases "processMessage J e g s")
    case (Inl x)
    with assms None handleError_delay [OF assms(1), of e g] show ?thesis
      by (cases x) (auto simp: onRead_def not_less [symmetric])
  next
    case (Inr s')
    with None have r: "onRead J e g s = rearmRead g s'" by (simp add: onRead_def)
    show ?thesis
    proof (cases "reconnectDelayS s' < reconnectDelayS s")
      case True
      with processMessage_delay [OF Inr assms(1)] None r show ?thesis
        by (auto simp: rearmRead_def Let_def)
    next
      case False
      with assms(2) r None processMessage_delay_auth [OF Inr] show ?thesis
        by (auto simp: rearmRead_def Let_def split: if_splits)
    qed
  qed
next
  case (Some m)
  with assms handleError_delay [OF assms(1)] show ?thesis by (simp add: onRead_def not_less [symmetric])
qed

lemma complete_delay:
  assumes "reconnectDelayS s \<in> delays" and "reconnectDelayS (complete J e x s) < reconnectDelayS s"
  shows "x = Read (generation s)"
proof (rule ccontr)
  assume x: "x \<noteq> Read (generation s)"
  let ?s = "s\<lparr>ops := remove1 x (ops s)\<rparr>"
  have he: "\<not> reconnectDelayS (handleError e g m ?s) < reconnectDelayS s"
    "\<not> reconnectDelayS (handleError e g m (?s\<lparr>writeInFlight := False\<rparr>)) < reconnectDelayS s" for g m
    using handleError_delay [of ?s e g m] handleError_delay [of "?s\<lparr>writeInFlight := False\<rparr>" e g m] assms(1)
    by simp_all
  show False
    using assms(2) x he
    by (cases x) (auto simp: complete_def guarded_def onResolve_def onConnect_def onSSLHandshake_def
      onHandshake_def onWrite_def onPingTimer_def onReconnectTimer_def onAsyncClose_def
      postedUnsubscribe_def closeByUser_def Let_def split: if_splits option.splits)
qed

text \<open>
  C24. The reconnect delay is 1, 2, 4, 8, 16 or 30 seconds, and goes down only when a message read on
  an operational connection was processed (authenticated, where credentials are set), back to
  1. A connection that shakes hands and then fails to authenticate never resets it.
\<close>

theorem backoff:
  assumes "reachable J s"
  shows "reconnectDelayS s \<in> {1, 2, 4, 8, 16, 30} \<and>
    (wstep J s s' \<and> reconnectDelayS s' < reconnectDelayS s \<longrightarrow>
       reconnectDelayS s' = 1 \<and>
       (\<exists>e. s' = complete J e (Read (generation s)) s \<and> ec e = None \<and>
            (apiKey s \<noteq> [] \<and> apiSecret s \<noteq> [] \<longrightarrow> authenticated s')))"
proof -
  have b: "books_ok s" using reachable_inv [OF assms] by (simp add: inv_def)
  then have d: "reconnectDelayS s \<in> delays" by (simp add: books_ok_def)
  have "reconnectDelayS s' = 1 \<and>
       (\<exists>e. s' = complete J e (Read (generation s)) s \<and> ec e = None \<and>
            (apiKey s \<noteq> [] \<and> apiSecret s \<noteq> [] \<longrightarrow> authenticated s'))"
    if "wstep J s s'" "reconnectDelayS s' < reconnectDelayS s"
    using that(1)
  proof (cases rule: wstep.cases)
    case (completion x e)
    with complete_delay [OF d] that(2) have x: "x = Read (generation s)" by blast
    let ?s = "s\<lparr>ops := remove1 x (ops s)\<rparr>"
    have s': "s' = onRead J e (generation s) ?s"
      using completion x by (simp add: complete_def guarded_def)
    with onRead_delay [of ?s J e "generation s"] d that(2) completion x b show ?thesis
      by (auto simp: books_ok_def)
  qed (use that(2) in \<open>auto simp: onPongFrame_def subscribe_def addTopic_def close_def unsubscribe_def
    removeTopic_def Let_def split: if_splits\<close>)
  with d show ?thesis by (auto simp: delays_def)
qed

section \<open>Heartbeat\<close>

text \<open>
  C36. A ping tick of a connected, open session: with no pong for more than 60 seconds, or with an
  authentication unanswered past its deadline, it tears the connection down and schedules the
  reconnect; otherwise it queues a ping and re-arms the timer.
\<close>

theorem ping_watchdog:
  assumes "reachable J s" and "connected s" and "\<not> userClosed s" and "ec e = None"
  shows "let s' = onPingTimer J e (generation s) s in
    if steady e - lastPongTime s \<ge> seconds 61 \<or>
       (authRequired s \<and> \<not> authenticated s \<and> (\<exists>d. authDeadline s = Some d \<and> steady e > d))
    then \<not> connected s' \<and> reconnectScheduled s' \<and> ReconnectWait (generation s) \<in> set (ops s')
    else connected s' \<and> PingWait (generation s) \<in> set (ops s') \<and>
      (\<exists>written. sent s' = sent s @ map (Pair (generation s)) written \<and>
         written @ outboundQueue s' = outboundQueue s @ [ping_frame J])"
proof -
  have "books_ok s" using reachable_inv [OF assms(1)] by (simp add: inv_def)
  with assms(2) have ns: "\<not> reconnectScheduled s" by (auto simp: books_ok_def)
  have late: "(steady e - lastPongTime s) div seconds 1 > PONG_TIMEOUT_IN_S \<longleftrightarrow>
      steady e - lastPongTime s \<ge> seconds 61"
    by (auto simp: seconds_def PONG_TIMEOUT_IN_S_def PING_INTERVAL_IN_S_def)
  have fail: "\<not> connected s' \<and> reconnectScheduled s' \<and> ReconnectWait (generation s) \<in> set (ops s')"
    if "s' = handleError e (generation s) m s" for s' m
    using that ns assms(3) by (simp add: handleError_def Let_def)
  have ping: "\<exists>written. sent (pump e (enqueueOp p s)) = sent s @ map (Pair (generation s)) written \<and>
      written @ outboundQueue (pump e (enqueueOp p s)) = outboundQueue s @ [p]" for p
    using pump_written [of e "enqueueOp p s"] by auto
  show ?thesis
    using assms(2-4) fail ping
    by (auto simp: onPingTimer_def Let_def late split: option.splits)
qed

section \<open>Closing\<close>

lemma closed_frame [simp]:
  "userClosed s \<Longrightarrow> startConnect s = s"
  by (simp add: startConnect_def)

lemma closed_handleError: "userClosed s \<Longrightarrow> connected (handleError e g m s) = connected s
    \<and> reconnectScheduled (handleError e g m s) = reconnectScheduled s"
  by (simp add: handleError_def Let_def)

lemma closed_processMessage:
  assumes "processMessage J e g s = Inr s'" and "userClosed s"
  shows "userClosed s' \<and> generation s' = generation s \<and> connected s' = connected s \<and>
    reconnectScheduled s' = reconnectScheduled s"
  using assms(1)
proof (cases rule: processMessage_cases)
  case (ack success ret_msg reqId)
  with assms(2) show ?thesis by (simp add: ack_frame)
qed (use assms(2) closed_handleError in auto)

lemma closed_complete:
  assumes "userClosed s"
  shows "userClosed (complete J e x s) \<and> generation (complete J e x s) = generation s \<and>
    connected (complete J e x s) = connected s \<and>
    (reconnectScheduled (complete J e x s) \<longrightarrow> reconnectScheduled s)"
proof -
  have read: "userClosed (onRead J e g s1) \<and> generation (onRead J e g s1) = generation s1 \<and>
      connected (onRead J e g s1) = connected s1 \<and> reconnectScheduled (onRead J e g s1) = reconnectScheduled s1"
    if "userClosed s1" for g and s1 :: "'a session"
  proof (cases "ec e")
    case None
    show ?thesis
    proof (cases "processMessage J e g s1")
      case (Inl x)
      with None that closed_handleError [OF that] show ?thesis by (cases x) (simp_all add: onRead_def)
    next
      case (Inr s')
      with closed_processMessage [OF Inr that] None show ?thesis
        by (simp add: onRead_def rearmRead_def Let_def)
    qed
  next
    case (Some m)
    with that closed_handleError show ?thesis by (simp add: onRead_def)
  qed
  show ?thesis
    using assms read
    by (cases x) (auto simp: complete_def guarded_def onResolve_def onConnect_def onSSLHandshake_def
      onHandshake_def onWrite_def onPingTimer_def onReconnectTimer_def onAsyncClose_def closed_handleError
      postedUnsubscribe_def closeByUser_def Let_def split: option.splits)
qed

text \<open>
  C37. After the user has closed the session it stays closed: no step starts a new connection or
  finishes one being set up, and none schedules a reconnect.
\<close>

theorem closed_stays_closed:
  assumes "(wstep J)\<^sup>*\<^sup>* s s'" and "userClosed s"
  shows "userClosed s' \<and> generation s' = generation s \<and> connected s' = connected s \<and>
    (reconnectScheduled s' \<longrightarrow> reconnectScheduled s)"
  using assms
proof (induction rule: rtranclp_induct)
  case (step s1 s2)
  from step.hyps(2) have "userClosed s1 \<longrightarrow> (userClosed s2 \<and> generation s2 = generation s1 \<and>
      connected s2 = connected s1 \<and> (reconnectScheduled s2 \<longrightarrow> reconnectScheduled s1))"
  proof (cases rule: wstep.cases)
    case (completion x e)
    then show ?thesis using closed_complete by blast
  qed (auto simp: onPongFrame_def subscribe_def addTopic_def close_def unsubscribe_def removeTopic_def Let_def)
  with step show ?case by simp
qed simp

section \<open>An open session can always connect\<close>

text \<open>The environment in which every operation succeeds.\<close>

definition calm :: env where
  "calm = \<lparr>ec = None, message = [], ep_port = 443, sni_error = None, is_open = True, steady = 0,
     ms_clock = 0, hmac_sha256_hex = (\<lambda>_ _. []), fileline = (\<lambda>_. [])\<rparr>"

definition at_stage :: "(nat \<Rightarrow> op) \<Rightarrow> 'j session \<Rightarrow> bool" where
  "at_stage f s \<longleftrightarrow> f (generation s) \<in> set (ops s) \<and> \<not> userClosed s"

lemma calm_step: "x \<in> set (ops s) \<Longrightarrow> wstep J s (complete J calm x s)"
  by (rule wstep.completion) (cases x; simp add: calm_def)+

lemma calm_chain:
  "at_stage Resolve s \<Longrightarrow> at_stage TcpConnect (complete J calm (Resolve (generation s)) s)"
  "at_stage TcpConnect s \<Longrightarrow> at_stage TlsHandshake (complete J calm (TcpConnect (generation s)) s)"
  "at_stage TlsHandshake s \<Longrightarrow> at_stage WsHandshake (complete J calm (TlsHandshake (generation s)) s)"
  by (simp_all add: at_stage_def complete_def guarded_def onResolve_def onConnect_def onSSLHandshake_def calm_def)

lemma calm_handshake: "at_stage WsHandshake s \<Longrightarrow> connected (complete J calm (WsHandshake (generation s)) s)"
  by (simp add: at_stage_def complete_def guarded_def onHandshake_def calm_def Let_def)

lemma calm_start:
  "PostStart \<in> set (ops s) \<Longrightarrow> \<not> userClosed s \<Longrightarrow> at_stage Resolve (complete J calm PostStart s)"
  "ReconnectWait (generation s) \<in> set (ops s) \<Longrightarrow> \<not> userClosed s \<Longrightarrow>
     at_stage Resolve (complete J calm (ReconnectWait (generation s)) s)"
  by (simp_all add: at_stage_def complete_def onReconnectTimer_def startConnect_def calm_def Let_def)

lemma calm_first:
  assumes "x \<in> set (ops s)" and "\<exists>s'. (wstep J)\<^sup>*\<^sup>* (complete J calm x s) s' \<and> connected s'"
  shows "\<exists>s'. (wstep J)\<^sup>*\<^sup>* s s' \<and> connected s'"
proof -
  obtain s' where s': "(wstep J)\<^sup>*\<^sup>* (complete J calm x s) s'" "connected s'" using assms(2) by blast
  have "(wstep J)\<^sup>*\<^sup>* s s'"
    using calm_step [OF assms(1)] s'(1) by (rule converse_rtranclp_into_rtranclp)
  with s'(2) show ?thesis by blast
qed

lemma connects_from_chain:
  assumes "at_stage Resolve s \<or> at_stage TcpConnect s \<or> at_stage TlsHandshake s \<or> at_stage WsHandshake s"
  shows "\<exists>s'. (wstep J)\<^sup>*\<^sup>* s s' \<and> connected s'"
proof -
  have w: "\<exists>s'. (wstep J)\<^sup>*\<^sup>* s s' \<and> connected s'" if "at_stage WsHandshake s" for s
    by (rule calm_first [of "WsHandshake (generation s)"])
      (use that calm_handshake [OF that, of J] in \<open>auto simp: at_stage_def\<close>)
  have t: "\<exists>s'. (wstep J)\<^sup>*\<^sup>* s s' \<and> connected s'" if "at_stage TlsHandshake s" for s
    by (rule calm_first [OF _ w [OF calm_chain(3) [OF that]]]) (use that in \<open>simp add: at_stage_def\<close>)
  have c: "\<exists>s'. (wstep J)\<^sup>*\<^sup>* s s' \<and> connected s'" if "at_stage TcpConnect s" for s
    by (rule calm_first [OF _ t [OF calm_chain(2) [OF that]]]) (use that in \<open>simp add: at_stage_def\<close>)
  have r: "\<exists>s'. (wstep J)\<^sup>*\<^sup>* s s' \<and> connected s'" if "at_stage Resolve s" for s
    by (rule calm_first [OF _ c [OF calm_chain(1) [OF that]]]) (use that in \<open>simp add: at_stage_def\<close>)
  from assms w t c r show ?thesis by blast
qed

text \<open>
  A session that was not closed is never stuck: from every reachable state there is a run of
  the operations it has pending, and of those they start, that ends connected.
\<close>

theorem open_session_can_connect:
  assumes "reachable J s" and "\<not> userClosed s"
  shows "\<exists>s'. (wstep J)\<^sup>*\<^sup>* s s' \<and> connected s'"
proof -
  have a: "alive s" and o: "ops_ok s" using reachable_inv [OF assms(1)] by (simp_all add: inv_def)
  from a assms(2) consider (start) "PostStart \<in> set (ops s)" | (chain) "chain (ops s) (generation s) = 1"
    | (wait) "reconnectScheduled s" | (up) "connected s" by (auto simp: alive_def)
  then show ?thesis
  proof cases
    case start
    show ?thesis
      by (rule calm_first [OF start connects_from_chain]) (rule disjI1, rule calm_start(1) [OF start assms(2)])
  next
    case chain
    then have "at_stage Resolve s \<or> at_stage TcpConnect s \<or> at_stage TlsHandshake s \<or> at_stage WsHandshake s"
      using assms(2) by (auto simp: chain_def at_stage_def count_in_set)
    then show ?thesis by (rule connects_from_chain)
  next
    case wait
    then have w: "ReconnectWait (generation s) \<in> set (ops s)"
      using ops_okD(8) [OF o] by (simp add: count_in_set)
    show ?thesis
      by (rule calm_first [OF w connects_from_chain]) (rule disjI1, rule calm_start(2) [OF w assms(2)])
  qed blast
qed

end
