(* ===== verification/Ws_Session_Runs.thy ===== *)
theory Ws_Session_Runs
  imports Ws_Session_Life
begin

text \<open>
  Concrete runs of the session, evaluated: they show that the hypotheses of the properties are met
  by real behaviour, among them that a positive ack of a private session's \<^verbatim>\<open>auth\<close>
  which was already queued when the connection failed marks the session authenticated while it
  is waiting to reconnect.
\<close>

fun runs :: "'j jops \<Rightarrow> 'j session \<Rightarrow> (env \<times> op) list \<Rightarrow> 'j session option" where
  "runs J s [] = Some s"
| "runs J s ((e, x) # xs) =
     (if x \<in> set (ops s) \<and> timer_ok x e s then runs J (complete J e x s) xs else None)"

lemma runs_reachable: "runs J s xs = Some s' \<Longrightarrow> reachable J s \<Longrightarrow> reachable J s'"
proof (induction J s xs rule: runs.induct)
  case (2 J s e x xs)
  then show ?case by (auto split: if_splits intro: reachable.step wstep.completion)
qed simp

text \<open>A table of three messages.\<close>

definition demo_json :: "string \<Rightarrow> json option" where
  "demo_json = map_of
     [(''auth'', JObj [(''op'', JStr ''auth''), (''success'', JBool True)]),
      (''ack'', JObj [(''op'', JStr ''subscribe''), (''success'', JBool True), (''req_id'', JStr ''1'')]),
      (''nack'', JObj [(''op'', JStr ''subscribe''), (''success'', JBool False)])]"

abbreviation demo :: "json jops" where "demo \<equiv> mini demo_json"

definition reads :: "string \<Rightarrow> env" where
  "reads msg = calm\<lparr>message := msg\<rparr>"

definition broken :: env where
  "broken = calm\<lparr>ec := Some ''broken pipe''\<rparr>"

definition public_run :: "(env \<times> op) list" where
  "public_run = [(calm, PostStart), (calm, Resolve 1), (calm, TcpConnect 1), (calm, TlsHandshake 1),
     (calm, WsHandshake 1)]"

definition start_public :: "json session" where
  "start_public = start_op PostStart (addTopic ''order''
     ((made False None)\<lparr>host := ''h'', port := ''443'', path := ''/p''\<rparr>))"

definition start_private :: "json session" where
  "start_private = start_op PostStart (addTopic ''order''
     ((made False (Some (''key'', ''secret'')))\<lparr>host := ''h'', port := ''443'', path := ''/p''\<rparr>))"

lemma start_reachable: "reachable J start_public" "reachable J start_private"
  by (rule reachable.started [where h = "''h''" and p = "''443''" and pth = "''/p''" and t = "''order''" and cb = None
        and logger = False and cred = None],
      simp add: run_def start_public_def made_def fresh_session_def)
    (rule reachable.started [where h = "''h''" and p = "''443''" and pth = "''/p''" and t = "''order''" and cb = None
        and logger = False and cred = "Some (''key'', ''secret'')"],
      simp add: run_def start_private_def made_def fresh_session_def setCredentials_def)

lemma the_run_reachable: "runs J s xs \<noteq> None \<Longrightarrow> reachable J s \<Longrightarrow> reachable J (the (runs J s xs))"
  using runs_reachable by (cases "runs J s xs") auto

text \<open>A session connected, its subscribe sent and in flight; and one more topic asked for.\<close>

definition up :: "json session" where
  "up = the (runs demo start_public public_run)"

lemma up_reachable: "reachable demo up"
  unfolding up_def by (rule the_run_reachable [OF _ start_reachable(1)]) code_simp

lemma up_state:
  "connected up" "\<not> userClosed up" "generation up = 1" "Read 1 \<in> set (ops up)" "\<not> reconnectScheduled up"
  "isSubscribed ''order'' up" "\<not> isSubscriptionConfirmed ''order'' up" "\<not> authRequired up"
  "reqIdCounter up = 1" "map fst (inflightSubscribes up) = [''1'']" "lastPongTime up = 0"
  by code_simp+

lemma up_acked: "isSubscriptionConfirmed ''order'' (complete demo (reads ''ack'') (Read 1) up)"
  by code_simp

lemma up_nacked: "\<not> isSubscribed ''order'' (complete demo (reads ''nack'') (Read 1) up)"
  by code_simp

lemma up_read: "wstep demo up (complete demo (reads m) (Read 1) up)"
  by (rule wstep.completion, rule up_state) simp

text \<open>A session on its second connection, the delay doubled.\<close>

definition retried :: "json session" where
  "retried = the (runs demo start_public
     [(calm, PostStart), (broken, Resolve 1), (calm, ReconnectWait 1), (calm, Resolve 2),
      (calm, TcpConnect 2), (calm, TlsHandshake 2), (calm, WsHandshake 2)])"

lemma retried_reachable: "reachable demo retried"
  unfolding retried_def by (rule the_run_reachable [OF _ start_reachable(1)]) code_simp

lemma retried_state:
  "generation retried = 2" "Read 2 \<in> set (ops retried)" "reconnectDelayS retried = 2"
  "reconnectDelayS (complete demo (reads ''ack'') (Read 2) retried) = 1"
  by code_simp+

section \<open>The properties at work\<close>

lemma topic_lost_only_when_told_witness:
  "complete demo (reads ''nack'') (Read 1) up = unsubscribe ''order'' up \<or>
    (\<exists>e reqId key. complete demo (reads ''nack'') (Read 1) up = complete demo e (Read (generation up)) up \<and>
       ec e = None \<and> ack_of demo e = Some (False, reqId) \<and>
       answered_op reqId (inflightSubscribes up) = Inr (Some key) \<and>
       ''order'' \<in> set (the (map_of (inflightSubscribes up) key)))"
  by (rule topic_lost_only_when_told [OF up_read up_state(6) up_nacked])

lemma confirmed_only_by_ack_witness:
  "\<exists>e reqId key. complete demo (reads ''ack'') (Read 1) up = complete demo e (Read (generation up)) up \<and>
     ec e = None \<and> ack_of demo e = Some (True, reqId) \<and>
     answered_op reqId (inflightSubscribes up) = Inr (Some key) \<and>
     ''order'' \<in> set (the (map_of (inflightSubscribes up) key))"
  by (rule confirmed_only_by_ack [OF up_reachable up_read up_state(7) up_acked])

lemma confirmed_means_live_witness:
  "connected (complete demo (reads ''ack'') (Read 1) up)"
  using confirmed_means_live [OF reachable.step [OF up_reachable up_read], of "''ack''" "''order''"] up_acked
  by blast

lemma ack_attribution_witness: "answered_op [] (inflightSubscribes up) = Inr (Some ''1'')"
  using ack_attribution [OF up_reachable, of "[]"] up_state(9,10)
  by (cases "inflightSubscribes up") (auto simp: int_limits)

lemma flush_requests_all_pending_witness:
  "subscriptions (flushTopics demo calm (subscribe ''x'' up)) = subscriptions (subscribe ''x'' up) @ [''x'']"
proof -
  have p: "pendingTopics (subscribe ''x'' up) = [''x'']" "connected (subscribe ''x'' up)"
    "\<not> authRequired (subscribe ''x'' up)" by code_simp+
  have "reachable demo (subscribe ''x'' up)"
    using up_reachable wstep.call_subscribe by (rule reachable.step)
  from flush_requests_all_pending [OF this p(2), of calm] p show ?thesis by (simp add: Let_def)
qed

lemma single_reader_writer_witness:
  "count_list (ops up) (Read 1) \<le> 1 \<and> (Write (generation up) \<in> set (ops up)) = writeInFlight up"
  using single_reader_writer [OF up_reachable, of 1] up_state(1) by simp

lemma stale_completion_is_noop_witness:
  "complete demo (reads ''nack'') (Read 1) retried = retried\<lparr>ops := remove1 (Read 1) (ops retried)\<rparr>"
  by (rule stale_completion_is_noop [of _ 1]) (simp_all add: retried_state)

lemma error_prepares_replay_witness:
  "pendingTopics (handleError calm 1 [] up) = subscriptions up @ pendingTopics up"
  using error_prepares_replay [of 1 up calm "[]"] by (simp add: up_state Let_def)

lemma backoff_witness:
  "\<exists>e. complete demo (reads ''ack'') (Read 2) retried = complete demo e (Read (generation retried)) retried \<and>
     ec e = None"
proof -
  have "wstep demo retried (complete demo (reads ''ack'') (Read 2) retried)"
    by (rule wstep.completion, rule retried_state) simp
  with backoff [OF retried_reachable, of "complete demo (reads ''ack'') (Read 2) retried"]
  show ?thesis by (auto simp: retried_state)
qed

lemma ping_watchdog_witness:
  "reconnectScheduled (onPingTimer demo (calm\<lparr>steady := seconds 61\<rparr>) (generation up) up)"
  using ping_watchdog [OF up_reachable up_state(1,2), of "calm\<lparr>steady := seconds 61\<rparr>"]
  by (simp add: calm_def up_state Let_def)

definition shut :: "json session" where
  "shut = complete demo calm PostClose (close up)"

lemma closed_stays_closed_witness:
  "userClosed (subscribe ''x'' shut) \<and> generation (subscribe ''x'' shut) = generation shut \<and>
   connected (subscribe ''x'' shut) = connected shut"
proof -
  have "(wstep demo)\<^sup>*\<^sup>* shut (subscribe ''x'' shut)"
    using wstep.call_subscribe by (rule r_into_rtranclp)
  moreover have "userClosed shut" by code_simp
  ultimately show ?thesis using closed_stays_closed by blast
qed

lemma open_session_can_connect_witness: "\<exists>s'. (wstep demo)\<^sup>*\<^sup>* start_private s' \<and> connected s'"
proof (rule open_session_can_connect)
  show "reachable demo start_private" by (rule start_reachable)
  show "\<not> userClosed start_private" by code_simp
qed

section \<open>Authenticated while reconnecting\<close>

definition late_auth :: "json session" where
  "late_auth = the (runs demo start_private
     [(calm, PostStart), (calm, Resolve 1), (calm, TcpConnect 1), (calm, TlsHandshake 1),
      (calm\<lparr>ms_clock := -5000\<rparr>, WsHandshake 1), (broken, Write 1), (reads ''auth'', Read 1)])"

lemma late_auth_reachable: "reachable demo late_auth"
  unfolding late_auth_def by (rule the_run_reachable [OF _ start_reachable(2)]) code_simp

lemma late_auth_state: "isAuthenticated late_auth" "reconnectScheduled late_auth" "\<not> connected late_auth"
  by code_simp+

text \<open>
  \<^verbatim>\<open>isAuthenticated()\<close> can be true while the session waits to reconnect: the ack of
  \<^verbatim>\<open>auth\<close> was read before the write error was handled, and its handler, of the same
  generation, still runs. (The header says it is always false while reconnecting.)
\<close>

theorem authenticated_while_reconnecting:
  "\<exists>s. reachable demo s \<and> isAuthenticated s \<and> reconnectScheduled s \<and> \<not> connected s"
proof (intro exI conjI)
  show "reachable demo late_auth" by (rule late_auth_reachable)
qed (fact late_auth_state)+

end
