(* ===== verification/Topic_Book.thy ===== *)
theory Topic_Book
  imports Ws_Session_Runs
begin

text \<open>
  The session refines a book of topics: which are wanted and which are confirmed. This is all
  that a stream manager needs to know of reconnects, replays, request ids and acks.
\<close>

section \<open>The book\<close>

type_synonym book = "string set \<times> string set"

text \<open>
  A topic is asked for or forgotten; some of the wanted topics are confirmed; some that are not
  confirmed are rejected, and then no longer wanted; the connection is lost, and with it every
  confirmation but no wish.
\<close>

datatype label = Quiet | Asked string | Forgotten string | Acked "string set" | Rejected_by_venue "string set" | Lost

inductive book_step :: "label \<Rightarrow> book \<Rightarrow> book \<Rightarrow> bool" where
  idle: "book_step Quiet b b"
| ask: "book_step (Asked t) (W, C) (insert t W, C)"
| forget: "book_step (Forgotten t) (W, C) (W - {t}, C - {t})"
| confirm: "T \<subseteq> W \<Longrightarrow> book_step (Acked T) (W, C) (W, C \<union> T)"
| reject: "T \<inter> C = {} \<Longrightarrow> book_step (Rejected_by_venue T) (W, C) (W - T, C)"
| lose: "book_step Lost (W, C) (W, {})"

inductive_simps book_step_simps [simp]:
  "book_step Quiet b b'" "book_step (Asked t) b b'" "book_step (Forgotten t) b b'"
  "book_step (Acked T) b b'" "book_step (Rejected_by_venue T) b b'" "book_step Lost b b'"

lemma book_step_keeps: "book_step l b b' \<Longrightarrow> snd b \<subseteq> fst b \<Longrightarrow> snd b' \<subseteq> fst b'"
  by (induction rule: book_step.induct) auto

definition book_of :: "'j session \<Rightarrow> book" where
  "book_of s = ({t. isSubscribed t s}, {t. isSubscriptionConfirmed t s})"

section \<open>What the building blocks do to it\<close>

abbreviation lost :: "book \<Rightarrow> book" where
  "lost b \<equiv> (fst b, {})"

text \<open>All that most handlers can do: nothing, or lose the connection.\<close>

definition quiet_or_lost :: "'j session \<Rightarrow> 'j session \<Rightarrow> bool" where
  "quiet_or_lost s s' \<longleftrightarrow> book_of s' = book_of s \<or> book_of s' = lost (book_of s) \<and> \<not> connected s'"

lemma quiet_or_lostI [intro]: "book_of s' = book_of s \<Longrightarrow> quiet_or_lost s s'"
  by (simp add: quiet_or_lost_def)

lemma error_book [intro]: "quiet_or_lost s (handleError e g m s)"
  by (auto simp: quiet_or_lost_def handleError_def Let_def book_of_def isSubscribed_def isSubscriptionConfirmed_def)

lemma flush_book:
  assumes "distinct (subscriptions s @ pendingTopics s)" and "ids_ok (inflightSubscribes s) (reqIdCounter s)"
  shows "book_of (flushTopics J e s) = book_of s"
proof -
  have "isSubscriptionConfirmed t (flushTopics J e s)" if "isSubscriptionConfirmed t s" for t
    using that assms(1) ids_ok_fresh [OF assms(2)]
    by (auto simp: flushTopics_def Let_def update_fresh isSubscriptionConfirmed_def)
  then show ?thesis using confirmed_flush [OF assms(2)] by (auto simp: book_of_def)
qed

lemma confirmed_after:
  assumes "distinct (map fst al)" and "map_of al key = Some ts" and "t \<notin> set ts"
  shows "list_all (\<lambda>(_, topics). t \<notin> set topics) (AList.delete key al) \<longleftrightarrow> list_all (\<lambda>(_, topics). t \<notin> set topics) al"
  using assms delete_list_all [OF assms(1), of "\<lambda>(_, topics). t \<notin> set topics" key]
  by (auto simp: list_all_iff AList.delete_eq)

text \<open>What a positive or negative ack, attributed to an op in flight, allows.\<close>

fun justified :: "'j jops \<Rightarrow> env \<Rightarrow> 'j session \<Rightarrow> label \<Rightarrow> bool" where
  "justified J e s (Acked T) = (ec e = None \<and> (\<exists>reqId key. ack_of J e = Some (True, reqId) \<and>
     answered_op reqId (inflightSubscribes s) = Inr (Some key) \<and> T \<subseteq> set (the (map_of (inflightSubscribes s) key))))"
| "justified J e s (Rejected_by_venue T) = (ec e = None \<and> (\<exists>reqId key. ack_of J e = Some (False, reqId) \<and>
     answered_op reqId (inflightSubscribes s) = Inr (Some key) \<and> T \<subseteq> set (the (map_of (inflightSubscribes s) key))))"
| "justified J e s _ = False"

lemma positive_ack_book:
  assumes "books_ok s" and "handleSubscribeAck True ret_msg reqId s = Inr s'"
    and "s' = s\<lparr>inflightSubscribes := AList.delete key (inflightSubscribes s)\<rparr>"
    and "answered_op reqId (inflightSubscribes s) = Inr (Some key)"
  shows "\<exists>T \<subseteq> set (the (map_of (inflightSubscribes s) key)). book_step (Acked T) (book_of s) (book_of s')"
proof -
  let ?T = "{t. isSubscriptionConfirmed t s' \<and> \<not> isSubscriptionConfirmed t s}"
  have "isSubscriptionConfirmed t s'" if "isSubscriptionConfirmed t s" for t
    using that assms(3) by (auto simp: isSubscriptionConfirmed_def list_all_iff AList.delete_eq)
  moreover have w: "isSubscribed t s' = isSubscribed t s" for t using assms(3) by simp
  moreover have "?T \<subseteq> {t. isSubscribed t s}" using w by (auto simp: isSubscriptionConfirmed_def isSubscribed_def)
  ultimately have "book_step (Acked ?T) (book_of s) (book_of s')"
    by (auto simp: book_of_def)
  moreover have "?T \<subseteq> set (the (map_of (inflightSubscribes s) key))"
    using ack_confirms [OF assms(2,1)] assms(4) by auto
  ultimately show ?thesis by blast
qed

lemma negative_ack_book:
  assumes "books_ok s" and "answered_op reqId (inflightSubscribes s) = Inr (Some key)"
    and "s' = log_line Error m (s\<lparr>
         subscriptions := prune (the (map_of (inflightSubscribes s) key)) (subscriptions s),
         inflightSubscribes := AList.delete key (inflightSubscribes s)\<rparr>)"
  shows "\<exists>T \<subseteq> set (the (map_of (inflightSubscribes s) key)).
    book_step (Rejected_by_venue T) (book_of s) (book_of s')"
proof -
  have d: "distinct (map fst (inflightSubscribes s))"
    using assms(1) by (intro ids_ok_distinct [of _ "reqIdCounter s"]) (simp add: books_ok_def)
  have ds: "distinct (subscriptions s @ pendingTopics s)" using assms(1) by (simp add: books_ok_def)
  obtain ts where ts: "map_of (inflightSubscribes s) key = Some ts"
    using answered_in [OF assms(2)] map_of_eq_None_iff [of "inflightSubscribes s" key] by fastforce
  let ?T = "set ts \<inter> set (subscriptions s)"
  have sub: "set (prune ts (subscriptions s)) = set (subscriptions s) - set ts"
    using ds prune_distinct [of "subscriptions s" ts] by auto
  have free: "\<not> isSubscriptionConfirmed t s" if "t \<in> set ts" for t
    using that map_of_SomeD [OF ts] by (auto simp: isSubscriptionConfirmed_def list_all_iff)
  have "isSubscribed t s' \<longleftrightarrow> isSubscribed t s \<and> t \<notin> ?T" for t
    using assms(3) ts sub ds by (auto simp: isSubscribed_def)
  moreover have "isSubscriptionConfirmed t s' = isSubscriptionConfirmed t s" for t
    using assms(3) ts sub free [of t] confirmed_after [OF d ts, of t]
    by (auto simp: isSubscriptionConfirmed_def)
  ultimately have "book_step (Rejected_by_venue ?T) (book_of s) (book_of s')"
    using free by (auto simp: book_of_def)
  then show ?thesis using ts by auto
qed

lemma book_upd [simp]:
  "book_of (ops_update f s) = book_of s" "book_of (start_op x s) = book_of s" "book_of (log_line v m s) = book_of s"
  "book_of (pump e s) = book_of s" "book_of (enqueueOp p s) = book_of s" "book_of (sendAuth J e s) = book_of s"
  "book_of (deliver J e j s) = book_of s" "book_of (startConnect s) = book_of s"
  "book_of (connected_update g s) = book_of s" "book_of (lastPongTime_update h s) = book_of s"
  "book_of (authenticated_update g s) = book_of s" "book_of (authenticatedFlag_update g s) = book_of s"
  "book_of (authDeadline_update i s) = book_of s" "book_of (reconnectDelayS_update h s) = book_of s"
  "book_of (writeInFlight_update g s) = book_of s" "book_of (escaped_update l s) = book_of s"
  "book_of (reconnectScheduled_update g s) = book_of s" "book_of (userClosed_update g s) = book_of s"
  "book_of (ws_update k s) = book_of s" "book_of (hostHeader_update n s) = book_of s"
  by (simp_all add: book_of_def)

lemma processMessage_book:
  assumes "processMessage J e g s = Inr s'" and "books_ok s" and "ec e = None"
  shows "quiet_or_lost s s' \<or> (\<exists>l. book_step l (book_of s) (book_of s') \<and> justified J e s l)"
  using assms(1)
proof (cases rule: processMessage_cases)
  case auth_ok
  then have "book_of s' = book_of s" using assms(2) by (simp add: flush_book books_ok_def)
  then show ?thesis by blast
next
  case (ack success ret_msg reqId)
  from ack(2) show ?thesis
  proof (cases rule: handleSubscribeAck_cases)
    case none
    then show ?thesis by auto
  next
    case (confirmed key)
    from ack(2) confirmed(2) have "handleSubscribeAck True ret_msg reqId s = Inr s'" by simp
    from positive_ack_book [OF assms(2) this confirmed(3,1)]
    obtain T where "T \<subseteq> set (the (map_of (inflightSubscribes s) key))"
      "book_step (Acked T) (book_of s) (book_of s')" by blast
    moreover have "justified J e s (Acked T)" using calculation(1) ack(1) confirmed(1,2) assms(3) by auto
    ultimately show ?thesis by blast
  next
    case (rejected key m)
    obtain T where "T \<subseteq> set (the (map_of (inflightSubscribes s) key))"
      "book_step (Rejected_by_venue T) (book_of s) (book_of s')"
      using negative_ack_book [OF assms(2) rejected(1,3)] by blast
    moreover have "justified J e s (Rejected_by_venue T)" using calculation(1) ack(1) rejected(1,2) assms(3) by auto
    ultimately show ?thesis by blast
  qed
qed auto

lemma rearm_book [simp]: "book_of (rearmRead g s) = book_of s" "connected (rearmRead g s) = connected s"
  by (simp_all add: rearmRead_def Let_def)

lemma onRead_book:
  assumes "books_ok s"
  shows "quiet_or_lost s (onRead J e g s) \<or> (\<exists>l. book_step l (book_of s) (book_of (onRead J e g s)) \<and> justified J e s l)"
proof (cases "ec e")
  case None
  show ?thesis
  proof (cases "processMessage J e g s")
    case (Inl x)
    with None show ?thesis by (cases x) (auto simp: onRead_def)
  next
    case (Inr s')
    with None processMessage_book [OF Inr assms None] show ?thesis by (simp add: onRead_def quiet_or_lost_def)
  qed
qed (simp add: onRead_def error_book)

lemma onHandshake_book:
  assumes "books_ok s"
  shows "quiet_or_lost s (onHandshake J e g s)"
proof -
  let ?s = "start_op (PingWait g) (s\<lparr>connected := True, lastPongTime := steady e\<rparr>)"
  have "book_of (flushTopics J e ?s) = book_of s"
    using assms by (simp add: flush_book books_ok_def)
  then show ?thesis
    by (auto simp: onHandshake_def Let_def split: option.split)
qed

lemma complete_book:
  assumes "books_ok s"
  shows "quiet_or_lost s (complete J e x s) \<or>
    x = Read (generation s) \<and> (\<exists>l. book_step l (book_of s) (book_of (complete J e x s)) \<and> justified J e s l)"
proof -
  have b: "books_ok (s\<lparr>ops := r\<rparr>)" for r using assms by (simp add: books_ok_def)
  have q: "quiet_or_lost (s\<lparr>ops := r\<rparr>) u = quiet_or_lost s u"
    "quiet_or_lost (s\<lparr>ops := r, writeInFlight := False\<rparr>) u = quiet_or_lost s u" for r u
    by (simp_all add: quiet_or_lost_def)
  have j: "justified J e (s\<lparr>ops := r\<rparr>) l = justified J e s l" for r l by (cases l) simp_all
  have shake: "quiet_or_lost s (onHandshake J e g (s\<lparr>ops := r\<rparr>))" for g r
    using onHandshake_book [OF b, of r] by (simp add: q)
  have err: "quiet_or_lost s (handleError e g m (s\<lparr>ops := r\<rparr>))"
    "quiet_or_lost s (handleError e g m (s\<lparr>ops := r, writeInFlight := False\<rparr>))" for g m r
    using error_book [of "s\<lparr>ops := r\<rparr>"] error_book [of "s\<lparr>ops := r, writeInFlight := False\<rparr>"] by (simp_all add: q)
  have flush: "book_of (flushTopics J e (s\<lparr>ops := r\<rparr>)) = book_of s" for r
    using b [of r] by (simp add: flush_book books_ok_def)
  show ?thesis
  proof (cases "\<exists>g. x = Read g")
    case True
    then obtain g where x: "x = Read g" by blast
    show ?thesis
    proof (cases "g = generation s")
      case True
      with x have c: "complete J e x s = onRead J e (generation s) (s\<lparr>ops := remove1 x (ops s)\<rparr>)"
        by (simp add: complete_def guarded_def)
      show ?thesis
        using onRead_book [OF b, of "remove1 x (ops s)" J e "generation s"] x True unfolding c q j by simp
    next
      case False
      with x have "quiet_or_lost s (complete J e x s)" by (intro quiet_or_lostI) (simp add: complete_def guarded_def)
      then show ?thesis ..
    qed
  next
    case False
    then have "quiet_or_lost s (complete J e x s)"
      by (cases x) (auto simp: complete_def guarded_def onResolve_def onConnect_def onSSLHandshake_def onWrite_def
        onPingTimer_def onReconnectTimer_def onAsyncClose_def postedUnsubscribe_def closeByUser_def Let_def flush
        intro: shake err split: option.splits)
    then show ?thesis ..
  qed
qed

lemma unsubscribe_book:
  assumes "books_ok s"
  shows "book_of (unsubscribe t s) = (fst (book_of s) - {t}, snd (book_of s) - {t})"
  using assms
  by (auto simp: books_ok_def book_of_def unsubscribe_def removeTopic_def Let_def isSubscribed_def isSubscriptionConfirmed_def)

lemma subscribe_book: "book_of (subscribe t s) = (insert t (fst (book_of s)), snd (book_of s))"
  by (auto simp: book_of_def subscribe_def addTopic_def isSubscribed_def isSubscriptionConfirmed_def)

text \<open>What a step of the session did when the book sees a step.\<close>

definition cause :: "'j jops \<Rightarrow> 'j session \<Rightarrow> label \<Rightarrow> 'j session \<Rightarrow> bool" where
  "cause J s l s' = (case l of
     Quiet \<Rightarrow> True
   | Asked t \<Rightarrow> s' = subscribe t s
   | Forgotten t \<Rightarrow> s' = unsubscribe t s
   | Lost \<Rightarrow> \<not> connected s'
   | _ \<Rightarrow> \<exists>e. s' = complete J e (Read (generation s)) s \<and> justified J e s l)"

lemma wstep_book:
  assumes "books_ok s" and "wstep J s s'"
  shows "\<exists>l. book_step l (book_of s) (book_of s') \<and> cause J s l s'"
  using assms(2)
proof (cases rule: wstep.cases)
  case (completion x e)
  from complete_book [OF assms(1), of J e x] show ?thesis
  proof (elim disjE conjE exE)
    assume "quiet_or_lost s (complete J e x s)"
    then show ?thesis
      unfolding quiet_or_lost_def
    proof (elim disjE conjE)
      assume "book_of (complete J e x s) = book_of s"
      with completion show ?thesis by (intro exI [of _ Quiet]) (simp add: cause_def)
    next
      assume "book_of (complete J e x s) = lost (book_of s)" "\<not> connected (complete J e x s)"
      with completion show ?thesis by (intro exI [of _ Lost]) (cases "book_of s", simp add: cause_def)
    qed
  next
    fix l assume "x = Read (generation s)" "book_step l (book_of s) (book_of (complete J e x s))" "justified J e s l"
    with completion show ?thesis by (intro exI [of _ l]) (auto simp: cause_def split: label.split)
  qed
next
  case (call_unsubscribe t)
  with unsubscribe_book [OF assms(1), of t] show ?thesis
    by (intro exI [of _ "Forgotten t"]) (cases "book_of s", simp add: cause_def)
next
  case (call_subscribe t)
  with subscribe_book [of t s] show ?thesis
    by (intro exI [of _ "Asked t"]) (cases "book_of s", simp add: cause_def)
qed (intro exI [of _ Quiet], simp add: onPongFrame_def close_def cause_def)+

lemma run_book:
  assumes "run h p pth t cb (made logger cred) = Inr s"
  shows "book_of s = ({t}, {})"
  using assms
  by (auto simp: run_def made_def fresh_session_def setCredentials_def addTopic_def book_of_def
      isSubscribed_def isSubscriptionConfirmed_def split: if_splits option.splits)

section \<open>The refinement\<close>

text \<open>
  C9. The session implements the book. A reachable session has come from one wanted topic by steps
  of the book, and whatever a step of the session does (a completion handler with any message, a
  timer, a call) the book sees as one step with its cause: a topic enters it when it is subscribed,
  leaves it only when unsubscribed or when a negative ack answers the op that carried it, before
  it was confirmed; it is confirmed only by a positive ack that answers such an op; and a lost
  connection costs the confirmations and no topic.
\<close>

theorem session_refines_book:
  assumes "reachable J s"
  shows "(\<exists>t. (\<lambda>b b'. \<exists>l. book_step l b b')\<^sup>*\<^sup>* ({t}, {}) (book_of s)) \<and> snd (book_of s) \<subseteq> fst (book_of s) \<and>
    (if wstep J s s' then \<exists>l. book_step l (book_of s) (book_of s') \<and> cause J s l s' else True)"
proof -
  have ok: "books_ok u" if "reachable J u" for u using reachable_inv [OF that] by (simp add: inv_def)
  from assms have "\<exists>t. (\<lambda>b b'. \<exists>l. book_step l b b')\<^sup>*\<^sup>* ({t}, {}) (book_of s)"
  proof induction
    case (step s s')
    have "\<exists>l. book_step l (book_of s) (book_of s')" using wstep_book [OF ok [OF step(1)] step(2)] by blast
    with step.IH show ?case by (metis (mono_tags, lifting) rtranclp.rtrancl_into_rtrancl)
  next
    case (started h p pth t cb logger cred s)
    then have "book_of s = ({t}, {})" by (rule run_book)
    then show ?case by auto
  qed
  with wstep_book [OF ok [OF assms]] show ?thesis
    by (auto simp: book_of_def isSubscribed_def isSubscriptionConfirmed_def)
qed

lemma session_refines_book_witness:
  "snd (book_of up) \<subseteq> fst (book_of up)"
  using session_refines_book [OF up_reachable, of up] by blast

end
