(* ===== verification/Threads.thy ===== *)
theory Threads
  imports Main
begin

text \<open>
  Threads that share a state and take its lock. A handler of one thread is a program of atomic
  steps (a statement on data of its own, or a section under the lock); other threads make calls,
  each one section, between any two of them. A program with at most one section that the calls
  can see is atomic: it is \<open>before\<close> that section, and then \<open>unseen\<close>.
\<close>

section \<open>Programs\<close>

text \<open>An atomic step changes the state; the state it found decides how the program goes on.\<close>

datatype 's thread = Halt | Act "'s \<Rightarrow> 's" "'s \<Rightarrow> 's thread"

primrec finish :: "'s thread \<Rightarrow> 's \<Rightarrow> 's" where
  "finish Halt s = s"
| "finish (Act f k) s = finish (k s) (f s)"

primrec andthen :: "'s thread \<Rightarrow> 's thread \<Rightarrow> 's thread" where
  "andthen Halt q = q"
| "andthen (Act f k) q = Act f (\<lambda>s. andthen (k s) q)"

lemma finish_andthen: "finish (andthen p q) s = finish q (finish p s)"
  by (induction p arbitrary: s) auto

abbreviation act_then :: "('s \<Rightarrow> 's) \<Rightarrow> 's thread \<Rightarrow> 's thread" where
  "act_then f p \<equiv> Act f (\<lambda>_. p)"

abbreviation branch :: "('s \<Rightarrow> 's thread) \<Rightarrow> 's thread" where
  "branch k \<equiv> Act (\<lambda>s. s) k"

section \<open>Steps that calls do not see, and that do not see calls\<close>

text \<open>A call \<open>c\<close> takes the state \<open>s\<close> to \<open>act c s\<close> and answers \<open>obs c s\<close>.\<close>

definition mover :: "('c \<Rightarrow> 's \<Rightarrow> 's) \<Rightarrow> ('c \<Rightarrow> 's \<Rightarrow> 'o) \<Rightarrow> ('s \<Rightarrow> 's) \<Rightarrow> ('s \<Rightarrow> 's thread) \<Rightarrow> bool" where
  "mover act obs f k \<longleftrightarrow> (\<forall>c s. f (act c s) = act c (f s) \<and> k (act c s) = k s \<and> obs c (f s) = obs c s)"

primrec unseen :: "('c \<Rightarrow> 's \<Rightarrow> 's) \<Rightarrow> ('c \<Rightarrow> 's \<Rightarrow> 'o) \<Rightarrow> 's thread \<Rightarrow> bool" where
  "unseen act obs Halt = True"
| "unseen act obs (Act f k) = (mover act obs f k \<and> (\<forall>s. unseen act obs (k s)))"

primrec one_section :: "('c \<Rightarrow> 's \<Rightarrow> 's) \<Rightarrow> ('c \<Rightarrow> 's \<Rightarrow> 'o) \<Rightarrow> 's thread \<Rightarrow> bool" where
  "one_section act obs Halt = True"
| "one_section act obs (Act f k) =
     (mover act obs f k \<and> (\<forall>s. one_section act obs (k s)) \<or> (\<forall>s. unseen act obs (k s)))"

lemma unseen_one_section: "unseen act obs p \<Longrightarrow> one_section act obs p"
  by (induction p) auto

lemma unseen_andthen: "unseen act obs p \<Longrightarrow> unseen act obs q \<Longrightarrow> unseen act obs (andthen p q)"
  by (induction p) (auto simp: mover_def)

lemma one_section_andthen:
  "one_section act obs p \<Longrightarrow> unseen act obs q \<Longrightarrow> one_section act obs (andthen p q)"
  by (induction p) (auto simp: mover_def unseen_one_section intro: unseen_andthen)

lemma unseen_act: "unseen act obs p \<Longrightarrow> finish p (act c s) = act c (finish p s)"
  by (induction p arbitrary: s) (auto simp: mover_def)

lemma unseen_obs: "unseen act obs p \<Longrightarrow> obs c (finish p s) = obs c s"
  by (induction p arbitrary: s) (auto simp: mover_def)

text \<open>The program \<open>q\<close>, started in \<open>s0\<close>, is at \<open>p\<close> in \<open>s\<close> and no call has seen it so far.\<close>

inductive before ::
  "('c \<Rightarrow> 's \<Rightarrow> 's) \<Rightarrow> ('c \<Rightarrow> 's \<Rightarrow> 'o) \<Rightarrow> 's thread \<Rightarrow> 's \<Rightarrow> 's thread \<Rightarrow> 's \<Rightarrow> bool" for act obs q where
  start: "before act obs q s0 q s0"
| move: "before act obs q s0 (Act f k) s \<Longrightarrow> mover act obs f k \<Longrightarrow> before act obs q s0 (k s) (f s)"

lemma before_finish: "before act obs q s0 p s \<Longrightarrow> finish p s = finish q s0"
  by (induction rule: before.induct) auto

lemma before_obs: "before act obs q s0 p s \<Longrightarrow> obs c s = obs c s0"
  by (induction rule: before.induct) (auto simp: mover_def)

lemma before_act: "before act obs q s0 p s \<Longrightarrow> before act obs q (act c s0) p (act c s)"
proof (induction rule: before.induct)
  case (move s0 f k s)
  from before.move [OF move.IH move.hyps(2)] move.hyps(2) show ?case by (simp add: mover_def)
qed (rule before.start)

end
