(* ===== verification/Ws_Session_Threads.thy ===== *)
theory Ws_Session_Threads
  imports Threads Ws_Session_Runs "HOL-Library.Multiset"
begin

text \<open>
  The session between the strand and the threads of its callers. Here a completion handler is not
  one step but a program: the statements between its sections under \<^verbatim>\<open>locker\<close>, and the
  sections. A call of another thread takes effect in one section, between any two steps of the
  handler, and posts its handler some time later. Each such run is a run of the session whose
  handlers and calls are atomic, with the same calls and the same answers.
\<close>

section \<open>Handlers as programs\<close>

definition pump_p :: "env \<Rightarrow> 'j session thread" where
  "pump_p e =
     branch (\<lambda>s. if writeInFlight s \<or> \<not> connected s \<or> ws s = None \<or> \<not> is_open e then Halt
     else Act (\<lambda>s. case outboundQueue s of [] \<Rightarrow> s
                 | frame # rest \<Rightarrow> s\<lparr>writeBuffer := frame, outboundQueue := rest\<rparr>)
       (\<lambda>s. if outboundQueue s = [] then Halt
          else act_then (writeInFlight_update (\<lambda>_. True))
            (act_then (\<lambda>s. start_op (Write (generation s)) (s\<lparr>sent := sent s @ [(generation s, writeBuffer s)]\<rparr>))
              Halt)))"

definition flush_section :: "'j session \<Rightarrow> 'j session" where
  "flush_section s =
     (if pendingTopics s = [] then s
      else s\<lparr>subscriptions := subscriptions s @ pendingTopics s, pendingTopics := [],
             reqIdCounter := Suc (reqIdCounter s),
             inflightSubscribes :=
               AList.update (nat_to_string (Suc (reqIdCounter s))) (pendingTopics s) (inflightSubscribes s)\<rparr>)"

definition flushTopics_p :: "'j jops \<Rightarrow> env \<Rightarrow> 'j session thread" where
  "flushTopics_p J e =
     branch (\<lambda>s. if \<not> connected s \<or> (authRequired s \<and> \<not> authenticated s) then Halt
     else Act flush_section
       (\<lambda>s. if pendingTopics s = [] then Halt
          else act_then (enqueueOp (subscribe_frame J (pendingTopics s) (nat_to_string (Suc (reqIdCounter s)))))
            (pump_p e)))"

definition sendAuth_p :: "'j jops \<Rightarrow> env \<Rightarrow> 'j session thread" where
  "sendAuth_p J e =
     (let expires = ms_clock e + AUTH_EXPIRES_OFFSET_IN_MS;
          payload = ''GET/realtime'' @ int_to_string expires in
      Act (authDeadline_update (\<lambda>_. Some (steady e + seconds AUTH_ACK_TIMEOUT_IN_S)))
        (\<lambda>s. act_then (enqueueOp (auth_frame J (apiKey s) expires (hmac_sha256_hex e (apiSecret s) payload)))
           (pump_p e)))"

text \<open>\<^verbatim>\<open>authenticatedFlag\<close> is an atomic, written by a step of its own.\<close>

abbreviation unauthenticate :: "'j session thread \<Rightarrow> 'j session thread" where
  "unauthenticate \<equiv> act_then (authenticatedFlag_update (\<lambda>_. False))"

definition error_section :: "'j session \<Rightarrow> 'j session" where
  "error_section s = s\<lparr>outboundQueue := [], inflightSubscribes := [],
     pendingTopics := subscriptions s @ pendingTopics s, subscriptions := []\<rparr>"

definition handleError_p :: "env \<Rightarrow> nat \<Rightarrow> string \<Rightarrow> 'j session thread" where
  "handleError_p e gen msg =
     branch (\<lambda>s. if gen \<noteq> generation s \<or> reconnectScheduled s then Halt
     else act_then (log_line Error msg)
       (branch (\<lambda>s. if userClosed s then Halt
        else act_then (\<lambda>s. s\<lparr>reconnectScheduled := True, connected := False, authenticated := False\<rparr>)
          (unauthenticate
          (act_then (\<lambda>s. s\<lparr>writeInFlight := False, authDeadline := None\<rparr>)
          (act_then error_section
          (act_then (\<lambda>s. log_line Warning
              (''Bybit WS reconnecting in '' @ int_to_string (reconnectDelayS s) @ '' s'') s)
          (act_then (\<lambda>s. start_op (ReconnectWait gen)
              (s\<lparr>reconnectDelayS := min (reconnectDelayS s * 2) RECONNECT_DELAY_MAX_IN_S\<rparr>))
            Halt))))))))"

definition startConnect_p :: "'j session thread" where
  "startConnect_p =
     branch (\<lambda>s. if userClosed s then Halt
     else act_then (\<lambda>s. s\<lparr>generation := Suc (generation s), connected := False, authenticated := False\<rparr>)
       (unauthenticate
       (act_then (\<lambda>s. start_op (Resolve (generation s))
          (s\<lparr>writeInFlight := False, authDeadline := None, hostHeader := host s, ws := Some (generation s)\<rparr>))
         Halt)))"

definition onReconnectTimer_p :: "env \<Rightarrow> nat \<Rightarrow> 'j session thread" where
  "onReconnectTimer_p e gen =
     branch (\<lambda>s. if gen \<noteq> generation s then Halt
     else act_then (reconnectScheduled_update (\<lambda>_. False))
       (branch (\<lambda>s. if ec e \<noteq> None \<or> userClosed s then Halt else startConnect_p)))"

definition onResolve_p :: "env \<Rightarrow> nat \<Rightarrow> 'j session thread" where
  "onResolve_p e gen =
     (case ec e of
        Some m \<Rightarrow> handleError_p e gen (at_line e 307 m)
      | None \<Rightarrow> act_then (start_op (TcpConnect gen)) Halt)"

definition onConnect_p :: "env \<Rightarrow> nat \<Rightarrow> 'j session thread" where
  "onConnect_p e gen =
     (case ec e of
        Some m \<Rightarrow> handleError_p e gen (at_line e 327 m)
      | None \<Rightarrow>
          (case sni_error e of
             Some m \<Rightarrow> handleError_p e gen (at_line e 334 m)
           | None \<Rightarrow> act_then (\<lambda>s. s\<lparr>hostHeader := host s @ '':'' @ nat_to_string (ep_port e)\<rparr>)
               (act_then (start_op (TlsHandshake gen)) Halt)))"

definition onSSLHandshake_p :: "env \<Rightarrow> nat \<Rightarrow> 'j session thread" where
  "onSSLHandshake_p e gen =
     (case ec e of
        Some m \<Rightarrow> handleError_p e gen (at_line e 352 m)
      | None \<Rightarrow> act_then (start_op (WsHandshake gen)) Halt)"

definition onHandshake_p :: "'j jops \<Rightarrow> env \<Rightarrow> nat \<Rightarrow> 'j session thread" where
  "onHandshake_p J e gen =
     (case ec e of
        Some m \<Rightarrow> handleError_p e gen (at_line e 383 m)
      | None \<Rightarrow>
          branch (\<lambda>s. if userClosed s then Halt
          else act_then (\<lambda>s. s\<lparr>connected := True, lastPongTime := steady e\<rparr>)
            (act_then (start_op (PingWait gen))
            (branch (\<lambda>s. andthen (if authRequired s then sendAuth_p J e else flushTopics_p J e)
              (act_then (start_op (Read gen)) Halt))))))"

text \<open>\<open>done\<close> follows a handled message, \<open>fail x\<close> an exception.\<close>

definition handleSubscribeAck_p ::
  "bool \<Rightarrow> string \<Rightarrow> string \<Rightarrow> (exn \<Rightarrow> 'j session thread) \<Rightarrow> 'j session thread \<Rightarrow> 'j session thread" where
  "handleSubscribeAck_p success ret_msg reqId fail done =
     Act (\<lambda>s. case handleSubscribeAck success ret_msg reqId s of Inl _ \<Rightarrow> s | Inr s' \<Rightarrow> s')
       (\<lambda>s. case handleSubscribeAck success ret_msg reqId s of Inl x \<Rightarrow> fail x | Inr _ \<Rightarrow> done)"

definition readR :: "(bool \<times> 'a) res \<Rightarrow> (exn \<Rightarrow> 's thread) \<Rightarrow> ('a \<Rightarrow> 's thread) \<Rightarrow> 's thread" where
  "readR r fail p = (case r of Inl x \<Rightarrow> fail x | Inr (_, v) \<Rightarrow> p v)"

definition handleApiControlMsg_p ::
  "'j jops \<Rightarrow> env \<Rightarrow> nat \<Rightarrow> 'j \<Rightarrow> (exn \<Rightarrow> 'j session thread) \<Rightarrow> 'j session thread \<Rightarrow> 'j session thread" where
  "handleApiControlMsg_p J e gen json fail done =
     readR (readString J json ''op'' []) fail (\<lambda>operation.
     readR (readBool J json ''success'' True) fail (\<lambda>success.
     readR (readString J json ''ret_msg'' []) fail (\<lambda>ret_msg.
       if operation = ''pong'' \<or> ret_msg = ''pong'' then act_then (lastPongTime_update (\<lambda>_. steady e)) done
       else if operation = ''auth'' then
         if success then
           act_then (authenticated_update (\<lambda>_. True))
             (act_then (authenticatedFlag_update (\<lambda>_. True))
             (act_then (\<lambda>s. s\<lparr>authDeadline := None, reconnectDelayS := 1\<rparr>)
             (act_then (log_line Info ''Bybit WS authenticated'') (andthen (flushTopics_p J e) done))))
         else andthen (handleError_p e gen (''Bybit WS auth failed: '' @ ret_msg)) done
       else if operation = ''subscribe'' then
         readR (readString J json ''req_id'' []) fail (\<lambda>reqId. handleSubscribeAck_p success ret_msg reqId fail done)
       else if \<not> success then
         act_then (log_line Error (''Bybit API Error, operation: '' @ operation @ '', message: '' @ ret_msg)) done
       else done)))"

definition deliver_p :: "'j jops \<Rightarrow> env \<Rightarrow> 'j \<Rightarrow> 'j session thread \<Rightarrow> 'j session thread" where
  "deliver_p J e json done =
     (case Event_fromJson J json (Event_init J) of
        Inl x \<Rightarrow> act_then (log_line Error (at_line e 451 (what x))) done
      | Inr event \<Rightarrow>
          branch (\<lambda>s. case dataEventCB s of
             None \<Rightarrow> done
           | Some cb \<Rightarrow> act_then (\<lambda>s. s\<lparr>delivered := delivered s @ [event]\<rparr>)
               (case cb event of
                  None \<Rightarrow> done
                | Some x \<Rightarrow> act_then (log_line Error (at_line e 451 (what x))) done)))"

definition rearmRead_p :: "nat \<Rightarrow> 'j session thread" where
  "rearmRead_p gen =
     branch (\<lambda>s. if gen \<noteq> generation s \<or> reconnectScheduled s \<or> \<not> connected s then Halt
     else act_then (\<lambda>s. if \<not> authRequired s \<or> authenticated s then s\<lparr>reconnectDelayS := 1\<rparr> else s)
       (act_then (start_op (Read gen)) Halt))"

text \<open>A JSON exception is an error of the connection; any other leaves the handler.\<close>

definition failed_p :: "env \<Rightarrow> nat \<Rightarrow> exn \<Rightarrow> 'j session thread" where
  "failed_p e gen x =
     (case x of JsonException m \<Rightarrow> handleError_p e gen (at_line e 479 m)
      | _ \<Rightarrow> act_then (\<lambda>s. s\<lparr>escaped := escaped s @ [x]\<rparr>) Halt)"

definition onRead_p :: "'j jops \<Rightarrow> env \<Rightarrow> nat \<Rightarrow> 'j session thread" where
  "onRead_p J e gen =
     (case ec e of
        Some m \<Rightarrow> handleError_p e gen (at_line e 425 m)
      | None \<Rightarrow>
          (case j_parse J (message e) of
             Inl x \<Rightarrow> failed_p e gen x
           | Inr json \<Rightarrow>
               if j_is_object J json then
                 if isApiControlMsg J json
                 then handleApiControlMsg_p J e gen json (failed_p e gen) (rearmRead_p gen)
                 else deliver_p J e json (rearmRead_p gen)
               else rearmRead_p gen))"

definition onWrite_p :: "env \<Rightarrow> nat \<Rightarrow> 'j session thread" where
  "onWrite_p e gen =
     act_then (writeInFlight_update (\<lambda>_. False))
       (case ec e of
          Some m \<Rightarrow> handleError_p e gen (fileline e 157 @ '': write: '' @ m)
        | None \<Rightarrow> pump_p e)"

definition onPingTimer_p :: "'j jops \<Rightarrow> env \<Rightarrow> nat \<Rightarrow> 'j session thread" where
  "onPingTimer_p J e gen =
     (if ec e \<noteq> None then Halt
      else branch (\<lambda>s. if gen \<noteq> generation s then Halt
      else branch (\<lambda>s. if userClosed s then Halt
      else branch (\<lambda>s.
        if connected s then
          let sincePong = (steady e - lastPongTime s) div seconds 1 in
          if sincePong > PONG_TIMEOUT_IN_S then
            handleError_p e gen (at_line e 591 (''no pong for '' @ int_to_string sincePong @ '' s''))
          else if authRequired s \<and> \<not> authenticated s \<and>
                  (case authDeadline s of None \<Rightarrow> False | Some d \<Rightarrow> steady e > d) then
            handleError_p e gen (at_line e 595 ''auth ack timeout'')
          else act_then (enqueueOp (ping_frame J))
            (andthen (pump_p e) (act_then (start_op (PingWait gen)) Halt))
        else act_then (start_op (PingWait gen)) Halt))))"

definition closeByUser_p :: "env \<Rightarrow> 'j session thread" where
  "closeByUser_p e =
     Act (\<lambda>s. if userClosed s then s else s\<lparr>userClosed := True\<rparr>)
       (\<lambda>s. if userClosed s then Halt
        else branch (\<lambda>s. if ws s = None then Halt
          else if is_open e \<and> \<not> writeInFlight s then act_then (start_op AsyncClose) Halt
          else Halt))"

definition onAsyncClose_p :: "env \<Rightarrow> 'j session thread" where
  "onAsyncClose_p e =
     (case ec e of None \<Rightarrow> Halt | Some m \<Rightarrow> act_then (log_line Error (at_line e 692 m)) Halt)"

definition postedUnsubscribe_p :: "'j jops \<Rightarrow> env \<Rightarrow> string \<Rightarrow> 'j session thread" where
  "postedUnsubscribe_p J e topic =
     branch (\<lambda>s. if \<not> connected s then Halt
       else act_then (enqueueOp (unsubscribe_frame J topic)) (pump_p e))"

definition guarded_p :: "nat \<Rightarrow> 'j session thread \<Rightarrow> 'j session thread" where
  "guarded_p gen p = branch (\<lambda>s. if gen \<noteq> generation s then Halt else p)"

fun dispatch_p :: "'j jops \<Rightarrow> env \<Rightarrow> op \<Rightarrow> 'j session thread" where
  "dispatch_p J e (Resolve g) = guarded_p g (onResolve_p e g)"
| "dispatch_p J e (TcpConnect g) = guarded_p g (onConnect_p e g)"
| "dispatch_p J e (TlsHandshake g) = guarded_p g (onSSLHandshake_p e g)"
| "dispatch_p J e (WsHandshake g) = guarded_p g (onHandshake_p J e g)"
| "dispatch_p J e (Read g) = guarded_p g (onRead_p J e g)"
| "dispatch_p J e (Write g) = guarded_p g (onWrite_p e g)"
| "dispatch_p J e (PingWait g) = onPingTimer_p J e g"
| "dispatch_p J e (ReconnectWait g) = onReconnectTimer_p e g"
| "dispatch_p J e AsyncClose = onAsyncClose_p e"
| "dispatch_p J e PostStart = startConnect_p"
| "dispatch_p J e PostFlush = flushTopics_p J e"
| "dispatch_p J e (PostUnsubscribe t) = postedUnsubscribe_p J e t"
| "dispatch_p J e PostClose = closeByUser_p e"

definition handler_p :: "'j jops \<Rightarrow> env \<Rightarrow> op \<Rightarrow> 'j session thread" where
  "handler_p J e x = act_then (\<lambda>s. s\<lparr>ops := remove1 x (ops s)\<rparr>) (dispatch_p J e x)"

section \<open>Run alone, they are the handlers\<close>

lemma finish_pump [simp]: "finish (pump_p e) s = pump e s"
  by (simp add: pump_p_def pump_def start_op_def split: list.split)

lemma finish_flush [simp]: "finish (flushTopics_p J e) s = flushTopics J e s"
  by (simp add: flushTopics_p_def flushTopics_def flush_section_def Let_def)

lemma finish_auth [simp]: "finish (sendAuth_p J e) s = sendAuth J e s"
  by (simp add: sendAuth_p_def sendAuth_def Let_def)

lemma finish_error [simp]: "finish (handleError_p e g m) s = handleError e g m s"
  by (simp add: handleError_p_def handleError_def error_section_def log_line_def start_op_def Let_def)

lemma finish_connect [simp]: "finish startConnect_p s = startConnect s"
  by (simp add: startConnect_p_def startConnect_def start_op_def Let_def)

lemma finish_rearm [simp]: "finish (rearmRead_p g) s = rearmRead g s"
  by (simp add: rearmRead_p_def rearmRead_def Let_def)

lemma finish_failed:
  "finish (failed_p e g x) s =
     (case x of JsonException m \<Rightarrow> handleError e g (at_line e 479 m) s | _ \<Rightarrow> s\<lparr>escaped := escaped s @ [x]\<rparr>)"
  by (simp add: failed_p_def split: exn.split)

lemma finish_readR:
  "finish (readR r fail p) s = (case r of Inl x \<Rightarrow> finish (fail x) s | Inr (_, v) \<Rightarrow> finish (p v) s)"
  by (simp add: readR_def split: sum.split)

lemma finish_control:
  "finish (handleApiControlMsg_p J e g json fail done) s =
     (case handleApiControlMsg J e g json s of Inl x \<Rightarrow> finish (fail x) s | Inr s' \<Rightarrow> finish done s')"
  by (simp add: handleApiControlMsg_p_def handleApiControlMsg_def finish_readR finish_andthen
      handleSubscribeAck_p_def log_line_def bindR_def split: sum.split)

lemma finish_deliver: "finish (deliver_p J e json done) s = finish done (deliver J e json s)"
  by (simp add: deliver_p_def deliver_def Let_def split: sum.split option.split)

lemma finish_read [simp]: "finish (onRead_p J e g) s = onRead J e g s"
  by (auto simp: onRead_p_def onRead_def processMessage_def finish_failed finish_control finish_deliver bindR_def
      split: option.split sum.split exn.split)

lemma finish_handshake [simp]: "finish (onHandshake_p J e g) s = onHandshake J e g s"
  by (simp add: onHandshake_p_def onHandshake_def finish_andthen Let_def split: option.split)

lemma finish_dispatch: "finish (dispatch_p J e x) s = dispatch J e x s"
  by (cases x) (simp_all add: guarded_p_def guarded_def onResolve_p_def onResolve_def onConnect_p_def onConnect_def
      onSSLHandshake_p_def onSSLHandshake_def onWrite_p_def onWrite_def onPingTimer_p_def onPingTimer_def
      onReconnectTimer_p_def onReconnectTimer_def onAsyncClose_p_def onAsyncClose_def closeByUser_p_def
      closeByUser_def postedUnsubscribe_p_def postedUnsubscribe_def finish_andthen Let_def split: option.split)

lemma finish_handler: "finish (handler_p J e x) s = complete J e x s"
  by (simp add: handler_p_def complete_def finish_dispatch)

section \<open>Calls of other threads\<close>

text \<open>
  A call is one section, its answer (for \<^verbatim>\<open>unsubscribe\<close>, what \<^verbatim>\<open>removeTopic\<close>
  returns; for a call that answers nothing, true) and what it posts on the strand.
\<close>

datatype call = Subscribe string | Unsubscribe string | Close | IsSubscribed string | IsConfirmed string

fun effect :: "call \<Rightarrow> 'j session \<Rightarrow> 'j session" where
  "effect (Subscribe t) s = addTopic t s"
| "effect (Unsubscribe t) s = snd (removeTopic t s)"
| "effect _ s = s"

lemma effect_frame [simp]:
  "ops (effect c s) = ops s" "userClosed (effect c s) = userClosed s" "connected (effect c s) = connected s"
  "generation (effect c s) = generation s"
  by (cases c; simp add: addTopic_def removeTopic_def Let_def)+

lemma timer_effect: "timer_ok x e (effect c s) = timer_ok x e s"
  by (cases x) simp_all

fun answer :: "call \<Rightarrow> 'j session \<Rightarrow> bool" where
  "answer (Unsubscribe t) s = fst (removeTopic t s)"
| "answer (IsSubscribed t) s = isSubscribed t s"
| "answer (IsConfirmed t) s = isSubscriptionConfirmed t s"
| "answer _ s = True"

fun posts :: "call \<Rightarrow> bool \<Rightarrow> op list" where
  "posts (Subscribe t) _ = [PostFlush]"
| "posts (Unsubscribe t) was_sent = (if was_sent then [PostUnsubscribe t] else [])"
| "posts Close _ = [PostClose]"
| "posts _ _ = []"

section \<open>What a call does not see\<close>

abbreviation put_topics :: "string list \<Rightarrow> string list \<Rightarrow> 'j session \<Rightarrow> 'j session" where
  "put_topics S P s \<equiv> s\<lparr>subscriptions := S, pendingTopics := P\<rparr>"

definition hidden :: "('j session \<Rightarrow> 'j session) \<Rightarrow> ('j session \<Rightarrow> 'j session thread) \<Rightarrow> bool" where
  "hidden f k \<longleftrightarrow> (\<forall>s. subscriptions (f s) = subscriptions s \<and> pendingTopics (f s) = pendingTopics s \<and>
     inflightSubscribes (f s) = inflightSubscribes s \<and>
     (\<forall>S P. f (put_topics S P s) = put_topics S P (f s) \<and> k (put_topics S P s) = k s))"

lemma put_same: "put_topics (subscriptions s) P s = s\<lparr>pendingTopics := P\<rparr>"
  "put_topics S (pendingTopics s) s = s\<lparr>subscriptions := S\<rparr>"
  by simp_all

lemma effect_puts:
  "\<exists>S P. \<forall>s. subscriptions s = subs \<longrightarrow> pendingTopics s = pend \<longrightarrow> effect c s = put_topics S P s"
proof (cases c)
  case (Subscribe t)
  show ?thesis
    by (intro exI [of _ subs] exI [of _ "if t \<in> set subs \<or> t \<in> set pend then pend else pend @ [t]"])
      (auto simp: Subscribe addTopic_def)
next
  case (Unsubscribe t)
  show ?thesis
    by (intro exI [of _ "remove1 t subs"] exI [of _ "removeAll t pend"])
      (auto simp: Unsubscribe removeTopic_def Let_def remove1_idem)
qed (rule exI [of _ subs], rule exI [of _ pend], auto)+

lemma hidden_mover:
  assumes "hidden f k"
  shows "mover effect answer f k"
  unfolding mover_def
proof (intro allI conjI)
  fix c and s :: "'a session"
  obtain S P where "\<And>u :: 'a session. subscriptions u = subscriptions s \<Longrightarrow> pendingTopics u = pendingTopics s
      \<Longrightarrow> effect c u = put_topics S P u"
    using effect_puts [of "subscriptions s" "pendingTopics s" c] by metis
  then show "f (effect c s) = effect c (f s)" "k (effect c s) = k s"
    using assms by (simp_all add: hidden_def)
  show "answer c (f s) = answer c s"
    using assms by (cases c) (simp_all add: hidden_def removeTopic_def isSubscribed_def isSubscriptionConfirmed_def Let_def)
qed

text \<open>A program whose steps do not even touch the topic books.\<close>

primrec quiet :: "'j session thread \<Rightarrow> bool" where
  "quiet Halt = True"
| "quiet (Act f k) = (hidden f k \<and> (\<forall>s. quiet (k s)))"

lemma quiet_unseen: "quiet p \<Longrightarrow> unseen effect answer p"
  by (induction p) (auto intro: hidden_mover)

declare one_section.simps(2) [simp del]

abbreviation atomic :: "'j session thread \<Rightarrow> bool" where
  "atomic \<equiv> one_section effect answer"

lemma atomic_quiet: "quiet p \<Longrightarrow> atomic p"
  by (intro unseen_one_section quiet_unseen)

lemma atomic_hidden: "hidden f k \<Longrightarrow> (\<And>s. atomic (k s)) \<Longrightarrow> atomic (Act f k)"
  by (simp add: hidden_mover one_section.simps)

lemma atomic_section: "(\<And>s. quiet (k s)) \<Longrightarrow> atomic (Act f k)"
  by (simp add: quiet_unseen one_section.simps)

lemma quiet_pump: "quiet (pump_p e)"
  by (auto simp: pump_p_def hidden_def start_op_def split: list.split)

lemma quiet_auth: "quiet (sendAuth_p J e)"
  using quiet_pump by (auto simp: sendAuth_p_def hidden_def enqueueOp_def Let_def)

lemma quiet_connect: "quiet startConnect_p"
  by (auto simp: startConnect_p_def hidden_def start_op_def)

lemma quiet_rearm: "quiet (rearmRead_p g)"
  by (auto simp: rearmRead_p_def hidden_def start_op_def)

lemma atomic_flush: "atomic (flushTopics_p J e)"
  unfolding flushTopics_p_def
  by (intro atomic_hidden) (auto simp: hidden_def enqueueOp_def quiet_pump intro!: atomic_section)

lemma atomic_error: "atomic (handleError_p e g m)"
proof -
  let ?log = "\<lambda>s :: 'a session. log_line Warning (''Bybit WS reconnecting in '' @ int_to_string (reconnectDelayS s) @ '' s'') s"
  let ?arm = "\<lambda>s :: 'a session. start_op (ReconnectWait g) (s\<lparr>reconnectDelayS := min (reconnectDelayS s * 2) RECONNECT_DELAY_MAX_IN_S\<rparr>)"
  have "quiet (act_then ?log (act_then ?arm Halt))" by (auto simp: hidden_def log_line_def start_op_def)
  then have books: "atomic (act_then error_section (act_then ?log (act_then ?arm Halt)))" by (rule atomic_section)
  have "atomic (act_then (\<lambda>s. s\<lparr>reconnectScheduled := True, connected := False, authenticated := False\<rparr>)
      (unauthenticate (act_then (\<lambda>s. s\<lparr>writeInFlight := False, authDeadline := None\<rparr>)
        (act_then error_section (act_then ?log (act_then ?arm Halt))))))"
    by (rule atomic_hidden [OF _ atomic_hidden [OF _ atomic_hidden [OF _ books]]]) (simp_all add: hidden_def)
  then have "atomic (branch (\<lambda>s. if userClosed s then Halt
      else act_then (\<lambda>s. s\<lparr>reconnectScheduled := True, connected := False, authenticated := False\<rparr>)
      (unauthenticate (act_then (\<lambda>s. s\<lparr>writeInFlight := False, authDeadline := None\<rparr>)
        (act_then error_section (act_then ?log (act_then ?arm Halt)))))))"
    by (rule_tac atomic_hidden) (simp_all add: hidden_def)
  from atomic_hidden [OF _ this, of "log_line Error m"]
  have "atomic (act_then (log_line Error m) (branch (\<lambda>s. if userClosed s then Halt
      else act_then (\<lambda>s. s\<lparr>reconnectScheduled := True, connected := False, authenticated := False\<rparr>)
      (unauthenticate (act_then (\<lambda>s. s\<lparr>writeInFlight := False, authDeadline := None\<rparr>)
        (act_then error_section (act_then ?log (act_then ?arm Halt))))))))"
    by (auto simp: hidden_def log_line_def)
  then show ?thesis
    unfolding handleError_p_def by (rule_tac atomic_hidden) (simp_all add: hidden_def)
qed

lemma atomic_handshake: "atomic (onHandshake_p J e g)"
proof -
  have q: "quiet (act_then (start_op (Read g)) Halt)" by (simp add: hidden_def start_op_def)
  have "atomic (andthen (if a then sendAuth_p J e else flushTopics_p J e) (act_then (start_op (Read g)) Halt))" for a
    by (rule one_section_andthen [OF _ quiet_unseen [OF q]]) (simp add: atomic_flush atomic_quiet quiet_auth)
  then show ?thesis
    by (auto simp: onHandshake_p_def atomic_error hidden_def start_op_def simp del: andthen.simps
        intro!: atomic_hidden split: option.split)
qed

text \<open>The section of a subscribe ack throws no JSON exception, so no second section follows it.\<close>

lemma ack_throws:
  assumes "handleSubscribeAck success m reqId s = Inl x"
  shows "quiet (failed_p e g x)"
proof -
  have "oldest_op k ks = Inl x \<Longrightarrow> \<exists>msg. x = InvalidArgument msg \<or> x = OutOfRange msg" for k ks
    by (induction k ks rule: oldest_op.induct)
      (auto simp: bindR_def stoull_def scan_within_def Let_def split: sum.splits if_splits option.splits)
  then have "\<exists>msg. x = InvalidArgument msg \<or> x = OutOfRange msg"
    using assms
    by (auto simp: handleSubscribeAck_def answered_op_def bindR_def Let_def split: sum.splits if_splits list.splits option.splits)
  then show ?thesis by (auto simp: failed_p_def hidden_def)
qed

lemma atomic_failed: "atomic (failed_p e g x)"
  by (cases x) (simp_all add: failed_p_def atomic_error atomic_quiet hidden_def)

lemma atomic_ack: "atomic (handleSubscribeAck_p success m reqId (failed_p e g) (rearmRead_p g))"
  unfolding handleSubscribeAck_p_def
  by (rule atomic_section) (auto simp: quiet_rearm ack_throws split: sum.split)

lemma atomic_readR: "(\<And>v. atomic (p v)) \<Longrightarrow> atomic (readR r (failed_p e g) p)"
  by (auto simp: readR_def atomic_failed split: sum.split)

lemma atomic_control: "atomic (handleApiControlMsg_p J e g json (failed_p e g) (rearmRead_p g))"
proof -
  have flush: "atomic (andthen (flushTopics_p J e) (rearmRead_p g))"
    by (intro one_section_andthen atomic_flush quiet_unseen quiet_rearm)
  have error: "atomic (andthen (handleError_p e g m) (rearmRead_p g :: 'a session thread))" for m
    by (intro one_section_andthen atomic_error quiet_unseen quiet_rearm)
  have log: "atomic (act_then (log_line v m) p)" if "atomic p" for v m and p :: "'a session thread"
    using that by (intro atomic_hidden) (auto simp: hidden_def log_line_def)
  have "atomic (act_then (lastPongTime_update (\<lambda>_. t)) (rearmRead_p g :: 'a session thread))" for t
    by (intro atomic_hidden) (auto simp: hidden_def atomic_quiet quiet_rearm)
  moreover have "atomic (act_then (authenticated_update (\<lambda>_. True)) (act_then (authenticatedFlag_update (\<lambda>_. True))
      (act_then (\<lambda>s. s\<lparr>authDeadline := None, reconnectDelayS := 1\<rparr>) (act_then (log_line Info m)
        (andthen (flushTopics_p J e) (rearmRead_p g))))))" for m
    by (intro atomic_hidden log flush) (simp_all add: hidden_def)
  ultimately show ?thesis
    unfolding handleApiControlMsg_p_def
    by (intro atomic_readR) (simp add: error log atomic_quiet quiet_rearm atomic_ack atomic_readR)
qed

lemma quiet_deliver: "quiet (deliver_p J e json (rearmRead_p g))"
  by (auto simp: deliver_p_def hidden_def log_line_def quiet_rearm split: sum.split option.split)

lemma atomic_read: "atomic (onRead_p J e g)"
  by (auto simp: onRead_p_def atomic_error atomic_failed atomic_control atomic_quiet quiet_deliver quiet_rearm
      split: option.split sum.split)

lemma quiet_andthen: "quiet p \<Longrightarrow> quiet q \<Longrightarrow> quiet (andthen p q)"
  by (induction p) (auto simp: hidden_def)

lemma atomic_ping: "atomic (onPingTimer_p J e g)"
proof -
  have arm: "quiet (act_then (start_op (PingWait g)) Halt :: 'a session thread)" by (simp add: hidden_def start_op_def)
  have "quiet (andthen (pump_p e) (act_then (start_op (PingWait g)) Halt) :: 'a session thread)"
    by (rule quiet_andthen [OF quiet_pump arm])
  then have "quiet (act_then (enqueueOp m) (andthen (pump_p e) (act_then (start_op (PingWait g)) Halt)) :: 'a session thread)" for m
    by (simp add: hidden_def enqueueOp_def)
  from atomic_quiet [OF this] atomic_quiet [OF arm] show ?thesis
    by (auto simp: onPingTimer_p_def hidden_def atomic_error Let_def simp del: andthen.simps intro!: atomic_hidden)
qed

lemma atomic_dispatch: "atomic (dispatch_p J e x)"
proof -
  have g: "atomic (guarded_p g p)" if "atomic p" for g and p :: "'a session thread"
    unfolding guarded_p_def by (rule atomic_hidden) (auto simp: hidden_def that)
  show ?thesis
    by (cases x) (auto simp: onResolve_p_def onConnect_p_def onSSLHandshake_p_def onWrite_p_def onReconnectTimer_p_def
        onAsyncClose_p_def closeByUser_p_def postedUnsubscribe_p_def atomic_error atomic_flush atomic_handshake
        atomic_read atomic_ping atomic_quiet [OF quiet_pump]
        atomic_quiet [OF quiet_connect] hidden_def start_op_def log_line_def enqueueOp_def
        intro!: g atomic_hidden split: option.split)
qed

lemma atomic_handler: "atomic (handler_p J e x)"
  unfolding handler_p_def by (rule atomic_hidden) (simp_all add: hidden_def atomic_dispatch)

section \<open>Handlers do not look at what is pending\<close>

abbreviation pending_before :: "op list \<Rightarrow> 'j session \<Rightarrow> 'j session" where
  "pending_before xs \<equiv> ops_update ((@) xs)"

abbreviation blind :: "'j session thread \<Rightarrow> bool" where
  "blind \<equiv> unseen pending_before (\<lambda>_ _. ())"

lemma blind_pump: "blind (pump_p e)"
  by (auto simp: pump_p_def mover_def start_op_def split: list.split)

lemma blind_flush: "blind (flushTopics_p J e)"
  by (auto simp: flushTopics_p_def mover_def flush_section_def enqueueOp_def blind_pump)

lemma blind_auth: "blind (sendAuth_p J e)"
  by (auto simp: sendAuth_p_def mover_def enqueueOp_def blind_pump Let_def)

lemma blind_error: "blind (handleError_p e g m)"
  by (auto simp: handleError_p_def mover_def error_section_def log_line_def start_op_def)

lemma blind_connect: "blind startConnect_p"
  by (auto simp: startConnect_p_def mover_def start_op_def)

lemma blind_rearm: "blind (rearmRead_p g)"
  by (auto simp: rearmRead_p_def mover_def start_op_def)

lemma blind_failed: "blind (failed_p e g x)"
  by (cases x) (simp_all add: failed_p_def blind_error mover_def)

lemma blind_ack: "blind (handleSubscribeAck_p b m k (failed_p e g) (rearmRead_p g))"
proof -
  have "handleSubscribeAck b m k (pending_before xs s) = map_sum (\<lambda>x. x) (pending_before xs) (handleSubscribeAck b m k s)"
    for xs and s :: "'a session"
    by (auto simp: handleSubscribeAck_def bindR_def log_line_def Let_def split: sum.split option.split)
  then show ?thesis
    by (auto simp: handleSubscribeAck_p_def mover_def blind_failed blind_rearm split: sum.split)
qed

lemma blind_readR: "(\<And>v. blind (p v)) \<Longrightarrow> blind (readR r (failed_p e g) p)"
  by (auto simp: readR_def blind_failed split: sum.split)

lemma blind_control: "blind (handleApiControlMsg_p J e g json (failed_p e g) (rearmRead_p g))"
  unfolding handleApiControlMsg_p_def
  by (intro blind_readR)
    (simp add: blind_ack blind_readR blind_rearm unseen_andthen blind_flush blind_error mover_def log_line_def)

lemma blind_read: "blind (onRead_p J e g)"
  by (auto simp: onRead_p_def deliver_p_def blind_error blind_failed blind_control blind_rearm mover_def log_line_def
      split: option.split sum.split)

lemma blind_handshake: "blind (onHandshake_p J e g)"
  by (auto simp: onHandshake_p_def blind_error blind_auth blind_flush mover_def start_op_def
      intro!: unseen_andthen split: option.split)

lemma blind_ping: "blind (onPingTimer_p J e g)"
  by (auto simp: onPingTimer_p_def blind_error blind_pump mover_def start_op_def enqueueOp_def Let_def
      intro!: unseen_andthen)

lemma blind_dispatch: "blind (dispatch_p J e x)"
  by (cases x) (auto simp: guarded_p_def onResolve_p_def onConnect_p_def onSSLHandshake_p_def onWrite_p_def
      onReconnectTimer_p_def onAsyncClose_p_def closeByUser_p_def postedUnsubscribe_p_def blind_error blind_flush
      blind_handshake blind_read blind_ping blind_pump blind_connect mover_def start_op_def log_line_def enqueueOp_def
      split: option.split)

lemma dispatch_pending: "dispatch J e x (pending_before xs s) = pending_before xs (dispatch J e x s)"
  using unseen_act [OF blind_dispatch] by (simp add: finish_dispatch)

section \<open>The runs\<close>

text \<open>
  The state: the session; the handlers that calls have yet to post, or posted while a handler runs
  (the strand takes them up when it is idle); what is left of the handler that runs; and the calls
  made so far, with their answers.
\<close>

type_synonym 'j config = "'j session \<times> op list \<times> 'j session thread \<times> (call \<times> bool) list"

inductive tstep :: "'j jops \<Rightarrow> 'j config \<Rightarrow> 'j config \<Rightarrow> bool" for J where
  start: "x \<in> set (ops s) \<Longrightarrow> timer_ok x e s \<Longrightarrow> tstep J (s, posted, Halt, calls) (s, posted, handler_p J e x, calls)"
| run: "tstep J (s, posted, Act f k, calls) (f s, posted, k s, calls)"
| call: "tstep J (s, posted, p, calls) (effect c s, posted @ posts c (answer c s), p, calls @ [(c, answer c s)])"
| post: "x \<in> set posted \<Longrightarrow> tstep J (s, posted, Halt, calls) (start_op x s, remove1 x posted, Halt, calls)"
| pong: "tstep J (s, posted, Halt, calls) (onPongFrame e s, posted, Halt, calls)"

text \<open>The same with atomic handlers and calls: the steps of \<open>wstep\<close>, with the calls named.\<close>

fun call_effect :: "call \<Rightarrow> 'j session \<Rightarrow> 'j session" where
  "call_effect (Subscribe t) s = subscribe t s"
| "call_effect (Unsubscribe t) s = unsubscribe t s"
| "call_effect Close s = close s"
| "call_effect _ s = s"

inductive astep :: "'j jops \<Rightarrow> 'j session \<times> (call \<times> bool) list \<Rightarrow> 'j session \<times> (call \<times> bool) list \<Rightarrow> bool" for J where
  handler: "x \<in> set (ops s) \<Longrightarrow> timer_ok x e s \<Longrightarrow> astep J (s, calls) (complete J e x s, calls)"
| pong: "astep J (s, calls) (onPongFrame e s, calls)"
| call: "astep J (s, calls) (call_effect c s, calls @ [(c, answer c s)])"

lemma call_effect_wstep: "call_effect c s = s \<or> wstep J s (call_effect c s)"
  by (cases c) (auto intro: wstep.intros)

lemma astep_wstep: "astep J (s, h) (s', h') \<Longrightarrow> s' = s \<or> wstep J s s'"
  by (erule astep.cases) (use call_effect_wstep in \<open>auto intro: wstep.intros\<close>)

lemma asteps_reachable: "(astep J)\<^sup>*\<^sup>* (s, h) (s', h') \<Longrightarrow> reachable J s \<Longrightarrow> reachable J s'"
proof (induction "(s', h')" arbitrary: s' h' rule: rtranclp_induct)
  case (step y)
  then show ?case by (cases y) (metis astep_wstep reachable.step)
qed auto

text \<open>Equal but for the order of what is pending, and for what is still to be posted.\<close>

definition same_but :: "op list \<Rightarrow> 'j session \<Rightarrow> 'j session \<Rightarrow> bool" where
  "same_but posted s c \<longleftrightarrow> c\<lparr>ops := []\<rparr> = s\<lparr>ops := []\<rparr> \<and> mset (ops c) = mset (ops s) + mset posted"

lemma same_but_complete:
  assumes "same_but posted s c" and "x \<in> set (ops s)"
  shows "same_but posted (complete J e x s) (complete J e x c)"
proof -
  let ?b = "s\<lparr>ops := []\<rparr>"
  have run: "complete J e x u = pending_before (remove1 x (ops u)) (dispatch J e x ?b)" if "u\<lparr>ops := []\<rparr> = ?b" for u
  proof -
    have "u\<lparr>ops := remove1 x (ops u)\<rparr> = pending_before (remove1 x (ops u)) (u\<lparr>ops := []\<rparr>)"
      by (cases u) simp
    then show ?thesis by (simp only: complete_def that dispatch_pending)
  qed
  have "c\<lparr>ops := []\<rparr> = ?b" and m: "mset (ops c) = mset (ops s) + mset posted" using assms(1) by (simp_all add: same_but_def)
  then show ?thesis using assms(2) by (simp add: same_but_def run ac_simps)
qed

lemma same_but_fields:
  assumes "same_but posted s c"
  shows "answer k c = answer k s" "timer_ok x e c = timer_ok x e s" "set (ops c) = set (ops s) \<union> set posted"
proof -
  have eq: "f c = f s" if "\<And>u. f (u\<lparr>ops := []\<rparr>) = f u" for f :: "'a session \<Rightarrow> 'b"
    using assms that by (metis same_but_def)
  show "answer k c = answer k s"
    by (rule eq) (cases k, simp_all add: removeTopic_def isSubscribed_def isSubscriptionConfirmed_def Let_def)
  show "timer_ok x e c = timer_ok x e s" by (rule eq) (cases x, simp_all)
  show "set (ops c) = set (ops s) \<union> set posted"
    using assms by (metis same_but_def set_mset_mset set_mset_union)
qed

lemma same_but_call:
  assumes "same_but posted s c"
  shows "same_but (posted @ posts k (answer k s)) (effect k s) (call_effect k c)"
proof -
  have m: "mset (ops c) = mset (ops s) + mset posted" and eq: "c\<lparr>ops := []\<rparr> = s\<lparr>ops := []\<rparr>"
    using assms by (simp_all add: same_but_def)
  have "c = c\<lparr>ops := []\<rparr>\<lparr>ops := ops c\<rparr>" by (cases c) simp
  then have "c = s\<lparr>ops := ops c\<rparr>" by (simp add: eq)
  with m obtain l where c: "c = s\<lparr>ops := l\<rparr>" and l: "mset l = mset (ops s) + mset posted" by metis
  show ?thesis
    by (cases k) (auto simp: c l same_but_def subscribe_def unsubscribe_def close_def addTopic_def removeTopic_def
        start_op_def Let_def)
qed

section \<open>Every run is a run of the session\<close>

text \<open>
  Until the handler's section, or if it has none, the atomic run has not taken it yet; from then on
  the handler is done there.
\<close>

definition simulates :: "'j jops \<Rightarrow> 'j config \<Rightarrow> 'j session \<Rightarrow> bool" where
  "simulates J u c = (case u of (s, posted, p, calls) \<Rightarrow>
     unseen effect answer p \<and> same_but posted (finish p s) c \<or>
     (\<exists>s0 e x. x \<in> set (ops s0) \<and> timer_ok x e s0 \<and> same_but posted s0 c \<and>
        atomic p \<and> \<not> unseen effect answer p \<and> before effect answer (handler_p J e x) s0 p s))"

lemma simulates_start:
  assumes "same_but posted s0 c" and "x \<in> set (ops s0)" and "timer_ok x e s0"
    and "atomic p" and "before effect answer (handler_p J e x) s0 p s"
  shows "\<exists>c'. (astep J)\<^sup>*\<^sup>* (c, calls) (c', calls) \<and> simulates J (s, posted, p, h) c'"
proof (cases "unseen effect answer p")
  case True
  have "astep J (c, calls) (complete J e x c, calls)"
    using assms(2,3) same_but_fields [OF assms(1)] by (intro astep.handler) auto
  moreover have "same_but posted (finish p s) (complete J e x c)"
    using same_but_complete [OF assms(1,2)] before_finish [OF assms(5)] by (simp add: finish_handler)
  ultimately show ?thesis using True by (intro exI [of _ "complete J e x c"]) (simp add: simulates_def r_into_rtranclp)
next
  case False
  with assms show ?thesis by (intro exI [of _ c]) (auto simp: simulates_def)
qed

lemma simulation:
  assumes "tstep J u u'" and "simulates J u c"
  shows "\<exists>c'. (astep J)\<^sup>*\<^sup>* (c, snd (snd (snd u))) (c', snd (snd (snd u'))) \<and> simulates J u' c'"
  using assms(1)
proof cases
  case (start x s e posted calls)
  with assms(2) have "same_but posted s c" by (simp add: simulates_def)
  from simulates_start [OF this start(3,4) atomic_handler before.start] start show ?thesis by simp
next
  case (run s posted f k calls)
  from assms(2) consider (after) "unseen effect answer (Act f k)" "same_but posted (finish (k s) (f s)) c"
    | (inside) s0 e x where "x \<in> set (ops s0)" "timer_ok x e s0" "same_but posted s0 c" "atomic (Act f k)"
      "before effect answer (handler_p J e x) s0 (Act f k) s"
    by (auto simp: simulates_def run)
  then show ?thesis
  proof cases
    case after
    then show ?thesis by (intro exI [of _ c]) (simp add: run simulates_def)
  next
    case inside
    show ?thesis
    proof (cases "mover effect answer f k \<and> (\<forall>s. atomic (k s))")
      case True
      with simulates_start [OF inside(3,1,2) _ before.move [OF inside(5)]] show ?thesis by (simp add: run)
    next
      case False
      with inside(4) have k: "unseen effect answer (k s)" by (auto simp: one_section.simps)
      have "astep J (c, calls) (complete J e x c, calls)"
        using inside(1,2) same_but_fields [OF inside(3)] by (intro astep.handler) auto
      moreover have "same_but posted (finish (k s) (f s)) (complete J e x c)"
        using same_but_complete [OF inside(3,1)] before_finish [OF inside(5)] by (simp add: finish_handler)
      ultimately show ?thesis
        using k by (intro exI [of _ "complete J e x c"]) (simp add: run simulates_def r_into_rtranclp)
    qed
  qed
next
  case (call s posted p calls d)
  let ?c = "call_effect d c"
  have step: "(astep J)\<^sup>*\<^sup>* (c, calls) (?c, calls @ [(d, answer d c)])" by (intro r_into_rtranclp astep.call)
  from assms(2) consider (after) "unseen effect answer p" "same_but posted (finish p s) c"
    | (inside) s0 e x where "x \<in> set (ops s0)" "timer_ok x e s0" "same_but posted s0 c" "atomic p"
      "\<not> unseen effect answer p" "before effect answer (handler_p J e x) s0 p s"
    by (auto simp: simulates_def call)
  then show ?thesis
  proof cases
    case after
    have a: "answer d (finish p s) = answer d s" using after(1) by (rule unseen_obs)
    with same_but_fields(1) [OF after(2)] have "answer d c = answer d s" by simp
    with same_but_call [OF after(2), of d] step after(1) show ?thesis
      by (intro exI [of _ ?c]) (simp add: call simulates_def unseen_act a)
  next
    case inside
    have a: "answer d s = answer d s0" using inside(6) by (rule before_obs)
    with same_but_fields(1) [OF inside(3)] have c: "answer d c = answer d s" by simp
    have "\<exists>s1 e x. x \<in> set (ops s1) \<and> timer_ok x e s1 \<and> same_but (posted @ posts d (answer d s0)) s1 ?c \<and>
        atomic p \<and> \<not> unseen effect answer p \<and> before effect answer (handler_p J e x) s1 p (effect d s)"
      using same_but_call [OF inside(3), of d] before_act [OF inside(6), of d] inside(1,2,4,5)
      by (intro exI [of _ "effect d s0"] exI [of _ e] exI [of _ x]) (simp add: timer_effect)
    then have "simulates J u' ?c" by (simp add: call simulates_def a)
    with step c show ?thesis by (intro exI [of _ ?c]) (simp add: call)
  qed
next
  case (post x posted s calls)
  with assms(2) have "same_but posted s c" by (simp add: simulates_def)
  with post(3) have "same_but (remove1 x posted) (start_op x s) c"
    by (simp add: same_but_def start_op_def)
  then show ?thesis by (intro exI [of _ c]) (simp add: post simulates_def)
next
  case (pong s posted calls e)
  with assms(2) have "same_but posted s c" by (simp add: simulates_def)
  moreover have "(onPongFrame e u)\<lparr>ops := []\<rparr> = onPongFrame e (u\<lparr>ops := []\<rparr>)" "ops (onPongFrame e u) = ops u"
    for u :: "'a session" by (simp_all add: onPongFrame_def)
  ultimately have "same_but posted (onPongFrame e s) (onPongFrame e c)" by (simp add: same_but_def)
  then show ?thesis
    by (intro exI [of _ "onPongFrame e c"]) (auto simp: pong simulates_def intro: astep.pong)
qed

lemma runs_simulated:
  assumes "(tstep J)\<^sup>*\<^sup>* (s0, [], Halt, []) u"
  shows "\<exists>c. (astep J)\<^sup>*\<^sup>* (s0, []) (c, snd (snd (snd u))) \<and> simulates J u c"
  using assms
proof (induction rule: rtranclp_induct)
  case base
  show ?case by (intro exI [of _ s0]) (simp add: simulates_def same_but_def)
next
  case (step u v)
  then obtain c where "(astep J)\<^sup>*\<^sup>* (s0, []) (c, snd (snd (snd u)))" "simulates J u c" by blast
  with simulation [OF step.hyps(2)] show ?case by (blast intro: rtranclp_trans)
qed

text \<open>
  C10. Handlers and calls are atomic. Take any run of the session in which callers' threads come
  between the statements of a handler wherever the lock lets them, and what they post is posted
  later. There is a run in which every handler and every call is one step, with the same calls in
  the same order and the same answers; and whenever no handler is in the middle, it has led to the
  same session, up to the order of the pending handlers and those still to be posted.
\<close>

theorem session_linearizable:
  assumes "(tstep J)\<^sup>*\<^sup>* (s0, [], Halt, []) (s, posted, p, calls)"
  shows "\<exists>c. (astep J)\<^sup>*\<^sup>* (s0, []) (c, calls) \<and>
    (if p = Halt then c\<lparr>ops := []\<rparr> = s\<lparr>ops := []\<rparr> \<and> mset (ops c) = mset (ops s) + mset posted else True)"
proof -
  obtain c where c: "(astep J)\<^sup>*\<^sup>* (s0, []) (c, calls)" "simulates J (s, posted, p, calls) c"
    using runs_simulated [OF assms] by auto
  then show ?thesis by (intro exI [of _ c]) (auto simp: simulates_def same_but_def)
qed

section \<open>A run with a call between two sections\<close>

datatype turn = Take env op | Run | Make call | Post op

fun schedule :: "'j jops \<Rightarrow> turn list \<Rightarrow> 'j config \<Rightarrow> 'j config option" where
  "schedule J [] u = Some u"
| "schedule J (Take e x # ts) (s, posted, p, calls) =
     (case p of Act _ _ \<Rightarrow> None
      | Halt \<Rightarrow> if x \<in> set (ops s) \<and> timer_ok x e s then schedule J ts (s, posted, handler_p J e x, calls) else None)"
| "schedule J (Run # ts) (s, posted, p, calls) =
     (case p of Act f k \<Rightarrow> schedule J ts (f s, posted, k s, calls) | Halt \<Rightarrow> None)"
| "schedule J (Make c # ts) (s, posted, p, calls) =
     schedule J ts (effect c s, posted @ posts c (answer c s), p, calls @ [(c, answer c s)])"
| "schedule J (Post x # ts) (s, posted, p, calls) =
     (case p of Act _ _ \<Rightarrow> None
      | Halt \<Rightarrow> if x \<in> set posted then schedule J ts (start_op x s, remove1 x posted, Halt, calls) else None)"

lemma schedule_tsteps: "schedule J ts u = Some u' \<Longrightarrow> (tstep J)\<^sup>*\<^sup>* u u'"
proof (induction J ts u rule: schedule.induct)
  case (2 J e x ts s posted p calls)
  then show ?case
    by (auto split: thread.splits if_splits intro: converse_rtranclp_into_rtranclp tstep.start)
next
  case (3 J ts s posted p calls)
  then show ?case by (auto split: thread.splits intro: converse_rtranclp_into_rtranclp tstep.run)
next
  case (4 J c ts s posted p calls)
  then show ?case by (auto intro: converse_rtranclp_into_rtranclp tstep.call)
next
  case (5 J x ts s posted p calls)
  then show ?case
    by (auto split: thread.splits if_splits intro: converse_rtranclp_into_rtranclp tstep.post)
qed simp

text \<open>
  \<open>x\<close> is subscribed; when its flush has taken the pending topics, but before it has queued the
  frame, another thread subscribes \<open>y\<close> and asks for both.
\<close>

definition turns :: "turn list" where
  "turns = [Make (Subscribe ''x''), Post PostFlush, Take calm PostFlush, Run, Run, Run,
     Make (Subscribe ''y''), Make (IsSubscribed ''y''), Make (IsConfirmed ''x''), Run, Run]"

lemma turns_run:
  "case schedule demo turns (up, [], Halt, []) of Some (s, posted, p, calls) \<Rightarrow>
     pendingTopics s = [''y''] \<and> posted = [PostFlush] \<and> (case p of Halt \<Rightarrow> True | Act _ _ \<Rightarrow> False) \<and>
     calls = [(Subscribe ''x'', True), (Subscribe ''y'', True), (IsSubscribed ''y'', True), (IsConfirmed ''x'', False)]
   | None \<Rightarrow> False"
  by code_simp

lemma session_linearizable_witness:
  "\<exists>c. (astep demo)\<^sup>*\<^sup>* (up, []) (c, [(Subscribe ''x'', True), (Subscribe ''y'', True), (IsSubscribed ''y'', True),
     (IsConfirmed ''x'', False)]) \<and> pendingTopics c = [''y'']"
proof -
  obtain s posted p calls where run: "schedule demo turns (up, [], Halt, []) = Some (s, posted, p, calls)"
    and "pendingTopics s = [''y'']" "p = Halt"
    and "calls = [(Subscribe ''x'', True), (Subscribe ''y'', True), (IsSubscribed ''y'', True), (IsConfirmed ''x'', False)]"
    using turns_run by (auto split: option.splits thread.splits)
  moreover from session_linearizable [OF schedule_tsteps [OF run]]
  obtain c where "(astep demo)\<^sup>*\<^sup>* (up, []) (c, calls)" "p = Halt \<longrightarrow> c\<lparr>ops := []\<rparr> = s\<lparr>ops := []\<rparr>" by auto
  moreover have "pendingTopics (u\<lparr>ops := []\<rparr>) = pendingTopics u" for u :: "json session" by simp
  ultimately show ?thesis by metis
qed

end
