(* ===== verification/Live_Answer.thy ===== *)
theory Live_Answer
  imports Ws_Session_Threads Topic_Book
begin

text \<open>
  What an answer is worth that was put together from several calls. \<^verbatim>\<open>isLive()\<close> asks
  for one topic after the other while the strand goes on; each answer is true when it is given, and
  the answers given on one connection are all still true at the last.
\<close>

section \<open>A connection that is lost stays lost\<close>

definition down :: "'j session \<Rightarrow> bool" where
  "down s \<longleftrightarrow> \<not> connected s \<and> (reconnectScheduled s \<or> userClosed s)"

definition falls :: "'j session \<Rightarrow> 'j session \<Rightarrow> bool" where
  "falls s s' \<longleftrightarrow> generation s < generation s' \<or>
     generation s' = generation s \<and> (connected s \<longrightarrow> connected s' \<or> down s') \<and> (down s \<longrightarrow> down s')"

lemma fallsI:
  "generation s' = generation s \<Longrightarrow> connected s' = connected s \<Longrightarrow> reconnectScheduled s' = reconnectScheduled s
    \<Longrightarrow> (userClosed s \<longrightarrow> userClosed s') \<Longrightarrow> falls s s'"
  by (auto simp: falls_def down_def)

lemma error_falls: "falls s (handleError e g m s)"
  by (auto simp: handleError_def falls_def down_def Let_def)

lemma connect_falls: "falls s (startConnect s)"
  by (auto simp: startConnect_def falls_def Let_def)

lemma falls_frame [simp]:
  "falls (ops_update f s) s' = falls s s'" "falls (writeInFlight_update h s) s' = falls s s'"
  by (simp_all add: falls_def down_def)

lemma message_falls:
  assumes "processMessage J e g s = Inr s'"
  shows "falls s s'"
  using assms
proof (cases rule: processMessage_cases)
  case (ack success ret_msg reqId)
  then show ?thesis by (intro fallsI) (simp_all add: ack_frame)
qed (auto intro: fallsI error_falls)

lemma read_falls: "falls s (onRead J e g s)"
proof (cases "ec e")
  case None
  show ?thesis
  proof (cases "processMessage J e g s")
    case (Inl x)
    with None show ?thesis by (cases x) (auto simp: onRead_def error_falls intro: fallsI)
  next
    case (Inr s')
    have "falls s (rearmRead g s')"
      using message_falls [OF Inr] by (auto simp: rearmRead_def falls_def down_def Let_def)
    with None Inr show ?thesis by (simp add: onRead_def)
  qed
qed (simp add: onRead_def error_falls)

lemma complete_falls:
  assumes "inv s" and "x \<in> set (ops s)" and "timer_ok x e s"
  shows "falls s (complete J e x s)"
proof -
  have err: "falls s (handleError e g m (s\<lparr>ops := r\<rparr>))" "falls s (handleError e g m (s\<lparr>ops := r, writeInFlight := False\<rparr>))"
    for g m r
    using error_falls [of "s\<lparr>ops := r\<rparr>"] error_falls [of "s\<lparr>ops := r, writeInFlight := False\<rparr>"] by simp_all
  have read: "falls s (onRead J e g (s\<lparr>ops := r\<rparr>))" for g r using read_falls [of "s\<lparr>ops := r\<rparr>"] by simp
  have con: "falls s (startConnect (s\<lparr>ops := r\<rparr>))" for r using connect_falls [of "s\<lparr>ops := r\<rparr>"] by simp
  have shake: "falls s (onHandshake J e (generation s) (s\<lparr>ops := r\<rparr>))" if "x = WsHandshake (generation s)" for r
  proof (cases "ec e = None \<and> \<not> userClosed s")
    case True
    have "chain (ops s) (generation s) = 1"
      using assms(1,2) that ops_okD(3) [of s] by (auto simp: inv_def chain_def count_in_set)
    then have "\<not> connected s" "\<not> reconnectScheduled s" using assms(1) ops_okD(4) [of s] by (auto simp: inv_def)
    with True show ?thesis by (auto simp: falls_def down_def onHandshake_def Let_def)
  next
    case False
    then show ?thesis by (auto simp: onHandshake_def err intro: fallsI split: option.split)
  qed
  have timer: "falls s (onReconnectTimer e g (s\<lparr>ops := r\<rparr>))" if "x = ReconnectWait g" for g r
  proof (cases "g = generation s \<and> ec e = None \<and> \<not> userClosed s")
    case True
    then show ?thesis by (simp add: onReconnectTimer_def startConnect_def falls_def)
  next
    case False
    then show ?thesis
      using assms(3) that by (auto simp: onReconnectTimer_def falls_def down_def Let_def)
  qed
  show ?thesis
    using shake timer
    by (cases x) (auto simp: complete_def guarded_def onResolve_def onConnect_def onSSLHandshake_def onWrite_def
        onPingTimer_def onAsyncClose_def postedUnsubscribe_def closeByUser_def Let_def
        intro: err read con fallsI split: option.splits)
qed

section \<open>A confirmation lasts as long as the connection\<close>

lemma call_falls: "falls s (call_effect c s)"
  by (cases c) (auto intro!: fallsI simp: subscribe_def unsubscribe_def addTopic_def removeTopic_def close_def Let_def)

lemma confirmed_call:
  "c \<noteq> Unsubscribe t \<Longrightarrow> isSubscriptionConfirmed t (call_effect c s) = isSubscriptionConfirmed t s"
  by (cases c) (auto simp: subscribe_def unsubscribe_def addTopic_def removeTopic_def close_def
      isSubscriptionConfirmed_def Let_def)

lemma confirmed_complete:
  assumes "books_ok s" and "isSubscriptionConfirmed t s" and "connected (complete J e x s)"
  shows "isSubscriptionConfirmed t (complete J e x s)"
proof -
  have t: "t \<in> snd (book_of s)" using assms(2) by (simp add: book_of_def)
  from complete_book [OF assms(1), of J e x] consider "book_of (complete J e x s) = book_of s"
    | l where "book_step l (book_of s) (book_of (complete J e x s))" "justified J e s l"
    using assms(3) by (auto simp: quiet_or_lost_def)
  then have "t \<in> snd (book_of (complete J e x s))"
  proof cases
    case 2
    then show ?thesis using t by (cases l) (auto elim: book_step.cases)
  qed (use t in simp)
  then show ?thesis by (simp add: book_of_def)
qed

text \<open>In generation \<open>g\<close> or later; and if still in \<open>g\<close>, confirmed or without a connection.\<close>

definition holds_on :: "string \<Rightarrow> nat \<Rightarrow> 'j session \<Rightarrow> bool" where
  "holds_on t g s \<longleftrightarrow> g \<le> generation s \<and> (generation s = g \<longrightarrow> isSubscriptionConfirmed t s \<or> down s)"

lemma holds_on_falls:
  assumes "holds_on t g s" and "falls s s'" and "books_ok s"
    and "isSubscriptionConfirmed t s \<Longrightarrow> connected s' \<Longrightarrow> isSubscriptionConfirmed t s'"
  shows "holds_on t g s'"
proof -
  have "connected s" if "isSubscriptionConfirmed t s"
    using that assms(3) by (auto simp: books_ok_def isSubscriptionConfirmed_def)
  with assms(1,2,4) show ?thesis by (auto simp: holds_on_def falls_def)
qed

lemma asteps_holds_on:
  assumes "(astep J)\<^sup>*\<^sup>* v u" and "reachable J (fst v)" and "holds_on t g (fst v)"
  shows "\<exists>h. snd u = snd v @ h \<and> reachable J (fst u) \<and> ((\<forall>b. (Unsubscribe t, b) \<notin> set h) \<longrightarrow> holds_on t g (fst u))"
  using assms(1)
proof (induction rule: rtranclp_induct)
  case base
  show ?case using assms(2,3) by simp
next
  case (step u w)
  obtain h where h: "snd u = snd v @ h" "reachable J (fst u)"
    "(\<forall>b. (Unsubscribe t, b) \<notin> set h) \<longrightarrow> holds_on t g (fst u)"
    using step.IH by blast
  have r: "reachable J (fst w)"
    using asteps_reachable [of J "fst u" "snd u" "fst w" "snd w"] r_into_rtranclp [where r = "astep J", OF step.hyps(2)] h(2) by simp
  have ok: "inv (fst u)" "books_ok (fst u)" using reachable_inv [OF h(2)] by (simp_all add: inv_def)
  from step.hyps(2) show ?case
  proof cases
    case (handler x s e calls)
    then have s: "inv s" "books_ok s" using ok by simp_all
    have "holds_on t g (complete J e x s)" if "holds_on t g s"
      by (rule holds_on_falls [OF that complete_falls [OF s(1) handler(3,4)] s(2)]) (rule confirmed_complete [OF s(2)])
    with handler h r show ?thesis by auto
  next
    case (pong s calls e)
    have "holds_on t g (onPongFrame e s) = holds_on t g s"
      by (simp add: onPongFrame_def holds_on_def down_def isSubscriptionConfirmed_def)
    with pong h r show ?thesis by auto
  next
    case (call s calls c)
    then have s: "books_ok s" using ok by simp
    have "holds_on t g (call_effect c s)" if "holds_on t g s" "c \<noteq> Unsubscribe t"
      by (rule holds_on_falls [OF that(1) call_falls s]) (simp add: confirmed_call [OF that(2)])
    with call h r show ?thesis by (intro exI [of _ "h @ [(c, answer c s)]"]) auto
  qed
qed

text \<open>The states in which the calls of a run were answered.\<close>

lemma answered_at:
  assumes "(astep J)\<^sup>*\<^sup>* (s0, []) u" and "snd u = h @ (k, a) # h'"
  shows "\<exists>s. (astep J)\<^sup>*\<^sup>* (s0, []) (s, h) \<and> a = answer k s \<and>
    (astep J)\<^sup>*\<^sup>* (call_effect k s, h @ [(k, a)]) u"
  using assms
proof (induction arbitrary: h' rule: rtranclp_induct)
  case (step u w)
  show ?case
  proof (cases "\<exists>h2. snd u = h @ (k, a) # h2")
    case True
    with step.IH step.hyps(2) show ?thesis by (meson rtranclp.rtrancl_into_rtrancl)
  next
    case False
    from step.hyps(2) show ?thesis
    proof cases
      case (call s calls c)
      with step.prems False have "h' = []" "c = k" "calls = h" "a = answer k s"
        by (auto simp: append_eq_append_conv2 append_eq_Cons_conv Cons_eq_append_conv)
      with step.hyps(1) call show ?thesis by auto
    qed (use False step.prems in auto)
  qed
qed simp

section \<open>The property\<close>

text \<open>
  C15. What \<^verbatim>\<open>isLive\<close> may conclude from its calls, whatever other threads do between them.
  When \<open>t\<close> was answered confirmed, and later \<open>u\<close>, and \<open>t\<close> was not unsubscribed in between, then
  each answer was true when it was given, at the second one the connection was up, authenticated
  where it must be, and not about to reconnect; and either \<open>t\<close> was still confirmed then, or the
  connection had been replaced by a newer one in between.
\<close>

theorem live_answer:
  assumes "reachable J s0" and "(tstep J)\<^sup>*\<^sup>* (s0, [], Halt, []) (s, posted, p, calls)"
    and "calls = h @ (IsConfirmed t, True) # h' @ (IsConfirmed u, True) # h''" and "\<forall>b. (Unsubscribe t, b) \<notin> set h'"
  shows "\<exists>c1 c2. (astep J)\<^sup>*\<^sup>* (s0, []) (c1, h) \<and>
    (astep J)\<^sup>*\<^sup>* (c1, h @ [(IsConfirmed t, True)]) (c2, h @ (IsConfirmed t, True) # h') \<and>
    isSubscriptionConfirmed t c1 \<and> isSubscriptionConfirmed u c2 \<and> connected c2 \<and> \<not> reconnectScheduled c2 \<and>
    (authRequired c2 \<longrightarrow> authenticated c2) \<and>
    (isSubscriptionConfirmed t c2 \<or> generation c1 < generation c2)"
proof -
  obtain c where c: "(astep J)\<^sup>*\<^sup>* (s0, []) (c, calls)" using session_linearizable [OF assms(2)] by blast
  then obtain c2 where c2: "(astep J)\<^sup>*\<^sup>* (s0, []) (c2, h @ (IsConfirmed t, True) # h')" "isSubscriptionConfirmed u c2"
    using answered_at [OF c, of "h @ (IsConfirmed t, True) # h'" "IsConfirmed u" True h''] by (auto simp: assms(3))
  obtain c1 where c1: "(astep J)\<^sup>*\<^sup>* (s0, []) (c1, h)" "isSubscriptionConfirmed t c1"
    "(astep J)\<^sup>*\<^sup>* (c1, h @ [(IsConfirmed t, True)]) (c2, h @ (IsConfirmed t, True) # h')"
    using answered_at [OF c2(1), of h "IsConfirmed t" True h'] by auto
  have r1: "reachable J c1" using c1(1) assms(1) by (rule asteps_reachable)
  have "holds_on t (generation c1) c1" using c1(2) by (simp add: holds_on_def)
  from asteps_holds_on [OF c1(3), of t "generation c1"] r1 this assms(4)
  have on: "holds_on t (generation c1) c2" "reachable J c2" by auto
  then have up: "connected c2" "\<not> reconnectScheduled c2" "authRequired c2 \<longrightarrow> authenticated c2"
    using c2(2) reachable_inv [OF on(2)] by (auto simp: inv_def books_ok_def isSubscriptionConfirmed_def)
  with on(1) have "isSubscriptionConfirmed t c2 \<or> generation c1 < generation c2"
    by (auto simp: holds_on_def down_def)
  with c1 c2(2) up show ?thesis by blast
qed

text \<open>Two topics, asked for one after the other while a write completes.\<close>

definition both :: "json session" where
  "both = the (runs demo (subscribe ''execution'' start_public) (public_run @ [(reads ''ack'', Read 1)]))"

lemma both_reachable: "reachable demo both"
proof -
  have "reachable demo (subscribe ''execution'' start_public)"
    using start_reachable(1) wstep.call_subscribe by (rule reachable.step)
  then show ?thesis unfolding both_def by (rule the_run_reachable [rotated]) code_simp
qed

lemma both_run:
  "case schedule demo [Make (IsConfirmed ''order''), Take calm (Write 1), Run, Run, Make (IsConfirmed ''execution'')]
     (both, [], Halt, []) of
     Some (s, posted, p, calls) \<Rightarrow> calls = [(IsConfirmed ''order'', True), (IsConfirmed ''execution'', True)]
   | None \<Rightarrow> False"
  by code_simp

lemma live_answer_witness:
  "\<exists>(c1 :: json session) (c2 :: json session). isSubscriptionConfirmed ''order'' c1 \<and> isSubscriptionConfirmed ''execution'' c2 \<and> connected c2 \<and>
    (isSubscriptionConfirmed ''order'' c2 \<or> generation c1 < generation c2)"
proof -
  obtain s posted p where "schedule demo
      [Make (IsConfirmed ''order''), Take calm (Write 1), Run, Run, Make (IsConfirmed ''execution'')]
      (both, [], Halt, []) = Some (s, posted, p, [(IsConfirmed ''order'', True), (IsConfirmed ''execution'', True)])"
    using both_run by (auto split: option.splits)
  from live_answer [OF both_reachable schedule_tsteps [OF this], of "[]" "''order''" "[]" "''execution''" "[]"]
  show ?thesis by simp blast
qed

end
