(* ===== verification/Rest_Core.thy ===== *)
theory Rest_Core
  imports Models_Account Decimals "HOL-Library.AList"
begin

text \<open>
  The core of the REST client (\<^verbatim>\<open>src/bybit_rest_client.cpp\<close>): which answers leave the outcome
  of a request open, the two checks every response goes through, the rate limiter, and the
  request every endpoint makes. \<^verbatim>\<open>HTTPSession\<close> and the clock are the record \<open>net\<close>, on
  a state \<open>'w\<close> of the outside world; nothing is assumed of it here. Log lines
  (\<^verbatim>\<open>spdlog\<close>) are left out.
\<close>

section \<open>Responses and the world\<close>

record response =
  resp_status :: nat
  resp_body :: string
  resp_header :: "string \<Rightarrow> string option"

type_synonym params = "(string \<times> string) list"

record ('j, 'w) net =
  http_get :: "string \<Rightarrow> params \<Rightarrow> 'w \<Rightarrow> response res \<times> 'w"  \<comment> \<open>\<^verbatim>\<open>session()->get\<close>\<close>
  http_post :: "string \<Rightarrow> 'j \<Rightarrow> 'w \<Rightarrow> response res \<times> 'w"  \<comment> \<open>\<^verbatim>\<open>session()->post\<close>\<close>
  public_get :: "string \<Rightarrow> 'w \<Rightarrow> response res \<times> 'w"  \<comment> \<open>\<^verbatim>\<open>publicSession()->get\<close>\<close>
  public_renew :: "'w \<Rightarrow> 'w"  \<comment> \<open>a fresh \<^verbatim>\<open>publicHttpSession\<close>\<close>
  clock :: "'w \<Rightarrow> int \<times> 'w"  \<comment> \<open>\<^verbatim>\<open>system_clock::now()\<close>, milliseconds\<close>
  sleep_ms :: "int \<Rightarrow> 'w \<Rightarrow> 'w"

section \<open>Request parameters\<close>

text \<open>A \<^verbatim>\<open>std::map<std::string, std::string>\<close>: sorted by key.\<close>

fun str_less :: "string \<Rightarrow> string \<Rightarrow> bool" where
  "str_less s [] = False"
| "str_less [] (d # ds) = True"
| "str_less (c # cs) (d # ds) =
     (if c = d then str_less cs ds else (of_char c :: nat) < of_char d)"

fun insert_or_assign :: "string \<Rightarrow> string \<Rightarrow> params \<Rightarrow> params" where
  "insert_or_assign k v [] = [(k, v)]"
| "insert_or_assign k v ((k', v') # ps) =
     (if k = k' then (k, v) # ps
      else if str_less k k' then (k, v) # (k', v') # ps
      else (k', v') # insert_or_assign k v ps)"

text \<open>\<^verbatim>\<open>if (!v.empty()) parameters.insert_or_assign(k, v)\<close>\<close>

definition unless_empty :: "string \<Rightarrow> string \<Rightarrow> params \<Rightarrow> params" where
  "unless_empty k v ps = (if v \<noteq> [] then insert_or_assign k v ps else ps)"

text \<open>\<^verbatim>\<open>nlohmann::json(parameters)\<close>\<close>

definition params_json :: "'j jops \<Rightarrow> params \<Rightarrow> 'j" where
  "params_json J ps = j_obj J (map (\<lambda>(k, v). (k, j_str J v)) ps)"

section \<open>What an answer means\<close>

definition isExecutionUnknownCode :: "int \<Rightarrow> bool" where
  "isExecutionUnknownCode code = (code = 10000 \<or> code = 10016 \<or> code = 170007)"

definition isOrderNotFoundCode :: "int \<Rightarrow> bool" where
  "isOrderNotFoundCode code = (code = 110001 \<or> code = 170213)"

definition api_error_text :: "int \<Rightarrow> string \<Rightarrow> string" where
  "api_error_text code msg = ''Bybit API error, code: '' @ int_to_string code @ '', msg: '' @ msg"

definition handleBybitResponse ::
  "'j jops \<Rightarrow> ('j \<Rightarrow> ('j, 'm) Response_scheme \<Rightarrow> ('j, 'm) Response_scheme res) \<Rightarrow>
   ('j, 'm) Response_scheme \<Rightarrow> response \<Rightarrow> ('j, 'm) Response_scheme res" where
  "handleBybitResponse J fromJson init response =
     bindR (j_parse J (resp_body response)) (\<lambda>j.
     bindR (fromJson j init) (\<lambda>retVal.
       if retCode retVal \<noteq> 0 then
         let msg = api_error_text (retCode retVal) (retMsg retVal) in
         if isExecutionUnknownCode (retCode retVal) then Inl (ExecutionUnknown msg)
         else if isOrderNotFoundCode (retCode retVal) then Inl (OrderNotFound msg)
         else Inl (RuntimeError msg)
       else Inr retVal))"

definition bad_response_text :: "response \<Rightarrow> string" where
  "bad_response_text r = ''Bad response, code '' @ nat_to_string (resp_status r) @ '', msg: '' @ resp_body r"

section \<open>The rate limiter\<close>

record RateLimiter =
  rl_remaining :: int
  rl_resetTime :: int
  rl_serverHeadersFound :: bool
  rl_requestTimes :: "int list"

definition RateLimiter_init :: RateLimiter where
  "RateLimiter_init = \<lparr>rl_remaining = 50, rl_resetTime = 0, rl_serverHeadersFound = False,
     rl_requestTimes = []\<rparr>"

definition localLimit :: nat where "localLimit = 10"
definition windowSizeMs :: int where "windowSizeMs = 1000"

text \<open>An unreadable header leaves what was assigned before it (and is logged).\<close>

definition rl_update :: "response \<Rightarrow> RateLimiter \<Rightarrow> RateLimiter" where
  "rl_update response rl =
     (case (resp_header response ''X-Bapi-Limit-Status'', resp_header response ''X-Bapi-Limit-Reset'') of
        (Some status, Some reset) \<Rightarrow>
          (case stoi status of
             Inl _ \<Rightarrow> rl
           | Inr n \<Rightarrow>
               let rl = rl\<lparr>rl_remaining := n\<rparr> in
               (case stoll reset of
                  Inl _ \<Rightarrow> rl
                | Inr t \<Rightarrow> rl\<lparr>rl_resetTime := t, rl_serverHeadersFound := True\<rparr>))
      | _ \<Rightarrow> rl)"

definition expire :: "int \<Rightarrow> int list \<Rightarrow> int list" where
  "expire now ts = dropWhile (\<lambda>t. now - t > windowSizeMs) ts"

definition rl_wait :: "('j, 'w) net \<Rightarrow> RateLimiter \<Rightarrow> 'w \<Rightarrow> RateLimiter \<times> 'w" where
  "rl_wait N rl w =
     (case clock N w of (now, w) \<Rightarrow>
        if rl_serverHeadersFound rl then
          (rl, if rl_remaining rl \<le> 2 \<and> rl_resetTime rl > now
               then sleep_ms N (rl_resetTime rl - now + 50) w else w)
        else
          let ts = expire now (rl_requestTimes rl) in
          (case (if length ts \<ge> localLimit then
                   let waitTime = (hd ts + windowSizeMs) - now + 10 in
                   if waitTime > 0 then
                     (case clock N (sleep_ms N waitTime w) of (nowAfterWait, w) \<Rightarrow> (expire nowAfterWait ts, w))
                   else (ts, w)
                 else (ts, w)) of
             (ts, w) \<Rightarrow> (rl\<lparr>rl_requestTimes := ts @ [now]\<rparr>, w)))"

section \<open>The client's state and its requests\<close>

text \<open>\<open>r_instruments\<close> is the shared instrument cache, without its element type here.\<close>

record ('i, 'w) rest =
  r_instruments :: "'i list"
  r_limiter :: RateLimiter
  r_world :: 'w

definition rateLimiter_wait :: "('j, 'w) net \<Rightarrow> (('i, 'w) rest, unit) proc" where
  "rateLimiter_wait N s =
     (case rl_wait N (r_limiter s) (r_world s) of
        (rl, w) \<Rightarrow> Some (Inr (), s\<lparr>r_limiter := rl, r_world := w\<rparr>))"

definition session_get :: "('j, 'w) net \<Rightarrow> string \<Rightarrow> params \<Rightarrow> (('i, 'w) rest, response) proc" where
  "session_get N path ps s = (case http_get N path ps (r_world s) of (r, w) \<Rightarrow> Some (r, s\<lparr>r_world := w\<rparr>))"

definition session_post :: "('j, 'w) net \<Rightarrow> string \<Rightarrow> 'j \<Rightarrow> (('i, 'w) rest, response) proc" where
  "session_post N path payload s =
     (case http_post N path payload (r_world s) of (r, w) \<Rightarrow> Some (r, s\<lparr>r_world := w\<rparr>))"

definition checkResponse :: "response \<Rightarrow> (('i, 'w) rest, response) proc" where
  "checkResponse response s =
     (let s = s\<lparr>r_limiter := rl_update response (r_limiter s)\<rparr> in
      if resp_status response \<noteq> 200 then
        let msg = bad_response_text response in
        if resp_status response \<ge> 500 then Some (Inl (ExecutionUnknown msg), s)
        else Some (Inl (RuntimeError msg), s)
      else Some (Inr response, s))"

text \<open>
  The sequence every endpoint runs: wait for the rate limiter, send, check the response.
\<close>

definition api_get :: "('j, 'w) net \<Rightarrow> string \<Rightarrow> params \<Rightarrow> (('i, 'w) rest, response) proc" where
  "api_get N path ps =
     bindP (rateLimiter_wait N) (\<lambda>_. bindP (session_get N path ps) checkResponse)"

definition api_post :: "('j, 'w) net \<Rightarrow> string \<Rightarrow> 'j \<Rightarrow> (('i, 'w) rest, response) proc" where
  "api_post N path payload =
     bindP (rateLimiter_wait N) (\<lambda>_. bindP (session_post N path payload) checkResponse)"

section \<open>Facts\<close>

text \<open>A request always returns, and never touches the instrument cache.\<close>

lemma api_get_total: "\<exists>r s'. api_get N path ps s = Some (r, s') \<and> r_instruments s' = r_instruments s"
  by (auto simp: api_get_def bindP_def rateLimiter_wait_def session_get_def checkResponse_def Let_def
      split: prod.split sum.split)

lemma api_post_total: "\<exists>r s'. api_post N path p s = Some (r, s') \<and> r_instruments s' = r_instruments s"
  by (auto simp: api_post_def bindP_def rateLimiter_wait_def session_post_def checkResponse_def Let_def
      split: prod.split sum.split)

lemma api_keeps_instruments [intro, simp]:
  "keepsP r_instruments (api_get N path ps)" "keepsP r_instruments (api_post N path p)"
  unfolding keepsP_def
  by (metis api_get_total option.inject prod.inject) (metis api_post_total option.inject prod.inject)

text \<open>The error texts, and what they start with.\<close>

lemma handleBybitResponse_error:
  assumes "handleBybitResponse J fromJson init r = Inl x"
  shows "(\<exists>e. j_parse J (resp_body r) = Inl e \<and> x = e) \<or>
    (\<exists>j e. j_parse J (resp_body r) = Inr j \<and> fromJson j init = Inl e \<and> x = e) \<or>
    (\<exists>code msg. code \<noteq> 0 \<and> what x = api_error_text code msg \<and>
       x = (if isExecutionUnknownCode code then ExecutionUnknown (api_error_text code msg)
            else if isOrderNotFoundCode code then OrderNotFound (api_error_text code msg)
            else RuntimeError (api_error_text code msg)))"
  using assms
  by (fastforce simp: handleBybitResponse_def bindR_eq_Inl Let_def split: if_splits)

end
