(* ===== verification/Rate_Limiter.thy ===== *)
theory Rate_Limiter
  imports Rest_Core
begin

text \<open>
  What the rate limiter of the REST client guarantees, and what it does not.
\<close>

text \<open>The clock that is read does not go back, and a sleep lasts at least as long as asked on it.\<close>

definition honest_clock :: "('j, 'w) net \<Rightarrow> bool" where
  "honest_clock N \<longleftrightarrow> (\<forall>w. fst (clock N w) \<le> fst (clock N (snd (clock N w)))) \<and>
     (\<forall>w d. 0 < d \<longrightarrow> fst (clock N w) + d \<le> fst (clock N (sleep_ms N d (snd (clock N w)))))"

text \<open>
  The requests of a client without rate headers: each passes the limiter and leaves at the time its
  clock then shows; between two of them time passes, and answers are read that bring no headers. The
  limiter, and the times at which the requests left.
\<close>

inductive departs :: "('j, 'w) net \<Rightarrow> RateLimiter \<Rightarrow> int list \<Rightarrow> bool" for N where
  init: "departs N RateLimiter_init []"
| answer: "departs N rl ds \<Longrightarrow> \<not> rl_serverHeadersFound (rl_update response rl) \<Longrightarrow> departs N (rl_update response rl) ds"
| request: "departs N rl ds \<Longrightarrow> rl_wait N rl w = (rl', w') \<Longrightarrow> \<forall>d \<in> set ds. d \<le> fst (clock N w)
    \<Longrightarrow> departs N rl' (ds @ [fst (clock N w')])"

lemma expire_split: "\<exists>old. ts = old @ expire now ts \<and> (\<forall>t \<in> set old. t + windowSizeMs < now)"
proof (intro exI conjI)
  show "ts = takeWhile (\<lambda>t. now - t > windowSizeMs) ts @ expire now ts" by (simp add: expire_def)
qed (auto dest!: set_takeWhileD)

lemma expire_hd: "expire now ts \<noteq> [] \<Longrightarrow> now - hd (expire now ts) \<le> windowSizeMs"
  unfolding expire_def using hd_dropWhile [of "\<lambda>t. now - t > windowSizeMs" ts] by simp

text \<open>
  One request: the time \<open>now\<close> at its call is recorded, and from what was recorded before, an older
  part is forgotten, which has left the window by its departure, so that fewer than ten stay.
\<close>

lemma wait_local:
  assumes "honest_clock N" and "\<not> rl_serverHeadersFound rl" and "length (rl_requestTimes rl) \<le> localLimit"
    and "rl_wait N rl w = (rl', w')"
  shows "\<exists>old kept. rl_requestTimes rl = old @ kept \<and> rl' = rl\<lparr>rl_requestTimes := kept @ [fst (clock N w)]\<rparr> \<and>
    length kept < localLimit \<and> fst (clock N w) \<le> fst (clock N w') \<and>
    (\<forall>t \<in> set old. t + windowSizeMs < fst (clock N w'))"
proof -
  obtain now w1 where now: "clock N w = (now, w1)" by fastforce
  define ts where "ts = expire now (rl_requestTimes rl)"
  obtain old where old: "rl_requestTimes rl = old @ ts" "\<forall>t \<in> set old. t + windowSizeMs < now"
    using expire_split [of "rl_requestTimes rl" now] by (auto simp: ts_def)
  show ?thesis
  proof (cases "length ts < localLimit")
    case True
    then have "rl' = rl\<lparr>rl_requestTimes := ts @ [now]\<rparr>" "w' = w1"
      using assms(2,4) by (auto simp: rl_wait_def now ts_def [symmetric] Let_def)
    moreover have "now \<le> fst (clock N w1)" using assms(1) now unfolding honest_clock_def by (metis fst_conv snd_conv)
    ultimately show ?thesis using old True now by fastforce
  next
    case False
    define wt where "wt = hd ts + windowSizeMs - now + 10"
    have ne: "ts \<noteq> []" using False by (auto simp: localLimit_def)
    then have wt: "0 < wt" using expire_hd [of now "rl_requestTimes rl"] by (simp add: ts_def wt_def)
    obtain now2 w2 where now2: "clock N (sleep_ms N wt w1) = (now2, w2)" by fastforce
    obtain old2 where old2: "ts = old2 @ expire now2 ts" "\<forall>t \<in> set old2. t + windowSizeMs < now2"
      using expire_split [of ts now2] by blast
    have run: "rl' = rl\<lparr>rl_requestTimes := expire now2 ts @ [now]\<rparr>" "w' = w2"
      using assms(2,4) False wt now2
      by (auto simp: rl_wait_def now ts_def [symmetric] wt_def [symmetric] Let_def)
    have "now + wt \<le> now2" using assms(1) wt now now2 unfolding honest_clock_def by (metis fst_conv snd_conv)
    then have later: "hd ts + windowSizeMs < now2" by (simp add: wt_def)
    then have "length (expire now2 ts) < length ts"
      using ne by (cases ts) (auto simp: expire_def intro: le_less_trans [OF length_dropWhile_le])
    moreover have "length ts \<le> localLimit" using assms(3) old(1) by simp
    moreover have up: "now2 \<le> fst (clock N w2)" using assms(1) now2 unfolding honest_clock_def by (metis fst_conv snd_conv)
    moreover have "now \<le> now2" using wt \<open>now + wt \<le> now2\<close> by simp
    ultimately show ?thesis
      using old old2 run now by (intro exI [of _ "old @ old2"] exI [of _ "expire now2 ts"]) fastforce
  qed
qed

lemma update_times: "rl_requestTimes (rl_update response rl) = rl_requestTimes rl"
  by (simp add: rl_update_def Let_def split: option.split sum.split)

text \<open>
  The books, with everything ever recorded: \<open>rs\<close>, one time per request, not after its departure, and
  not before the departure of the request before it.
\<close>

definition recorded :: "RateLimiter \<Rightarrow> int list \<Rightarrow> int list \<Rightarrow> bool" where
  "recorded rl rs ds \<longleftrightarrow> \<not> rl_serverHeadersFound rl \<and> length rs = length ds \<and>
     (\<exists>old. rs = old @ rl_requestTimes rl \<and> (\<forall>t \<in> set old. \<exists>d \<in> set ds. t + windowSizeMs < d)) \<and> length (rl_requestTimes rl) \<le> localLimit \<and> sorted ds \<and>
     (\<forall>i < length ds. rs ! i \<le> ds ! i) \<and> (\<forall>i. Suc i < length ds \<longrightarrow> ds ! i \<le> rs ! Suc i) \<and>
     (\<forall>i. i + localLimit < length ds \<longrightarrow> rs ! i + windowSizeMs < ds ! (i + localLimit))"

lemma departs_recorded:
  assumes "departs N rl ds" and "honest_clock N"
  shows "\<exists>rs. recorded rl rs ds"
  using assms(1)
proof (induction rule: departs.induct)
  case init
  show ?case by (intro exI [of _ "[]"]) (simp add: recorded_def RateLimiter_init_def)
next
  case (answer rl ds response)
  then show ?case by (auto simp: recorded_def update_times)
next
  case (request rl ds w rl' w')
  then obtain rs gone where rs: "recorded rl rs ds" "rs = gone @ rl_requestTimes rl"
    "\<forall>t \<in> set gone. \<exists>d \<in> set ds. t + windowSizeMs < d" by (auto simp: recorded_def)
  then obtain old kept where w: "rl_requestTimes rl = old @ kept" "rl' = rl\<lparr>rl_requestTimes := kept @ [fst (clock N w)]\<rparr>"
    "length kept < localLimit" "fst (clock N w) \<le> fst (clock N w')" "\<forall>t \<in> set old. t + windowSizeMs < fst (clock N w')"
    using wait_local [OF assms(2) _ _ request.hyps(2)] by (auto simp: recorded_def)
  let ?r = "fst (clock N w)" and ?d = "fst (clock N w')"
  have inv: "\<not> rl_serverHeadersFound rl" "length rs = length ds" "sorted ds" "\<forall>i < length ds. rs ! i \<le> ds ! i"
    "\<forall>i. Suc i < length ds \<longrightarrow> ds ! i \<le> rs ! Suc i"
    "\<forall>i. i + localLimit < length ds \<longrightarrow> rs ! i + windowSizeMs < ds ! (i + localLimit)"
    using rs(1) by (simp_all add: recorded_def)
  have before: "\<forall>d \<in> set ds. d \<le> ?r" by (rule request.hyps(3))
  have left: "\<forall>t \<in> set (gone @ old). t + windowSizeMs < ?d" using rs(3) w(4,5) before by fastforce
  have "rs ! i + windowSizeMs < ?d" if "i + localLimit = length ds" for i
  proof -
    have "i < length (gone @ old)" using that w(3) inv(2) by (simp add: rs(2) w(1))
    then have "rs ! i \<in> set (gone @ old)" by (metis append_assoc nth_append nth_mem rs(2) w(1))
    with left show ?thesis by blast
  qed
  then have tenth: "i + localLimit < Suc (length ds) \<Longrightarrow> (rs @ [?r]) ! i + windowSizeMs < (ds @ [?d]) ! (i + localLimit)" for i
    using inv(2,6) by (auto simp: nth_append less_Suc_eq localLimit_def)
  have "recorded rl' (rs @ [?r]) (ds @ [?d])"
    unfolding recorded_def
  proof (intro conjI)
    show "\<exists>old. rs @ [?r] = old @ rl_requestTimes rl' \<and> (\<forall>t \<in> set old. \<exists>d \<in> set (ds @ [?d]). t + windowSizeMs < d)"
      using left by (intro exI [of _ "gone @ old"]) (simp add: rs(2) w(1,2))
    show "sorted (ds @ [?d])" using inv(3) before w(4) by (fastforce simp: sorted_append)
    show "\<forall>i < length (ds @ [?d]). (rs @ [?r]) ! i \<le> (ds @ [?d]) ! i"
      using inv(2,4) w(4) by (auto simp: nth_append less_Suc_eq)
    show "\<forall>i. Suc i < length (ds @ [?d]) \<longrightarrow> (ds @ [?d]) ! i \<le> (rs @ [?r]) ! Suc i"
      using inv(2,5) before by (auto simp: nth_append less_Suc_eq)
  qed (use inv(1,2) w(2,3) tenth in simp_all)
  then show ?case by blast
qed

text \<open>
  C38. The pace of the limiter. While the venue sends no rate headers, and the clock does not go back and
  a sleep lasts, at most eleven requests leave within any window of one second, one more than the
  limit of ten; the times kept are never more than the limit.
\<close>

theorem limiter_window_bounded:
  assumes "honest_clock N" and "departs N rl ds"
  shows "length (filter (\<lambda>d. t \<le> d \<and> d \<le> t + windowSizeMs) ds) \<le> Suc localLimit \<and>
    length (rl_requestTimes rl) \<le> localLimit"
proof -
  obtain rs where rs: "recorded rl rs ds" using departs_recorded [OF assms(2,1)] by blast
  let ?S = "{i. i < length ds \<and> t \<le> ds ! i \<and> ds ! i \<le> t + windowSizeMs}"
  have apart: "ds ! i + windowSizeMs < ds ! j" if "i + Suc localLimit \<le> j" "j < length ds" for i j
  proof -
    have "ds ! i \<le> rs ! Suc i" "rs ! Suc i + windowSizeMs < ds ! (Suc i + localLimit)"
      using rs that spec [of "\<lambda>i. i + localLimit < length ds \<longrightarrow> rs ! i + windowSizeMs < ds ! (i + localLimit)" "Suc i"]
      by (auto simp: recorded_def)
    moreover have "ds ! (Suc i + localLimit) \<le> ds ! j" using rs that by (auto simp: recorded_def intro: sorted_nth_mono)
    ultimately show ?thesis by simp
  qed
  have "card ?S \<le> Suc localLimit"
  proof (cases "?S = {}")
    case False
    have "finite ?S" by simp
    then have m: "Min ?S \<in> ?S" using False by (rule Min_in)
    have "j < Min ?S + Suc localLimit" if "j \<in> ?S" for j
      using apart [of "Min ?S" j] that m by fastforce
    then have "?S \<subseteq> {Min ?S..<Min ?S + Suc localLimit}" using Min_le [OF \<open>finite ?S\<close>] by auto
    from card_mono [OF _ this] show ?thesis by simp
  next
    case True
    then show ?thesis unfolding True by simp
  qed
  then show ?thesis using rs by (simp add: length_filter_conv_card recorded_def)
qed


text \<open>A world that is only a clock, and the times at which requests sent back to back leave.\<close>

definition only_clock :: "(unit, int) net" where
  "only_clock = \<lparr>
     http_get = (\<lambda>_ _ w. (Inl (RuntimeError []), w)), http_post = (\<lambda>_ _ w. (Inl (RuntimeError []), w)),
     public_get = (\<lambda>_ w. (Inl (RuntimeError []), w)), public_renew = (\<lambda>w. w),
     clock = (\<lambda>w. (w, w)), sleep_ms = (\<lambda>d w. w + d)\<rparr>"

fun departures :: "nat \<Rightarrow> RateLimiter \<Rightarrow> int \<Rightarrow> int list" where
  "departures 0 rl w = []"
| "departures (Suc n) rl w =
     (case rl_wait only_clock rl w of (rl, w) \<Rightarrow> w # departures n rl w)"

lemma departures_depart:
  "departs only_clock rl ds \<Longrightarrow> \<forall>d \<in> set ds. d \<le> w \<Longrightarrow> \<exists>rl'. departs only_clock rl' (ds @ departures n rl w)"
proof (induction n arbitrary: rl ds w)
  case (Suc n)
  obtain rl1 w1 where wait: "rl_wait only_clock rl w = (rl1, w1)" by fastforce
  have up: "w \<le> w1" using wait by (auto simp: rl_wait_def only_clock_def Let_def split: if_splits)
  have "departs only_clock rl1 (ds @ [w1])"
    using departs.request [OF Suc.prems(1) wait] Suc.prems(2) by (simp add: only_clock_def)
  from Suc.IH [OF this] up Suc.prems(2) show ?case by (fastforce simp: wait)
qed auto

text \<open>
  The eleventh does occur: the request that had to wait is recorded
  with the time before its wait, so it is forgotten at once. Of 21 requests made back to back, ten
  leave at time 0 and eleven in the same millisecond, 1010.
\<close>

theorem limiter_lets_eleven_pass:
  "departures 21 RateLimiter_init 0 = replicate 10 0 @ replicate 11 1010"
  by code_simp

lemma limiter_window_bounded_witness:
  "length (filter (\<lambda>d. 100 \<le> d \<and> d \<le> 100 + windowSizeMs) (departures 21 RateLimiter_init 0)) \<le> 11"
proof -
  have "honest_clock only_clock" by (simp add: honest_clock_def only_clock_def)
  moreover obtain rl where "departs only_clock rl (departures 21 RateLimiter_init 0)"
    using departures_depart [OF departs.init, of 0 21] by auto
  ultimately show ?thesis
    using limiter_window_bounded [of only_clock rl "departures 21 RateLimiter_init 0" 100] by (simp add: localLimit_def)
qed

end
