(* ===== verification/Topic_Session.thy ===== *)
theory Topic_Session
  imports Ws_Session_Life
begin

text \<open>
  The interface through which a stream manager sees a connection: it asks for topics, and asks
  which topics are requested and which are confirmed. The laws are what every provider promises;
  the lemmas about asking for a list of topics follow from them alone. The session is the first
  provider; the client of \<open>Ws_Client\<close> is the second.
\<close>

text \<open>
  The loop of \<^verbatim>\<open>WSPrivateStreamManager::isLive\<close>: request each topic that is not
  requested, and collect whether all are confirmed.
\<close>

fun ensure_topics ::
  "(string \<Rightarrow> 's \<Rightarrow> 's) \<Rightarrow> (string \<Rightarrow> 's \<Rightarrow> bool) \<Rightarrow> (string \<Rightarrow> 's \<Rightarrow> bool) \<Rightarrow>
   string list \<Rightarrow> bool \<times> 's \<Rightarrow> bool \<times> 's" where
  "ensure_topics request requested confirmed [] (live, s) = (live, s)"
| "ensure_topics request requested confirmed (topic # topics) (live, s) =
     (let s = (if \<not> requested topic s then request topic s else s) in
      ensure_topics request requested confirmed topics (live \<and> confirmed topic s, s))"

locale topic_session =
  fixes request :: "string \<Rightarrow> 's \<Rightarrow> 's"
    and requested :: "string \<Rightarrow> 's \<Rightarrow> bool"
    and confirmed :: "string \<Rightarrow> 's \<Rightarrow> bool"
    and ok :: "'s \<Rightarrow> bool"
  assumes request_ok: "ok s \<Longrightarrow> t \<noteq> [] \<Longrightarrow> ok (request t s)"
    and request_requested: "ok s \<Longrightarrow> t \<noteq> [] \<Longrightarrow> requested u (request t s) \<longleftrightarrow> u = t \<or> requested u s"
    and request_confirmed: "ok s \<Longrightarrow> t \<noteq> [] \<Longrightarrow> confirmed u (request t s) \<longleftrightarrow> confirmed u s"
    and confirmed_requested: "ok s \<Longrightarrow> confirmed t s \<Longrightarrow> requested t s"
begin

abbreviation ensure :: "string list \<Rightarrow> bool \<times> 's \<Rightarrow> bool \<times> 's" where
  "ensure \<equiv> ensure_topics request requested confirmed"

lemma ensure_spec:
  assumes "ok s" and "[] \<notin> set ts"
  shows "ok (snd (ensure ts (live, s)))
    \<and> fst (ensure ts (live, s)) = (live \<and> (\<forall>t \<in> set ts. confirmed t s))
    \<and> (\<forall>u. requested u (snd (ensure ts (live, s))) = (u \<in> set ts \<or> requested u s))
    \<and> (\<forall>u. confirmed u (snd (ensure ts (live, s))) = confirmed u s)"
  using assms
proof (induction ts arbitrary: live s)
  case (Cons t ts)
  define s1 where "s1 = (if \<not> requested t s then request t s else s)"
  have t: "t \<noteq> []" "[] \<notin> set ts" using Cons.prems(2) by auto
  have s1: "ok s1" "\<And>u. requested u s1 \<longleftrightarrow> u = t \<or> requested u s" "\<And>u. confirmed u s1 \<longleftrightarrow> confirmed u s"
    using Cons.prems(1) t(1) by (auto simp: s1_def request_ok request_requested request_confirmed)
  have "ensure (t # ts) (live, s) = ensure ts (live \<and> confirmed t s1, s1)"
    by (simp add: s1_def Let_def)
  with Cons.IH [OF s1(1) t(2), of "live \<and> confirmed t s1"] s1(2,3) show ?case by auto
qed simp

text \<open>Once every topic is requested, asking again changes nothing.\<close>

lemma ensure_idle:
  assumes "\<forall>t \<in> set ts. requested t s"
  shows "ensure ts (live, s) = (live \<and> (\<forall>t \<in> set ts. confirmed t s), s)"
  using assms by (induction ts arbitrary: live) (auto simp: Let_def)

lemma ensure_live:
  assumes "ok s" and "[] \<notin> set ts" and "fst (ensure ts (live, s))"
  shows "ensure ts (live, s) = (True, s)"
proof -
  have all: "live \<and> (\<forall>t \<in> set ts. confirmed t s)" using ensure_spec [OF assms(1,2), of live] assms(3) by simp
  then have "\<forall>t \<in> set ts. requested t s" using confirmed_requested [OF assms(1)] by blast
  with all show ?thesis using ensure_idle by simp
qed

end

text \<open>The session provides the interface.\<close>

lemma subscribe_requested: "isSubscribed u (subscribe t s) \<longleftrightarrow> u = t \<or> isSubscribed u s"
  by (auto simp: subscribe_def addTopic_def isSubscribed_def)

lemma subscribe_confirmed: "isSubscriptionConfirmed u (subscribe t s) = isSubscriptionConfirmed u s"
  by (simp add: subscribe_def addTopic_def)

lemma subscribe_inv: "inv s \<Longrightarrow> inv (subscribe t s)"
  by (simp add: subscribe_def posted_inv add_topic_inv)

lemma confirmed_is_subscribed: "isSubscriptionConfirmed t s \<Longrightarrow> isSubscribed t s"
  by (simp add: isSubscriptionConfirmed_def isSubscribed_def)

interpretation session_topics: topic_session subscribe isSubscribed isSubscriptionConfirmed inv
  by unfold_locales
    (simp_all add: subscribe_inv subscribe_requested subscribe_confirmed confirmed_is_subscribed)

end
