(* ===== verification/Ws_Client.thy ===== *)
theory Ws_Client
  imports Topic_Session
begin

text \<open>
  \<^verbatim>\<open>WebSocketClient\<close> (\<^verbatim>\<open>src/bybit_ws_client.cpp\<close>): it owns one session,
  made on the first subscribe, and the io thread that runs the session's pending operations.
  \<open>cl_isRunning\<close> is \<^verbatim>\<open>isRunning\<close>, true exactly while the io thread runs the
  io context. An exception that leaves a handler is logged by the io thread, which runs on: the
  session's \<open>escaped\<close> list holds them.
\<close>

section \<open>State and operations\<close>

record 'j client =
  cl_host :: string
  cl_port :: string
  cl_path :: string
  cl_apiKey :: string
  cl_apiSecret :: string
  cl_session :: "'j session option"
  cl_isRunning :: bool
  cl_logMessageCB :: bool
  cl_dataEventCB :: "('j Event \<Rightarrow> exn option) option"

definition client_init :: "'j client" where
  "client_init = \<lparr>
    cl_host = ''stream.bybit.com'', cl_port = ''443'', cl_path = ''/v5/public/linear'',
    cl_apiKey = [], cl_apiSecret = [], cl_session = None, cl_isRunning = False,
    cl_logMessageCB = False, cl_dataEventCB = None\<rparr>"

definition client_setEndpoint :: "string \<Rightarrow> string \<Rightarrow> string \<Rightarrow> 'j client \<Rightarrow> 'j client" where
  "client_setEndpoint h p pth c = c\<lparr>cl_host := h, cl_port := p, cl_path := pth\<rparr>"

definition client_setCredentials :: "string \<Rightarrow> string \<Rightarrow> 'j client \<Rightarrow> 'j client" where
  "client_setCredentials key secret c = c\<lparr>cl_apiKey := key, cl_apiSecret := secret\<rparr>"

definition client_setLoggerCallback :: "'j client \<Rightarrow> 'j client" where
  "client_setLoggerCallback c = c\<lparr>cl_logMessageCB := True\<rparr>"

definition client_setDataEventCallback :: "('j Event \<Rightarrow> exn option) \<Rightarrow> 'j client \<Rightarrow> 'j client" where
  "client_setDataEventCallback cb c = c\<lparr>cl_dataEventCB := Some cb\<rparr>"

text \<open>\<^verbatim>\<open>run()\<close> starts the io thread unless it runs already.\<close>

definition client_run :: "'j client \<Rightarrow> 'j client" where
  "client_run c = (if cl_isRunning c then c else c\<lparr>cl_isRunning := True\<rparr>)"

text \<open>
  \<^verbatim>\<open>subscribe\<close> may throw (from the session's \<^verbatim>\<open>run\<close>): the exception and the
  state it leaves. The session is stored before it is run.
\<close>

definition client_subscribe :: "string \<Rightarrow> 'j client \<Rightarrow> exn option \<times> 'j client" where
  "client_subscribe topic c =
     (case cl_session c of
        Some s \<Rightarrow> (None, c\<lparr>cl_session := Some (subscribe topic s)\<rparr>)
      | None \<Rightarrow>
          let s = fresh_session (cl_logMessageCB c);
              s = (if cl_apiKey c \<noteq> [] \<and> cl_apiSecret c \<noteq> []
                   then setCredentials (cl_apiKey c) (cl_apiSecret c) s else s);
              c = c\<lparr>cl_session := Some s\<rparr> in
          (case run (cl_host c) (cl_port c) (cl_path c) topic (cl_dataEventCB c) s of
             Inl x \<Rightarrow> (Some x, c)
           | Inr s \<Rightarrow> (None, c\<lparr>cl_session := Some s\<rparr>)))"

definition client_unsubscribe :: "string \<Rightarrow> 'j client \<Rightarrow> 'j client" where
  "client_unsubscribe topic c =
     (case cl_session c of None \<Rightarrow> c | Some s \<Rightarrow> c\<lparr>cl_session := Some (unsubscribe topic s)\<rparr>)"

definition client_isSubscribed :: "string \<Rightarrow> 'j client \<Rightarrow> bool" where
  "client_isSubscribed topic c =
     (case cl_session c of None \<Rightarrow> False | Some s \<Rightarrow> isSubscribed topic s)"

definition client_isSubscriptionConfirmed :: "string \<Rightarrow> 'j client \<Rightarrow> bool" where
  "client_isSubscriptionConfirmed topic c =
     (case cl_session c of None \<Rightarrow> False | Some s \<Rightarrow> isSubscriptionConfirmed topic s)"

definition client_isAuthenticated :: "'j client \<Rightarrow> bool" where
  "client_isAuthenticated c = (case cl_session c of None \<Rightarrow> False | Some s \<Rightarrow> isAuthenticated s)"

text \<open>
  The io thread: one handler of the session, or its end when the io context has no work left.
\<close>

definition client_io :: "'j jops \<Rightarrow> env \<Rightarrow> op \<Rightarrow> 'j client \<Rightarrow> 'j client" where
  "client_io J e x c =
     (case cl_session c of None \<Rightarrow> c | Some s \<Rightarrow> c\<lparr>cl_session := Some (complete J e x s)\<rparr>)"

definition client_io_ends :: "'j client \<Rightarrow> 'j client" where
  "client_io_ends c = c\<lparr>cl_isRunning := False\<rparr>"

text \<open>
  The destructor: it asks the session to close, stops the io context and waits for the thread.
  What the thread still ran of the pending operations are steps before; the rest never runs.
\<close>

definition client_destroy :: "'j client \<Rightarrow> 'j client" where
  "client_destroy c =
     (case cl_session c of None \<Rightarrow> c | Some s \<Rightarrow> c\<lparr>cl_session := Some (close s)\<rparr>)\<lparr>cl_isRunning := False\<rparr>"

section \<open>Steps\<close>

inductive cstep :: "'j jops \<Rightarrow> 'j client \<Rightarrow> 'j client \<Rightarrow> bool" for J where
  set_endpoint: "cstep J c (client_setEndpoint h p pth c)"
| set_credentials: "cstep J c (client_setCredentials key secret c)"
| set_logger: "cstep J c (client_setLoggerCallback c)"
| set_data: "cstep J c (client_setDataEventCallback cb c)"
| run: "cstep J c (client_run c)"
| subscribe: "topic \<noteq> [] \<Longrightarrow> cstep J c (snd (client_subscribe topic c))"
| unsubscribe: "cstep J c (client_unsubscribe topic c)"
| io: "cl_isRunning c \<Longrightarrow> cl_session c = Some s \<Longrightarrow> x \<in> set (ops s) \<Longrightarrow> timer_ok x e s
    \<Longrightarrow> cstep J c (client_io J e x c)"
| pong: "cl_isRunning c \<Longrightarrow> cl_session c = Some s
    \<Longrightarrow> cstep J c (c\<lparr>cl_session := Some (onPongFrame e s)\<rparr>)"
| io_ends: "cl_isRunning c \<Longrightarrow> (case cl_session c of None \<Rightarrow> True | Some s \<Rightarrow> ops s = [])
    \<Longrightarrow> cstep J c (client_io_ends c)"

definition client_ok :: "'j jops \<Rightarrow> 'j client \<Rightarrow> bool" where
  "client_ok J c = (case cl_session c of None \<Rightarrow> True | Some s \<Rightarrow> reachable J s)"

text \<open>The first subscribe makes the session that the steps of \<open>reachable\<close> start from.\<close>

definition client_cred :: "'j client \<Rightarrow> (string \<times> string) option" where
  "client_cred c = (if cl_apiKey c \<noteq> [] \<and> cl_apiSecret c \<noteq> []
     then Some (cl_apiKey c, cl_apiSecret c) else None)"

lemma client_subscribe_first:
  assumes "cl_session c = None"
  shows "client_subscribe t c =
    (let m = made (cl_logMessageCB c) (client_cred c) in
     case run (cl_host c) (cl_port c) (cl_path c) t (cl_dataEventCB c) m of
       Inl x \<Rightarrow> (Some x, c\<lparr>cl_session := Some m\<rparr>)
     | Inr s \<Rightarrow> (None, c\<lparr>cl_session := Some s\<rparr>))"
  using assms
  by (cases "cl_apiKey c \<noteq> [] \<and> cl_apiSecret c \<noteq> []")
    (auto simp: client_subscribe_def client_cred_def made_def Let_def run_def)

lemma client_subscribe_ok:
  assumes "client_ok J c" and "t \<noteq> []"
  shows "fst (client_subscribe t c) = None \<and> client_ok J (snd (client_subscribe t c))"
proof (cases "cl_session c")
  case (Some s)
  with assms(1) have "reachable J (subscribe t s)"
    by (auto simp: client_ok_def intro: reachable.step wstep.call_subscribe)
  with Some show ?thesis by (simp add: client_subscribe_def client_ok_def)
next
  case None
  obtain s where s: "run (cl_host c) (cl_port c) (cl_path c) t (cl_dataEventCB c)
      (made (cl_logMessageCB c) (client_cred c)) = Inr s"
    using assms(2) by (simp add: run_def)
  then have "reachable J s" by (rule reachable.started)
  with s show ?thesis
    by (simp add: client_subscribe_first [OF None] client_ok_def)
qed

lemma cstep_ok: "cstep J c c' \<Longrightarrow> client_ok J c \<Longrightarrow> client_ok J c'"
proof (induction rule: cstep.induct)
  case (unsubscribe topic c)
  then show ?case
    by (auto simp: client_ok_def client_unsubscribe_def split: option.splits
        intro: reachable.step wstep.call_unsubscribe)
next
  case (io c s x e)
  then show ?case
    by (auto simp: client_ok_def client_io_def intro: reachable.step wstep.completion)
next
  case (pong c s e)
  then show ?case by (auto simp: client_ok_def intro: reachable.step wstep.pong_frame)
next
  case (subscribe topic c)
  then show ?case by (simp add: client_subscribe_ok)
qed (simp_all add: client_setEndpoint_def client_setCredentials_def client_setLoggerCallback_def
    client_setDataEventCallback_def client_run_def client_io_ends_def client_ok_def)

text \<open>The client provides the topic interface.\<close>

lemma client_requested:
  assumes "t \<noteq> []"
  shows "client_isSubscribed u (snd (client_subscribe t c)) \<longleftrightarrow> u = t \<or> client_isSubscribed u c"
proof (cases "cl_session c")
  case None
  then show ?thesis
    using assms
    by (simp add: client_subscribe_def client_isSubscribed_def Let_def run_def)
      (auto simp: addTopic_def isSubscribed_def fresh_session_def setCredentials_def)
qed (simp add: client_subscribe_def client_isSubscribed_def subscribe_requested)

lemma client_confirmed:
  assumes "t \<noteq> []"
  shows "client_isSubscriptionConfirmed u (snd (client_subscribe t c)) \<longleftrightarrow> client_isSubscriptionConfirmed u c"
proof (cases "cl_session c")
  case None
  then show ?thesis
    using assms
    by (simp add: client_subscribe_def client_isSubscriptionConfirmed_def Let_def run_def)
      (auto simp: addTopic_def isSubscriptionConfirmed_def fresh_session_def setCredentials_def)
qed (simp add: client_subscribe_def client_isSubscriptionConfirmed_def subscribe_confirmed)

lemma client_confirmed_requested:
  "client_isSubscriptionConfirmed t c \<Longrightarrow> client_isSubscribed t c"
  by (auto simp: client_isSubscriptionConfirmed_def client_isSubscribed_def isSubscriptionConfirmed_def
      isSubscribed_def split: option.splits)

interpretation client_topics: topic_session "\<lambda>t c. snd (client_subscribe t c)" client_isSubscribed
  client_isSubscriptionConfirmed "client_ok J" for J
  by unfold_locales
    (simp_all add: client_subscribe_ok client_requested client_confirmed client_confirmed_requested)

text \<open>A session that is open always has something pending.\<close>

lemma open_is_busy:
  assumes "reachable J s" and "\<not> userClosed s"
  shows "ops s \<noteq> []"
proof -
  have a: "alive s" and o: "ops_ok s" using reachable_inv [OF assms(1)] by (auto simp: inv_def)
  have "ops s \<noteq> []" if "reconnectScheduled s" using that ops_okD(8) [OF o] by auto
  with a assms(2) show ?thesis by (auto simp: alive_def chain_def)
qed

section \<open>Properties\<close>

text \<open>
  Whatever the calls and the io thread do, the client's session is one that the session's
  invariants cover, and while it is open the io thread never runs out of work: it ends only when
  there is no session or the user closed it.
\<close>

theorem io_thread_stays_busy:
  assumes "(cstep J)\<^sup>*\<^sup>* client_init c" and "cl_session c = Some s"
  shows "reachable J s \<and> (userClosed s \<or> ops s \<noteq> [])"
proof -
  have "client_ok J c"
    using assms(1)
  proof (induction rule: rtranclp_induct)
    case base
    show ?case by (simp add: client_ok_def client_init_def)
  qed (rule cstep_ok)
  with assms(2) have r: "reachable J s" by (simp add: client_ok_def)
  then show ?thesis using open_is_busy by blast
qed

text \<open>
  A first \<^verbatim>\<open>subscribe("")\<close> throws, but leaves the client with a session that was never
  run: a later subscribe of a real topic is accepted and recorded, yet nothing will ever connect:
  whatever the io thread completes, the session stays in generation 0, unconnected.
\<close>

theorem empty_subscribe_leaves_dead_session:
  assumes "t \<noteq> []" and "(wstep J)\<^sup>*\<^sup>* (subscribe t (fresh_session logger)) s"
  shows "fst (client_subscribe [] client_init) = Some (RuntimeError ''SubscriptionFilter cannot be empty'') \<and>
    cl_session (snd (client_subscribe t (snd (client_subscribe [] client_init)))) =
      Some (subscribe t (fresh_session False)) \<and>
    generation s = 0 \<and> \<not> connected s"
proof -
  have "generation s = 0 \<and> \<not> connected s \<and> (\<forall>x \<in> set (ops s). op_gen x = None \<and> x \<noteq> PostStart) \<and> ws s = None"
    using assms(2)
  proof (induction rule: rtranclp_induct)
    case base
    then show ?case by (simp add: subscribe_def addTopic_def fresh_session_def start_op_def)
  next
    case (step s1 s2)
    from step.hyps(2) step.IH show ?case
    proof (cases rule: wstep.cases)
      case (completion x e)
      with step.IH have x: "op_gen x = None" "x \<noteq> PostStart" by auto
      have rem: "\<forall>y \<in> set (remove1 x (ops s1)). op_gen y = None \<and> y \<noteq> PostStart"
        using step.IH set_remove1_subset [of x "ops s1"] by blast
      show ?thesis
        using x step.IH rem completion
        by (cases x) (auto simp: complete_def flushTopics_def postedUnsubscribe_def closeByUser_def
            onAsyncClose_def Let_def split: option.splits)
    next
      case (call_unsubscribe u)
      with step.IH show ?thesis
        by (auto simp: unsubscribe_def removeTopic_def Let_def split: if_splits)
    qed (auto simp: onPongFrame_def subscribe_def addTopic_def close_def)
  qed
  then show ?thesis
    by (simp add: client_subscribe_def client_init_def run_def Let_def)
qed

lemma io_thread_stays_busy_witness:
  "\<exists>s. cl_session (snd (client_subscribe ''order'' (client_init :: json client))) = Some s \<and>
     reachable (mini (\<lambda>_. None)) s \<and> (userClosed s \<or> ops s \<noteq> [])"
proof -
  let ?c = "snd (client_subscribe ''order'' (client_init :: json client))"
  have "(cstep (mini (\<lambda>_. None)))\<^sup>*\<^sup>* client_init ?c"
    by (rule r_into_rtranclp, rule cstep.subscribe) simp
  moreover obtain s where "cl_session ?c = Some s"
    by (simp add: client_subscribe_def client_init_def run_def Let_def)
  ultimately show ?thesis using io_thread_stays_busy by blast
qed

lemma empty_subscribe_leaves_dead_session_witness:
  "generation (close (subscribe ''order'' (fresh_session True)) :: json session) = 0"
proof -
  have "(wstep (mini (\<lambda>_. None)))\<^sup>*\<^sup>* (subscribe ''order'' (fresh_session True))
      (close (subscribe ''order'' (fresh_session True)))"
    by (rule r_into_rtranclp, rule wstep.call_close)
  then show ?thesis using empty_subscribe_leaves_dead_session [of "''order''"] by blast
qed

end
