(* ===== verification/Ws_Private.thy ===== *)
theory Ws_Private
  imports Ws_Client
begin

text \<open>
  \<^verbatim>\<open>WSPrivateStreamManager\<close>
  (\<^verbatim>\<open>src/bybit_ws_private_stream_manager.cpp\<close>): the account's order and execution
  streams. A callback is the exception it throws on an event, if any; \<open>Deliveries\<close> are what
  the callbacks were called with and what was logged, in order.
\<close>

section \<open>Hosts and topics\<close>

definition BYBIT_WS_PRIVATE_PORT :: string where "BYBIT_WS_PRIVATE_PORT = ''443''"
definition BYBIT_WS_PRIVATE_PATH :: string where "BYBIT_WS_PRIVATE_PATH = ''/v5/private''"

fun wsPrivateHostForEnvironment :: "Environment \<Rightarrow> string" where
  "wsPrivateHostForEnvironment Testnet = ''stream-testnet.bybit.com''"
| "wsPrivateHostForEnvironment Demo = ''stream-demo.bybit.com''"
| "wsPrivateHostForEnvironment Mainnet = ''stream.bybit.com''"

definition ORDER_TOPIC :: string where "ORDER_TOPIC = ''order''"
definition EXECUTION_TOPIC :: string where "EXECUTION_TOPIC = ''execution''"

section \<open>Dispatching a message's rows\<close>

datatype 'e delivery = Called 'e | Logged string

fun dispatchItems :: "('j \<Rightarrow> 'e res) \<Rightarrow> ('e \<Rightarrow> exn option) \<Rightarrow> bool \<Rightarrow> 'j list \<Rightarrow> 'e delivery list" where
  "dispatchItems parse cb logger [] = []"
| "dispatchItems parse cb logger (item # items) =
     (case parse item of
        Inl x \<Rightarrow> (if logger then [Logged (what x)] else [])
      | Inr ev \<Rightarrow> Called ev # (case cb ev of None \<Rightarrow> [] | Some x \<Rightarrow> if logger then [Logged (what x)] else []))
     @ dispatchItems parse cb logger items"

definition dispatchArray ::
  "'j jops \<Rightarrow> ('j \<Rightarrow> 'e res) \<Rightarrow> bool \<Rightarrow> 'j Event \<Rightarrow> ('e \<Rightarrow> exn option) option \<Rightarrow> 'e delivery list" where
  "dispatchArray J parse logger event cb =
     (case cb of None \<Rightarrow> []
      | Some f \<Rightarrow> if \<not> j_is_array J (ev_data event) then []
          else dispatchItems parse f logger (j_items J (ev_data event)))"

record 'j manager =
  pm_client :: "'j client"
  pm_logMessageCB :: bool
  pm_orderUpdateCB :: "(EventOrderUpdate \<Rightarrow> exn option) option"
  pm_executionCB :: "(EventExecution \<Rightarrow> exn option) option"

datatype private_delivery =
    OrderDelivery "EventOrderUpdate delivery"
  | ExecutionDelivery "EventExecution delivery"

text \<open>The data callback the constructor installs.\<close>

definition onPrivateEvent :: "'j jops \<Rightarrow> 'j manager \<Rightarrow> 'j Event \<Rightarrow> private_delivery list" where
  "onPrivateEvent J m event =
     (if ev_topic event = ORDER_TOPIC \<or> starts_with ''order.'' (ev_topic event) then
        map OrderDelivery (dispatchArray J (\<lambda>j. EventOrderUpdate_fromJson J j EventOrderUpdate_init)
          (pm_logMessageCB m) event (pm_orderUpdateCB m))
      else if ev_topic event = EXECUTION_TOPIC \<or> starts_with ''execution.'' (ev_topic event) then
        map ExecutionDelivery (dispatchArray J (\<lambda>j. EventExecution_fromJson J j EventExecution_init)
          (pm_logMessageCB m) event (pm_executionCB m))
      else [])"

section \<open>The manager\<close>

text \<open>The installed callback catches everything itself, so it never throws into the session.\<close>

definition manager_init :: "string \<Rightarrow> string \<Rightarrow> Environment \<Rightarrow> 'j manager" where
  "manager_init key secret envt = \<lparr>
     pm_client = client_setCredentials key secret
       (client_setEndpoint (wsPrivateHostForEnvironment envt) BYBIT_WS_PRIVATE_PORT BYBIT_WS_PRIVATE_PATH
         (client_setDataEventCallback (\<lambda>_. None) client_init)),
     pm_logMessageCB = False, pm_orderUpdateCB = None, pm_executionCB = None\<rparr>"

definition manager_setLoggerCallback :: "'j manager \<Rightarrow> 'j manager" where
  "manager_setLoggerCallback m =
     m\<lparr>pm_logMessageCB := True, pm_client := client_setLoggerCallback (pm_client m)\<rparr>"

definition manager_setOrderUpdateCallback ::
  "(EventOrderUpdate \<Rightarrow> exn option) \<Rightarrow> 'j manager \<Rightarrow> 'j manager" where
  "manager_setOrderUpdateCallback cb m = m\<lparr>pm_orderUpdateCB := Some cb\<rparr>"

definition manager_setExecutionCallback ::
  "(EventExecution \<Rightarrow> exn option) \<Rightarrow> 'j manager \<Rightarrow> 'j manager" where
  "manager_setExecutionCallback cb m = m\<lparr>pm_executionCB := Some cb\<rparr>"

definition manager_isAuthenticated :: "'j manager \<Rightarrow> bool" where
  "manager_isAuthenticated m = client_isAuthenticated (pm_client m)"

text \<open>\<^verbatim>\<open>isLive\<close> requests what is not requested, so it returns the state too.\<close>

definition isLive :: "'j manager \<Rightarrow> bool \<times> 'j manager" where
  "isLive m =
     (case ensure_topics (\<lambda>t c. snd (client_subscribe t c)) client_isSubscribed
        client_isSubscriptionConfirmed [ORDER_TOPIC, EXECUTION_TOPIC]
        (client_isAuthenticated (pm_client m), pm_client m)
      of (live, c) \<Rightarrow> (live, m\<lparr>pm_client := c\<rparr>))"

definition connect :: "'j manager \<Rightarrow> 'j manager" where
  "connect m =
     (let c = pm_client m;
          c = (if \<not> client_isSubscribed ORDER_TOPIC c then snd (client_subscribe ORDER_TOPIC c) else c);
          c = (if \<not> client_isSubscribed EXECUTION_TOPIC c
               then snd (client_subscribe EXECUTION_TOPIC c) else c) in
      m\<lparr>pm_client := client_run c\<rparr>)"

definition manager_destroy :: "'j manager \<Rightarrow> 'j manager" where
  "manager_destroy m = m\<lparr>pm_client := client_destroy (pm_client m)\<rparr>"

section \<open>Properties\<close>

lemma topics_nonempty: "[] \<notin> set [ORDER_TOPIC, EXECUTION_TOPIC]"
  by (simp add: ORDER_TOPIC_def EXECUTION_TOPIC_def)

text \<open>The row deliveries of a message.\<close>

definition called :: "'e delivery list \<Rightarrow> 'e list" where
  "called ds = List.map_filter (\<lambda>d. case d of Called x \<Rightarrow> Some x | Logged _ \<Rightarrow> None) ds"

lemma called_simps [simp]:
  "called [] = []" "called (Called x # ds) = x # called ds" "called (Logged m # ds) = called ds"
  "called (ds @ es) = called ds @ called es"
  by (simp_all add: called_def List.map_filter_def)

lemma dispatchItems_called:
  "called (dispatchItems parse cb logger items) =
     List.map_filter (\<lambda>j. case parse j of Inl _ \<Rightarrow> None | Inr ev \<Rightarrow> Some ev) items"
  by (induction items) (auto simp: List.map_filter_def split: sum.split option.split)

text \<open>
  Every row of a private message that parses reaches its callback, in the order of the message,
  exactly once: a row that fails to parse, or a callback that throws, costs no other row. Without
  a callback, or when the data is not an array, nothing is delivered.
\<close>

theorem dispatch_delivers_every_row:
  "called (dispatchArray J parse logger event cb) =
     (if cb \<noteq> None \<and> j_is_array J (ev_data event)
      then List.map_filter (\<lambda>j. case parse j of Inl _ \<Rightarrow> None | Inr ev \<Rightarrow> Some ev)
             (j_items J (ev_data event))
      else [])"
  by (auto simp: dispatchArray_def dispatchItems_called split: option.split)

lemma isLive_eq:
  "isLive m = (fst (client_topics.ensure [ORDER_TOPIC, EXECUTION_TOPIC]
      (client_isAuthenticated (pm_client m), pm_client m)),
    m\<lparr>pm_client := snd (client_topics.ensure [ORDER_TOPIC, EXECUTION_TOPIC]
      (client_isAuthenticated (pm_client m), pm_client m))\<rparr>)"
  by (simp add: isLive_def split_beta)

text \<open>
  C14. \<^verbatim>\<open>isLive()\<close> says yes exactly when the client is authenticated and both topics
  are confirmed, and then changes nothing; in any case both topics are requested afterwards, so a
  rejected one is asked for again, and no confirmation is gained or lost by asking. A live
  manager has a connected session with no reconnect pending.
\<close>

theorem isLive_sound:
  assumes "client_ok J (pm_client m)"
  shows "fst (isLive m) = (client_isAuthenticated (pm_client m) \<and>
      client_isSubscriptionConfirmed ORDER_TOPIC (pm_client m) \<and>
      client_isSubscriptionConfirmed EXECUTION_TOPIC (pm_client m))
    \<and> (if fst (isLive m)
       then snd (isLive m) = m \<and>
         (\<exists>s. cl_session (pm_client m) = Some s \<and> connected s \<and> \<not> reconnectScheduled s)
       else client_isSubscribed ORDER_TOPIC (pm_client (snd (isLive m))) \<and>
         client_isSubscribed EXECUTION_TOPIC (pm_client (snd (isLive m))))"
proof -
  let ?ts = "[ORDER_TOPIC, EXECUTION_TOPIC]"
  let ?a = "client_isAuthenticated (pm_client m)"
  note spec = client_topics.ensure_spec [OF assms topics_nonempty, of ?a]
  have live: "\<exists>s. cl_session (pm_client m) = Some s \<and> connected s \<and> \<not> reconnectScheduled s"
    if "client_isSubscriptionConfirmed ORDER_TOPIC (pm_client m)"
  proof -
    note confirmed = that
    obtain s where s: "cl_session (pm_client m) = Some s" "isSubscriptionConfirmed ORDER_TOPIC s"
      using confirmed by (auto simp: client_isSubscriptionConfirmed_def split: option.splits)
    have "books_ok s" using assms s(1) reachable_inv by (auto simp: client_ok_def inv_def)
    with s show ?thesis by (auto simp: books_ok_def isSubscriptionConfirmed_def)
  qed
  have idle: "snd (isLive m) = m" if "fst (isLive m)"
    using client_topics.ensure_live [OF assms topics_nonempty, of ?a] that by (simp add: isLive_eq)
  show ?thesis
    using spec live idle by (simp add: isLive_eq)
qed

lemma client_run_requested: "client_isSubscribed t (client_run c) = client_isSubscribed t c"
  by (simp add: client_run_def client_isSubscribed_def)

text \<open>
  After \<^verbatim>\<open>connect()\<close> both topics are requested and the io thread runs; a manager
  just made for an environment has then a session on that environment's private stream that will
  authenticate when both credentials are given.
\<close>

theorem connect_requests_and_runs:
  "client_isSubscribed ORDER_TOPIC (pm_client (connect m)) \<and>
   client_isSubscribed EXECUTION_TOPIC (pm_client (connect m)) \<and>
   cl_isRunning (pm_client (connect m)) \<and>
   (\<exists>s. cl_session (pm_client (connect (manager_init key secret envt))) = Some s \<and>
        host s = wsPrivateHostForEnvironment envt \<and> path s = ''/v5/private'' \<and>
        pendingTopics s = [''order'', ''execution''] \<and>
        authRequired s = (key \<noteq> [] \<and> secret \<noteq> []))"
proof -
  have "ORDER_TOPIC \<noteq> []" "EXECUTION_TOPIC \<noteq> []" "ORDER_TOPIC \<noteq> EXECUTION_TOPIC"
    by (simp_all add: ORDER_TOPIC_def EXECUTION_TOPIC_def)
  then have "client_isSubscribed ORDER_TOPIC (pm_client (connect m)) \<and>
    client_isSubscribed EXECUTION_TOPIC (pm_client (connect m))"
    by (simp add: connect_def Let_def client_run_requested client_requested)
  moreover have "cl_isRunning (pm_client (connect m))"
    by (simp add: connect_def Let_def client_run_def)
  moreover have "\<exists>s. cl_session (pm_client (connect (manager_init key secret envt))) = Some s \<and>
        host s = wsPrivateHostForEnvironment envt \<and> path s = ''/v5/private'' \<and>
        pendingTopics s = [''order'', ''execution''] \<and>
        authRequired s = (key \<noteq> [] \<and> secret \<noteq> [])"
    by (cases "key \<noteq> [] \<and> secret \<noteq> []")
      (auto simp: connect_def manager_init_def client_setCredentials_def client_setEndpoint_def
        client_setDataEventCallback_def client_init_def client_subscribe_def client_isSubscribed_def
        client_run_def run_def addTopic_def fresh_session_def setCredentials_def subscribe_def
        start_op_def isSubscribed_def ORDER_TOPIC_def EXECUTION_TOPIC_def BYBIT_WS_PRIVATE_PATH_def Let_def)
  ultimately show ?thesis by blast
qed

lemma isLive_sound_witness:
  "\<not> fst (isLive (manager_init ''key'' ''secret'' Mainnet :: json manager)) \<and>
   client_isSubscribed ORDER_TOPIC (pm_client (snd (isLive (manager_init ''key'' ''secret'' Mainnet :: json manager))))"
proof -
  let ?m = "manager_init ''key'' ''secret'' Mainnet :: json manager"
  have "cl_session (pm_client ?m) = None"
    by (simp add: manager_init_def client_setCredentials_def client_setEndpoint_def
        client_setDataEventCallback_def client_init_def)
  then have "client_ok (mini (\<lambda>_. None)) (pm_client ?m)" "\<not> client_isAuthenticated (pm_client ?m)"
    by (simp_all add: client_ok_def client_isAuthenticated_def)
  with isLive_sound [of "mini (\<lambda>_. None)" ?m] show ?thesis by simp
qed

end
