(* ===== verification/Rest_Client.thy ===== *)
theory Rest_Client
  imports Rest_Core Models_Market Models_Order Event_Models
begin

text \<open>
  The endpoints of \<^verbatim>\<open>RESTClient\<close> (\<^verbatim>\<open>src/bybit_rest_client.cpp\<close>) that
  the execution layer uses: the instrument cache, orders, positions, executions. Each is a
  procedure on the client's state: \<open>None\<close> if it does not return, else a value or an exception
  and the new state. Calls are taken one at a time (the cache has a lock of its own). The
  candle and funding histories are in \<open>History\<close>, the archive download is in \<open>Archive\<close>.
\<close>

type_synonym 'w rclient = "(Instrument, 'w) rest"
type_synonym ('w, 'a) rproc = "('w rclient, 'a) proc"

section \<open>Paged listings\<close>

text \<open>
  \<^verbatim>\<open>do { page = fetch(cursor); append; cursor = page.nextPageCursor; } while (!cursor.empty())\<close>:
  nothing bounds the number of pages.
\<close>

partial_function (option) pagedLoop ::
  "(string \<Rightarrow> ('s, 'a list \<times> string) proc) \<Rightarrow> string \<Rightarrow> 'a list \<Rightarrow> ('s, 'a list) proc" where
  "pagedLoop fetch cursor acc s =
     (case fetch cursor s of
        None \<Rightarrow> None
      | Some (Inl e, s') \<Rightarrow> Some (Inl e, s')
      | Some (Inr (items, next), s') \<Rightarrow>
          if next \<noteq> [] then pagedLoop fetch next (acc @ items) s'
          else Some (Inr (acc @ items), s'))"

declare pagedLoop.simps [code]

text \<open>\<^verbatim>\<open>for (x : xs) f(x);\<close>\<close>

fun forEach :: "('a \<Rightarrow> ('s, unit) proc) \<Rightarrow> 'a list \<Rightarrow> ('s, unit) proc" where
  "forEach f [] = ret ()"
| "forEach f (x # xs) = bindP (f x) (\<lambda>_. forEach f xs)"

text \<open>\<^verbatim>\<open>checkResponse(session()->get(path, parameters))\<close>, then \<^verbatim>\<open>handleBybitResponse<T>\<close>.\<close>

definition get_as ::
  "'j jops \<Rightarrow> ('j, 'w) net \<Rightarrow> ('j \<Rightarrow> ('j, 'm) Response_scheme \<Rightarrow> ('j, 'm) Response_scheme res) \<Rightarrow>
   ('j, 'm) Response_scheme \<Rightarrow> string \<Rightarrow> params \<Rightarrow> ('w, ('j, 'm) Response_scheme) rproc" where
  "get_as J N fromJson init path ps =
     bindP (api_get N path ps) (\<lambda>r. liftR (handleBybitResponse J fromJson init r))"

definition post_as ::
  "'j jops \<Rightarrow> ('j, 'w) net \<Rightarrow> ('j \<Rightarrow> ('j, 'm) Response_scheme \<Rightarrow> ('j, 'm) Response_scheme res) \<Rightarrow>
   ('j, 'm) Response_scheme \<Rightarrow> string \<Rightarrow> 'j \<Rightarrow> ('w, ('j, 'm) Response_scheme) rproc" where
  "post_as J N fromJson init path payload =
     bindP (api_post N path payload) (\<lambda>r. liftR (handleBybitResponse J fromJson init r))"

definition category_params :: "Category \<Rightarrow> params" where
  "category_params category = insert_or_assign ''category'' (Category_name category) []"

section \<open>Instruments\<close>

definition instrumentsInfo_page ::
  "'j jops \<Rightarrow> ('j, 'w) net \<Rightarrow> Category \<Rightarrow> string \<Rightarrow> string \<Rightarrow> string \<Rightarrow> ('w, 'j Instruments) rproc" where
  "instrumentsInfo_page J N category symbol cursor status =
     get_as J N (Instruments_fromJson J) (Instruments_init J) ''/v5/market/instruments-info''
       (unless_empty ''status'' status (unless_empty ''cursor'' cursor
         (unless_empty ''symbol'' symbol (category_params category))))"

definition instruments_page ::
  "'j jops \<Rightarrow> ('j, 'w) net \<Rightarrow> Category \<Rightarrow> string \<Rightarrow> string \<Rightarrow> string \<Rightarrow> ('w, Instrument list \<times> string) rproc" where
  "instruments_page J N category symbol status cursor =
     bindP (instrumentsInfo_page J N category symbol cursor status)
       (\<lambda>page. ret (is_instruments page, is_nextPageCursor page))"

definition allInstruments ::
  "'j jops \<Rightarrow> ('j, 'w) net \<Rightarrow> Category \<Rightarrow> string \<Rightarrow> string \<Rightarrow> ('w, Instrument list) rproc" where
  "allInstruments J N category symbol status =
     pagedLoop (instruments_page J N category symbol status) [] []"

definition setInstruments :: "Instrument list \<Rightarrow> ('w, unit) rproc" where
  "setInstruments instruments = modifyP (\<lambda>s. s\<lparr>r_instruments := instruments\<rparr>)"

text \<open>
  \<^verbatim>\<open>fetchPublicSpotSymbols\<close>: the matches of \<^verbatim>\<open>href="([A-Z0-9]+)"\<close> in a directory
  page. The closing quote is not in the class, so the greedy run decides the match.
\<close>

definition is_symbol_char :: "char \<Rightarrow> bool" where
  "is_symbol_char c = (let n = of_char c :: nat in (65 \<le> n \<and> n \<le> 90) \<or> (48 \<le> n \<and> n \<le> 57))"

definition href_at :: "string \<Rightarrow> (string \<times> string) option" where
  "href_at s =
     (let pre = ''href='' @ [CHR 0x22] in
      if starts_with pre s then
        let r = drop (length pre) s;
            token = takeWhile is_symbol_char r;
            rest = dropWhile is_symbol_char r in
        if token \<noteq> [] \<and> rest \<noteq> [] \<and> hd rest = CHR 0x22 then Some (token, tl rest) else None
      else None)"

lemma href_at_shorter: "href_at s = Some (token, rest) \<Longrightarrow> length rest < length s"
proof -
  assume "href_at s = Some (token, rest)"
  then obtain n where r: "rest = tl (dropWhile is_symbol_char (drop n s))"
    "dropWhile is_symbol_char (drop n s) \<noteq> []"
    unfolding href_at_def Let_def by (metis option.distinct(1) option.inject prod.inject)
  have "length (dropWhile is_symbol_char (drop n s)) \<le> length s"
    using length_dropWhile_le [of is_symbol_char "drop n s"] by simp
  with r show ?thesis by (cases "dropWhile is_symbol_char (drop n s)") auto
qed

function hrefSymbols :: "string \<Rightarrow> string list" where
  "hrefSymbols [] = []"
| "hrefSymbols (c # cs) =
     (case href_at (c # cs) of
        Some (token, rest) \<Rightarrow> token # hrefSymbols rest
      | None \<Rightarrow> hrefSymbols cs)"
  by pat_completeness auto
termination
  by (relation "measure length") (auto dest: href_at_shorter)

text \<open>At most three attempts; the argument counts those left.\<close>

fun spotSymbolAttempts :: "('j, 'w) net \<Rightarrow> nat \<Rightarrow> ('w, string list) rproc" where
  "spotSymbolAttempts N 0 s = Some (Inr [], s)"
| "spotSymbolAttempts N (Suc left) s =
     (case public_get N ''/spot/'' (r_world s) of
        (Inr response, w) \<Rightarrow> Some (Inr (hrefSymbols (resp_body response)), s\<lparr>r_world := w\<rparr>)
      | (Inl _, w) \<Rightarrow>
          if left > 0 then
            spotSymbolAttempts N left
              (s\<lparr>r_world := sleep_ms N (1000 * 2 ^ (2 - left)) (public_renew N w)\<rparr>)
          else Some (Inr [], s\<lparr>r_world := w\<rparr>))"

definition fetchPublicSpotSymbols :: "('j, 'w) net \<Rightarrow> ('w, string list) rproc" where
  "fetchPublicSpotSymbols N = spotSymbolAttempts N 3"

definition delistedSpot :: "string list \<Rightarrow> Instrument list \<Rightarrow> Instrument list" where
  "delistedSpot syms active =
     map (\<lambda>name. Instrument_init\<lparr>ins_symbol := name, ins_quoteCoin := ''USDT'', ins_contractStatus := Closed\<rparr>)
       (filter (\<lambda>name. ends_with ''USDT'' name \<and> name \<notin> ins_symbol ` set active) syms)"

definition getInstrumentsInfo ::
  "'j jops \<Rightarrow> ('j, 'w) net \<Rightarrow> Category \<Rightarrow> string \<Rightarrow> bool \<Rightarrow> string \<Rightarrow> ('w, Instrument list) rproc" where
  "getInstrumentsInfo J N category symbol force status =
     (if status \<noteq> [] then
        if category = spot then
          bindP (readP r_instruments) (\<lambda>cached.
          bindP (if cached = []
                 then bindP (allInstruments J N category symbol []) setInstruments
                 else ret ()) (\<lambda>_.
          bindP (readP r_instruments) (\<lambda>active.
          bindP (fetchPublicSpotSymbols N) (\<lambda>syms. ret (delistedSpot syms active)))))
        else allInstruments J N category symbol status
      else
        bindP (readP r_instruments) (\<lambda>cached.
          if cached = [] \<or> force then
            bindP (allInstruments J N category symbol []) (\<lambda>temp.
              if symbol = [] then bindP (setInstruments temp) (\<lambda>_. readP r_instruments)
              else ret temp)
          else ret cached))"

definition find_symbol :: "string \<Rightarrow> Instrument list \<Rightarrow> Instrument option" where
  "find_symbol symbol instruments = find (\<lambda>i. ins_symbol i = symbol) instruments"

definition getInstrumentInfo ::
  "'j jops \<Rightarrow> ('j, 'w) net \<Rightarrow> Category \<Rightarrow> string \<Rightarrow> ('w, Instrument option) rproc" where
  "getInstrumentInfo J N category symbol =
     bindP (readP r_instruments) (\<lambda>cached.
     bindP (if cached = [] then getInstrumentsInfo J N category [] False [] else ret []) (\<lambda>_.
     bindP (readP (\<lambda>s. find_symbol symbol (r_instruments s))) (\<lambda>found.
       case found of
         Some i \<Rightarrow> ret (Some i)
       | None \<Rightarrow> bindP (getInstrumentsInfo J N category symbol True [])
           (\<lambda>fresh. ret (find_symbol symbol fresh)))))"

text \<open>The price step and the quantity step, if the symbol is known.\<close>

definition steps_of :: "Instrument \<Rightarrow> double \<times> double" where
  "steps_of i = (pf_tickSize (ins_priceFilter i), ls_qtyStep (ins_lotSizeFilter i))"

definition findPricePrecisionsForInstrument ::
  "'j jops \<Rightarrow> ('j, 'w) net \<Rightarrow> Category \<Rightarrow> string \<Rightarrow> ('w, (double \<times> double) option) rproc" where
  "findPricePrecisionsForInstrument J N category symbol =
     bindP (getInstrumentsInfo J N category [] False []) (\<lambda>symbols.
       case find_symbol symbol symbols of
         Some i \<Rightarrow> ret (Some (steps_of i))
       | None \<Rightarrow> bindP (getInstrumentsInfo J N category symbol True [])
           (\<lambda>fresh. ret (map_option steps_of (find_symbol symbol fresh))))"

section \<open>Orders\<close>

definition no_metadata_text :: "string \<Rightarrow> string \<Rightarrow> string" where
  "no_metadata_text opn symbol = ''Bybit '' @ opn @ '': no instrument metadata for '' @ symbol @
     '' '' @ [CHR 0xE2, CHR 0x80, CHR 0x94] @ '' refusing to guess price/qty precision''"

definition placeOrder :: "'j jops \<Rightarrow> ('j, 'w) net \<Rightarrow> Order \<Rightarrow> ('w, 'j OrderId) rproc" where
  "placeOrder J N order =
     bindP (findPricePrecisionsForInstrument J N (ord_category order) (ord_symbol order)) (\<lambda>steps.
       case steps of
         None \<Rightarrow> throwP (RuntimeError (no_metadata_text ''placeOrder'' (ord_symbol order)))
       | Some (priceStep, qtyStep) \<Rightarrow>
           post_as J N (OrderId_fromJson J) (OrderId_init J) ''/v5/order/create''
             (Order_toJson J (order\<lparr>ord_priceStep := priceStep, ord_qtyStep := qtyStep\<rparr>)))"

definition amend_members ::
  "'j jops \<Rightarrow> Category \<Rightarrow> string \<Rightarrow> string \<Rightarrow> string \<Rightarrow> double \<Rightarrow> double \<Rightarrow> double \<Rightarrow> double \<Rightarrow> (string \<times> 'j) list" where
  "amend_members J category symbol orderId orderLinkId price qty priceStep qtyStep =
     [(''category'', j_str J (Category_name category)), (''symbol'', j_str J symbol)]
     @ (if orderId \<noteq> [] then [(''orderId'', j_str J orderId)] else [])
     @ (if orderLinkId \<noteq> [] then [(''orderLinkId'', j_str J orderLinkId)] else [])
     @ (if price > 0 then [(''price'', j_str J (formatDouble J (decimalPlacesFromStep priceStep) price))] else [])
     @ (if qty > 0 then [(''qty'', j_str J (formatDouble J (decimalPlacesFromStep qtyStep) qty))] else [])"

definition amendOrder ::
  "'j jops \<Rightarrow> ('j, 'w) net \<Rightarrow> Category \<Rightarrow> string \<Rightarrow> string \<Rightarrow> string \<Rightarrow> double \<Rightarrow> double \<Rightarrow> ('w, 'j OrderId) rproc" where
  "amendOrder J N category symbol orderId orderLinkId price qty =
     bindP (findPricePrecisionsForInstrument J N category symbol) (\<lambda>steps.
       case steps of
         None \<Rightarrow> throwP (RuntimeError (no_metadata_text ''amendOrder'' symbol))
       | Some (priceStep, qtyStep) \<Rightarrow>
           post_as J N (OrderId_fromJson J) (OrderId_init J) ''/v5/order/amend''
             (setAll J (amend_members J category symbol orderId orderLinkId price qty priceStep qtyStep)))"

definition cancelOrder ::
  "'j jops \<Rightarrow> ('j, 'w) net \<Rightarrow> Category \<Rightarrow> string \<Rightarrow> string \<Rightarrow> string \<Rightarrow> ('w, 'j OrderId) rproc" where
  "cancelOrder J N category symbol orderId orderLinkId =
     post_as J N (OrderId_fromJson J) (OrderId_init J) ''/v5/order/cancel''
       (params_json J (unless_empty ''orderLinkId'' orderLinkId (unless_empty ''orderId'' orderId
         (insert_or_assign ''category'' (Category_name category)
           (insert_or_assign ''symbol'' symbol [])))))"

definition cancelAllOrders ::
  "'j jops \<Rightarrow> ('j, 'w) net \<Rightarrow> Category \<Rightarrow> string \<Rightarrow> ('w, 'j OrderId list) rproc" where
  "cancelAllOrders J N category symbol =
     bindP (post_as J N (Response_fromJson J) (Response_init J) ''/v5/order/cancel-all''
       (params_json J (unless_empty ''symbol'' symbol (category_params category)))) (\<lambda>r.
     liftR (bindR (resultList J r) (\<lambda>els.
       pushAll (\<lambda>el. OrderId_fromJson J (j_null J) ((OrderId_init J)\<lparr>result := el\<rparr>)) els [])))"

definition openOrders_page ::
  "'j jops \<Rightarrow> ('j, 'w) net \<Rightarrow> Category \<Rightarrow> string \<Rightarrow> string \<Rightarrow> string \<Rightarrow> ('w, OrderResponse list \<times> string) rproc" where
  "openOrders_page J N category symbol settleCoin cursor =
     bindP (get_as J N (OrdersResponse_fromJson J) (OrdersResponse_init J) ''/v5/order/realtime''
       (unless_empty ''cursor'' cursor (unless_empty ''settleCoin'' settleCoin
         (unless_empty ''symbol'' symbol (insert_or_assign ''limit'' ''50'' (category_params category))))))
     (\<lambda>page. ret (ors_orders page, ors_nextPageCursor page))"

definition getOpenOrders ::
  "'j jops \<Rightarrow> ('j, 'w) net \<Rightarrow> Category \<Rightarrow> string \<Rightarrow> string \<Rightarrow> ('w, OrderResponse list) rproc" where
  "getOpenOrders J N category symbol settleCoin =
     pagedLoop (openOrders_page J N category symbol settleCoin) [] []"

definition first_of :: "'a list \<Rightarrow> 'a option" where
  "first_of xs = (case xs of [] \<Rightarrow> None | x # _ \<Rightarrow> Some x)"

definition getOpenOrder ::
  "'j jops \<Rightarrow> ('j, 'w) net \<Rightarrow> Category \<Rightarrow> string \<Rightarrow> string \<Rightarrow> string \<Rightarrow> ('w, OrderResponse option) rproc" where
  "getOpenOrder J N category symbol orderId orderLinkId =
     bindP (get_as J N (OrdersResponse_fromJson J) (OrdersResponse_init J) ''/v5/order/realtime''
       (unless_empty ''orderLinkId'' orderLinkId (unless_empty ''orderId'' orderId
         (insert_or_assign ''symbol'' symbol (category_params category)))))
     (\<lambda>r. ret (first_of (ors_orders r)))"

definition getOrderHistory ::
  "'j jops \<Rightarrow> ('j, 'w) net \<Rightarrow> Category \<Rightarrow> string \<Rightarrow> string \<Rightarrow> string \<Rightarrow> ('w, OrderResponse option) rproc" where
  "getOrderHistory J N category symbol orderId orderLinkId =
     bindP (get_as J N (OrdersResponse_fromJson J) (OrdersResponse_init J) ''/v5/order/history''
       (unless_empty ''orderLinkId'' orderLinkId (unless_empty ''orderId'' orderId
         (unless_empty ''symbol'' symbol (category_params category)))))
     (\<lambda>r. ret (first_of (ors_orders r)))"

section \<open>Executions\<close>

definition PAGE_LIMIT :: nat where "PAGE_LIMIT = 100"
definition MAX_PAGES :: nat where "MAX_PAGES = 20"

text \<open>One page: its executions and the next cursor.\<close>

definition executions_page ::
  "'j jops \<Rightarrow> ('j, 'w) net \<Rightarrow> Category \<Rightarrow> string \<Rightarrow> string \<Rightarrow> string \<Rightarrow> ('w, EventExecution list \<times> string) rproc" where
  "executions_page J N category symbol orderLinkId cursor =
     bindP (get_as J N (Response_fromJson J) (Response_init J) ''/v5/execution/list''
       (unless_empty ''cursor'' cursor (unless_empty ''orderLinkId'' orderLinkId
         (unless_empty ''symbol'' symbol
           (insert_or_assign ''limit'' (nat_to_string PAGE_LIMIT) (category_params category))))))
     (\<lambda>r. liftR (
        bindR (case j_find J (result r) ''list'' of
            None \<Rightarrow> Inr []
          | Some l \<Rightarrow> if j_is_array J l
              then pushAll (\<lambda>el. EventExecution_fromJson J el EventExecution_init) (j_items J l) []
              else Inr []) (\<lambda>xs.
        bindR (readString J (result r) ''nextPageCursor'' []) (\<lambda>(_, next). Inr (xs, next)))))"

definition repeated_cursor_text :: "nat \<Rightarrow> string" where
  "repeated_cursor_text n =
     ''Bybit execution list repeated its page cursor after '' @ nat_to_string n @ '' executions''"

definition incomplete_text :: "nat \<Rightarrow> string" where
  "incomplete_text n = ''Bybit execution list exceeded '' @ nat_to_string MAX_PAGES @
     '' pages and is still incomplete after '' @ nat_to_string n @ '' executions''"

fun executionsLoop ::
  "(string \<Rightarrow> ('s, 'a list \<times> string) proc) \<Rightarrow> nat \<Rightarrow> string \<Rightarrow> 'a list \<Rightarrow> ('s, 'a list) proc" where
  "executionsLoop fetch 0 cursor acc = throwP (RuntimeError (incomplete_text (length acc)))"
| "executionsLoop fetch (Suc pages) cursor acc =
     bindP (fetch cursor) (\<lambda>(items, next).
       let acc = acc @ items in
       if next = [] then ret acc
       else if next = cursor then throwP (RuntimeError (repeated_cursor_text (length acc)))
       else executionsLoop fetch pages next acc)"

definition getExecutions ::
  "'j jops \<Rightarrow> ('j, 'w) net \<Rightarrow> Category \<Rightarrow> string \<Rightarrow> string \<Rightarrow> ('w, EventExecution list) rproc" where
  "getExecutions J N category symbol orderLinkId =
     executionsLoop (executions_page J N category symbol orderLinkId) MAX_PAGES [] []"

section \<open>Positions and the account\<close>

definition positions_page ::
  "'j jops \<Rightarrow> ('j, 'w) net \<Rightarrow> Category \<Rightarrow> string \<Rightarrow> string \<Rightarrow> string \<Rightarrow> ('w, Position list \<times> string) rproc" where
  "positions_page J N category symbol settleCoin cursor =
     bindP (get_as J N (Positions_fromJson J) (Positions_init J) ''/v5/position/list''
       (unless_empty ''cursor'' cursor (unless_empty ''settleCoin'' settleCoin
         (unless_empty ''symbol'' symbol (insert_or_assign ''limit'' ''200'' (category_params category))))))
     (\<lambda>page. ret (ps_positions page, ps_nextPageCursor page))"

definition getPositionInfo ::
  "'j jops \<Rightarrow> ('j, 'w) net \<Rightarrow> Category \<Rightarrow> string \<Rightarrow> string \<Rightarrow> ('w, Position list) rproc" where
  "getPositionInfo J N category symbol settleCoin =
     pagedLoop (positions_page J N category symbol settleCoin) [] []"

text \<open>The order that closes one position; its category is the default.\<close>

definition closing_order :: "Position \<Rightarrow> Order" where
  "closing_order pos = Order_init\<lparr>
     ord_symbol := pos_symbol pos,
     ord_side := (if pos_side pos = Buy then Sell else Buy),
     ord_orderType := Market,
     ord_qty := pos_size pos,
     ord_timeInForce := GTC\<rparr>"

definition closeAllPositions ::
  "'j jops \<Rightarrow> ('j, 'w) net \<Rightarrow> Category \<Rightarrow> string \<Rightarrow> ('w, unit) rproc" where
  "closeAllPositions J N category settleCoin =
     bindP (getPositionInfo J N category [] settleCoin)
       (forEach (\<lambda>pos. if \<not> pos_zeroSize pos
          then bindP (placeOrder J N (closing_order pos)) (\<lambda>_. ret ()) else ret ()))"

definition setPositionMode ::
  "'j jops \<Rightarrow> ('j, 'w) net \<Rightarrow> Category \<Rightarrow> string \<Rightarrow> string \<Rightarrow> PositionMode \<Rightarrow> ('w, bool) rproc" where
  "setPositionMode J N category symbol coin positionMode =
     (if symbol = [] \<and> coin = [] then throwP (InvalidArgument ''Invalid parameters symbol/coin'')
      else
        let payload = j_set J (params_json J (unless_empty ''coin'' coin
              (unless_empty ''symbol'' symbol (category_params category))))
              ''mode'' (j_int J (PositionMode_value positionMode)) in
        bindP (api_post N ''/v5/position/switch-mode'' payload) (\<lambda>r.
        catchP
          (bindP (liftR (handleBybitResponse J (Response_fromJson J) (Response_init J) r)) (\<lambda>_. ret True))
          (\<lambda>_. liftR (bindR (j_parse J (resp_body r)) (\<lambda>j.
             bindR (Response_fromJson J j (Response_init J)) (\<lambda>resp.
               Inr (retMsg resp = ''Position mode is not modified'')))))))"

definition getWalletBalance ::
  "'j jops \<Rightarrow> ('j, 'w) net \<Rightarrow> AccountType \<Rightarrow> string \<Rightarrow> ('w, 'j WalletBalance) rproc" where
  "getWalletBalance J N accountType coin =
     get_as J N (WalletBalance_fromJson J) (WalletBalance_init J) ''/v5/account/wallet-balance''
       (unless_empty ''coin'' coin (insert_or_assign ''accountType'' (AccountType_name accountType) []))"

definition getServerTime :: "'j jops \<Rightarrow> ('j, 'w) net \<Rightarrow> ('w, int) rproc" where
  "getServerTime J N =
     bindP (get_as J N (ServerTime_fromJson J) (ServerTime_init J) ''/v5/market/time'' [])
       (\<lambda>r. ret (let n = st_timeNano r in if n < 0 then - ((- n) div 1000000) else n div 1000000))"

definition getTickers ::
  "'j jops \<Rightarrow> ('j, 'w) net \<Rightarrow> Category \<Rightarrow> string \<Rightarrow> ('w, 'j Tickers) rproc" where
  "getTickers J N category symbol =
     get_as J N (Tickers_fromJson J) (Tickers_init J) ''/v5/market/tickers''
       (insert_or_assign ''symbol'' symbol (category_params category))"

section \<open>The last line of a trade CSV\<close>

definition is_eol :: "char \<Rightarrow> bool" where
  "is_eol c = (c = CHR 0x0A \<or> c = CHR 0x0D)"

definition lastCsvTimestamp :: "string \<Rightarrow> int res" where
  "lastCsvTimestamp csv =
     (let body = rev (dropWhile is_eol (rev csv)) in
      if body = [] then Inl (RuntimeError ''CSV data is empty'')
      else
        let lastLine = rev (takeWhile (\<lambda>c. c \<noteq> CHR 0x0A) (rev body));
            afterComma = dropWhile (\<lambda>c. c \<noteq> CHR '','') lastLine in
        if afterComma = [] then Inl (RuntimeError ''Unexpected CSV format: no comma in last line'')
        else stoll (takeWhile (\<lambda>c. c \<noteq> CHR '','') (tl afterComma)))"

end
