(* ===== verification/Ws_Public.thy ===== *)
theory Ws_Public
  imports Ws_Client Rest_Client
begin

text \<open>
  \<^verbatim>\<open>WSStreamManager\<close> (\<^verbatim>\<open>src/bybit_ws_stream_manager.cpp\<close>): the public ticker and
  candlestick streams, their caches, and the REST fallback for quotes. \<open>pub_now\<close> is the steady
  clock in ms; while a reader sleeps, a function \<open>io\<close> of the number of the poll does to the state
  what the io thread and the clock do. \<^verbatim>\<open>splitString\<close> (of a submodule) is the argument
  \<open>split\<close>. The REST client is there while the weak pointer to it holds.
\<close>

record ('j, 'w) public =
  pub_client :: "'j client"
  pub_timeout :: int
  pub_maxTickAge :: int
  pub_tickers :: "string \<rightharpoonup> EventTicker"
  pub_candlesticks :: "string \<rightharpoonup> (CandleInterval \<rightharpoonup> EventCandlestick)"
  pub_rest :: "'w rclient option"
  pub_logMessageCB :: bool
  pub_tickerUpdateCB :: "(EventTicker \<Rightarrow> exn option) option"
  pub_now :: int
  pub_log :: "string list"

type_synonym ('j, 'w, 'a) pproc = "(('j, 'w) public, 'a) proc"

definition normalizeSymbol :: "string \<Rightarrow> string" where
  "normalizeSymbol pair = toUpper pair"

definition log_pub :: "string \<Rightarrow> ('j, 'w) public \<Rightarrow> ('j, 'w) public" where
  "log_pub m s = (if pub_logMessageCB s then s\<lparr>pub_log := pub_log s @ [m]\<rparr> else s)"

definition isStale :: "('j, 'w) public \<Rightarrow> EventTicker \<Rightarrow> bool" where
  "isStale s ticker =
     (if pub_maxTickAge s \<le> 0 then False
      else et_receivedTimestamp ticker \<le> 0 \<or> pub_now s - et_receivedTimestamp ticker > pub_maxTickAge s * 1000)"

section \<open>The REST fallback\<close>

definition ticker_of_snapshot :: "string \<Rightarrow> int \<Rightarrow> Ticker \<Rightarrow> EventTicker" where
  "ticker_of_snapshot symbol now snap = EventTicker_init\<lparr>
     et_symbol := symbol,
     et_ask1Price := tk_ask1Price snap, et_ask1Size := tk_ask1Size snap,
     et_bid1Price := tk_bid1Price snap, et_bid1Size := tk_bid1Size snap,
     et_lastPrice := tk_lastPrice snap, et_receivedTimestamp := now\<rparr>"

definition rest_log :: "string \<Rightarrow> string \<Rightarrow> string" where
  "rest_log symbol m = ''REST ticker snapshot for '' @ symbol @ m"

text \<open>\<open>during\<close> is what the io thread and the clock do to the state while the request is out.\<close>

definition refreshTickerFromREST ::
  "'j jops \<Rightarrow> ('j, 'w) net \<Rightarrow> (('j, 'w) public \<Rightarrow> ('j, 'w) public) \<Rightarrow> string \<Rightarrow> ('j, 'w, EventTicker option) pproc" where
  "refreshTickerFromREST J N during symbol s =
     (case pub_rest s of
        None \<Rightarrow> Some (Inr None, s)
      | Some client \<Rightarrow>
          (case getTickers J N linear symbol client of
             None \<Rightarrow> None
           | Some (answer, client) \<Rightarrow>
               let s = during (s\<lparr>pub_rest := Some client\<rparr>) in
               (case answer of
                  Inl e \<Rightarrow> Some (Inr None, log_pub (rest_log symbol ('' failed: '' @ what e)) s)
                | Inr response \<Rightarrow>
                    (case tks_tickers response of
                       [] \<Rightarrow> Some (Inr None, log_pub (rest_log symbol '' returned nothing'') s)
                     | snap # _ \<Rightarrow>
                         if tk_ask1Price snap \<le> 0 \<or> tk_bid1Price snap \<le> 0 then
                           Some (Inr None, log_pub (rest_log symbol '' has no valid bid/ask'') s)
                         else
                           let t = ticker_of_snapshot symbol (pub_now s) snap in
                           Some (Inr (Some t), s\<lparr>pub_tickers := (pub_tickers s)(symbol \<mapsto> t)\<rparr>)))))"

section \<open>Stream events\<close>

text \<open>\<^verbatim>\<open>records.back()\<close>, or nothing.\<close>

definition readSymbolFromFilter :: "(string \<Rightarrow> string list) \<Rightarrow> string \<Rightarrow> string" where
  "readSymbolFromFilter split topic = (case split topic of [] \<Rightarrow> [] | r # rs \<Rightarrow> last (r # rs))"

text \<open>
  A parser that throws half way leaves the entry it works on with the fields read so far.
\<close>

fun runStepsOn :: "('r \<Rightarrow> 'r res) list \<Rightarrow> 'r \<Rightarrow> 'r \<times> exn option" where
  "runStepsOn [] r = (r, None)"
| "runStepsOn (f # fs) r = (case f r of Inl e \<Rightarrow> (r, Some e) | Inr r' \<Rightarrow> runStepsOn fs r')"

definition loadEventData_on :: "'j jops \<Rightarrow> 'j Event \<Rightarrow> EventTicker \<Rightarrow> EventTicker \<times> exn option" where
  "loadEventData_on J event t =
     (case ev_type event of
        snapshot \<Rightarrow> runStepsOn (EventTicker_steps J (ev_data event)) t
      | delta \<Rightarrow> runStepsOn (EventTicker_steps J (ev_data event)) t)"

text \<open>The result is what the ticker callback throws into the session, if anything.\<close>

definition onTickerEvent ::
  "'j jops \<Rightarrow> (string \<Rightarrow> string list) \<Rightarrow> 'j Event \<Rightarrow> ('j, 'w) public \<Rightarrow> exn option \<times> ('j, 'w) public" where
  "onTickerEvent J split event s =
     (let symbol = normalizeSymbol (readSymbolFromFilter split (ev_topic event)) in
      case pub_tickers s symbol of
        None \<Rightarrow>
          (case loadEventData_on J event EventTicker_init of
             (t, Some e) \<Rightarrow> (None, log_pub (what e) s)
           | (t, None) \<Rightarrow>
               let t = t\<lparr>et_symbol := symbol, et_receivedTimestamp := pub_now s\<rparr>;
                   s = s\<lparr>pub_tickers := (pub_tickers s)(symbol \<mapsto> t)\<rparr> in
               (case pub_tickerUpdateCB s of None \<Rightarrow> None | Some cb \<Rightarrow> cb t, s))
      | Some entry \<Rightarrow>
          (case loadEventData_on J event entry of
             (t, Some e) \<Rightarrow> (None, log_pub (what e) (s\<lparr>pub_tickers := (pub_tickers s)(symbol \<mapsto> t)\<rparr>))
           | (t, None) \<Rightarrow>
               let t = t\<lparr>et_symbol := symbol, et_receivedTimestamp := pub_now s\<rparr>;
                   s = s\<lparr>pub_tickers := (pub_tickers s)(symbol \<mapsto> t)\<rparr> in
               (case pub_tickerUpdateCB s of None \<Rightarrow> None | Some cb \<Rightarrow> cb t, s)))"

text \<open>
  A candlestick event; the outcome \<open>None\<close> is the undefined behaviour of dereferencing the empty
  result of \<^verbatim>\<open>enum_cast\<close>. Adding the empty map of a new symbol comes before that.
\<close>

definition unexpected_text :: "nat \<Rightarrow> string" where
  "unexpected_text n = ''unexpected candles number: '' @ nat_to_string n"

definition onKlineEvent ::
  "'j jops \<Rightarrow> (string \<Rightarrow> string list) \<Rightarrow> 'j Event \<Rightarrow> ('j, 'w) public \<Rightarrow> ('j, 'w) public option" where
  "onKlineEvent J split event s =
     (let n = j_size J (ev_data event);
          s = (if n \<noteq> 1 then log_pub (unexpected_text n) s else s) in
      case bindR (j_idx J (ev_data event) 0) (\<lambda>j. EventCandlestick_fromJson J j EventCandlestick_init) of
        Inl e \<Rightarrow> Some (log_pub (what e) s)
      | Inr candle \<Rightarrow>
          let symbol = normalizeSymbol (readSymbolFromFilter split (ev_topic event));
              entry = (case pub_candlesticks s symbol of None \<Rightarrow> Map.empty | Some m \<Rightarrow> m) in
          map_option (\<lambda>interval. s\<lparr>pub_candlesticks := (pub_candlesticks s)(symbol \<mapsto> entry(interval \<mapsto> candle))\<rparr>)
            (CandleInterval_cast (ec_interval candle)))"

definition onPublicEvent ::
  "'j jops \<Rightarrow> (string \<Rightarrow> string list) \<Rightarrow> 'j Event \<Rightarrow> ('j, 'w) public \<Rightarrow> (exn option \<times> ('j, 'w) public) option" where
  "onPublicEvent J split event s =
     (if contains_str ''tickers'' (ev_topic event) then Some (onTickerEvent J split event s)
      else if contains_str ''kline'' (ev_topic event) then map_option (\<lambda>s. (None, s)) (onKlineEvent J split event s)
      else Some (None, s))"

section \<open>The manager\<close>

text \<open>The data callback itself is \<open>onPublicEvent\<close>, which is not run through the client here.\<close>

definition public_init :: "Environment \<Rightarrow> ('j, 'w) public" where
  "public_init envt = \<lparr>
     pub_client =
       (let c = client_setDataEventCallback (\<lambda>_. None) client_init in
        if envt = Testnet then client_setEndpoint ''stream-testnet.bybit.com'' ''443'' ''/v5/public/linear'' c else c),
     pub_timeout = 5, pub_maxTickAge = 60, pub_tickers = Map.empty, pub_candlesticks = Map.empty,
     pub_rest = None, pub_logMessageCB = False, pub_tickerUpdateCB = None, pub_now = 0, pub_log = []\<rparr>"

definition setRestClient :: "'w rclient option \<Rightarrow> ('j, 'w) public \<Rightarrow> ('j, 'w) public" where
  "setRestClient r s = s\<lparr>pub_rest := r\<rparr>"

definition setTimeout :: "int \<Rightarrow> ('j, 'w) public \<Rightarrow> ('j, 'w) public" where
  "setTimeout secs s = s\<lparr>pub_timeout := secs\<rparr>"

definition setMaxTickAge :: "int \<Rightarrow> ('j, 'w) public \<Rightarrow> ('j, 'w) public" where
  "setMaxTickAge secs s = s\<lparr>pub_maxTickAge := secs\<rparr>"

definition public_setLoggerCallback :: "('j, 'w) public \<Rightarrow> ('j, 'w) public" where
  "public_setLoggerCallback s =
     s\<lparr>pub_logMessageCB := True, pub_client := client_setLoggerCallback (pub_client s)\<rparr>"

definition setTickerUpdateCallback :: "(EventTicker \<Rightarrow> exn option) \<Rightarrow> ('j, 'w) public \<Rightarrow> ('j, 'w) public" where
  "setTickerUpdateCallback cb s = s\<lparr>pub_tickerUpdateCB := Some cb\<rparr>"

definition ticker_topic :: "string \<Rightarrow> string" where
  "ticker_topic pair = ''tickers.'' @ pair"

definition kline_topic :: "string \<Rightarrow> CandleInterval \<Rightarrow> string" where
  "kline_topic pair interval = ''kline.'' @ CandleInterval_name interval @ ''.'' @ pair"

text \<open>Subscribing once: the client's \<^verbatim>\<open>subscribe\<close> cannot throw, the topic is not empty.\<close>

definition subscribe_once :: "string \<Rightarrow> ('j, 'w) public \<Rightarrow> ('j, 'w) public" where
  "subscribe_once topic s =
     (let s = (if client_isSubscribed topic (pub_client s) then s
               else (log_pub (''subscribing: '' @ topic) s)
                      \<lparr>pub_client := snd (client_subscribe topic (pub_client s))\<rparr>) in
      s\<lparr>pub_client := client_run (pub_client s)\<rparr>)"

definition subscribeTickerStream ::
  "'j jops \<Rightarrow> ('j, 'w) net \<Rightarrow> (('j, 'w) public \<Rightarrow> ('j, 'w) public) \<Rightarrow> string \<Rightarrow> ('j, 'w, unit) pproc" where
  "subscribeTickerStream J N during pair s =
     (let already = client_isSubscribed (ticker_topic pair) (pub_client s);
          s = subscribe_once (ticker_topic pair) s in
      if already then Some (Inr (), s)
      else bindP (refreshTickerFromREST J N during (normalizeSymbol pair)) (\<lambda>_. ret ()) s)"

definition unsubscribeTickerStream :: "string \<Rightarrow> ('j, 'w) public \<Rightarrow> ('j, 'w) public" where
  "unsubscribeTickerStream pair s =
     s\<lparr>pub_client := client_unsubscribe (ticker_topic pair) (pub_client s),
       pub_tickers := (pub_tickers s)(normalizeSymbol pair := None)\<rparr>"

definition subscribeCandlestickStream :: "string \<Rightarrow> CandleInterval \<Rightarrow> ('j, 'w) public \<Rightarrow> ('j, 'w) public" where
  "subscribeCandlestickStream pair interval s = subscribe_once (kline_topic pair interval) s"

text \<open>The destructor: a timeout of 0 tells the readers to return; then the client is destroyed.\<close>

definition public_destroy :: "('j, 'w) public \<Rightarrow> ('j, 'w) public" where
  "public_destroy s = (let s = s\<lparr>pub_timeout := 0\<rparr> in s\<lparr>pub_client := client_destroy (pub_client s)\<rparr>)"

section \<open>Readers\<close>

text \<open>
  The polling loop of \<^verbatim>\<open>readEventTicker\<close>: a fresh quote, \<open>Some None\<close> when the manager
  is being destroyed, or \<open>None\<close> to go to REST. \<open>k\<close> numbers the polls.
\<close>

partial_function (option) pollTicker ::
  "(nat \<Rightarrow> ('j, 'w) public \<Rightarrow> ('j, 'w) public) \<Rightarrow> nat \<Rightarrow> string \<Rightarrow> int \<Rightarrow> ('j, 'w, EventTicker option option) pproc" where
  "pollTicker io k symbol deadline s =
     (if pub_timeout s = 0 then Some (Inr (Some None), s)
      else case pub_tickers s symbol of
        Some t \<Rightarrow> if \<not> isStale s t then Some (Inr (Some (Some t)), s) else Some (Inr None, s)
      | None \<Rightarrow>
          if pub_now s \<ge> deadline then Some (Inr None, s)
          else pollTicker io (Suc k) symbol deadline (io k s))"

declare pollTicker.simps [code]

text \<open>\<open>io 0\<close> is what happens while the REST request is out, \<open>io k\<close> while poll \<open>k\<close> sleeps.\<close>

definition readEventTicker ::
  "'j jops \<Rightarrow> ('j, 'w) net \<Rightarrow> (nat \<Rightarrow> ('j, 'w) public \<Rightarrow> ('j, 'w) public) \<Rightarrow> string \<Rightarrow> ('j, 'w, EventTicker option) pproc" where
  "readEventTicker J N io pair =
     bindP (readP (\<lambda>s. pub_now s + pub_timeout s * 1000)) (\<lambda>deadline.
     bindP (pollTicker io 1 (normalizeSymbol pair) deadline) (\<lambda>found. case found of
       Some r \<Rightarrow> ret r
     | None \<Rightarrow> refreshTickerFromREST J N (io 0) (normalizeSymbol pair)))"

partial_function (option) pollCandle ::
  "(nat \<Rightarrow> ('j, 'w) public \<Rightarrow> ('j, 'w) public) \<Rightarrow> nat \<Rightarrow> string \<Rightarrow> CandleInterval \<Rightarrow> int \<Rightarrow>
   ('j, 'w, EventCandlestick option) pproc" where
  "pollCandle io k symbol interval deadline s =
     (if pub_timeout s = 0 then Some (Inr None, s)
      else case Option.bind (pub_candlesticks s symbol) (\<lambda>m. m interval) of
        Some c \<Rightarrow> Some (Inr (Some c), s)
      | None \<Rightarrow>
          if pub_now s \<ge> deadline then Some (Inr None, s)
          else pollCandle io (Suc k) symbol interval deadline (io k s))"

declare pollCandle.simps [code]

definition readEventCandlestick ::
  "(nat \<Rightarrow> ('j, 'w) public \<Rightarrow> ('j, 'w) public) \<Rightarrow> string \<Rightarrow> CandleInterval \<Rightarrow> ('j, 'w, EventCandlestick option) pproc" where
  "readEventCandlestick io pair interval =
     bindP (readP (\<lambda>s. pub_now s + pub_timeout s * 1000)) (\<lambda>deadline.
     pollCandle io 0 (normalizeSymbol pair) interval deadline)"

end
