(* ===== verification/Gateway.thy ===== *)
theory Gateway
  imports Ws_Private Ws_Public
begin

text \<open>
  \<^verbatim>\<open>BybitExecutionGateway\<close> (\<^verbatim>\<open>src/bybit_execution_gateway.cpp\<close>): order
  operations over the REST client, order and fill events from the private stream. Callbacks are,
  as in \<open>Ws_Private\<close>, the exception they throw on an event, if any; \<open>gw_fills\<close> and
  \<open>gw_updates\<close> record what the fill and the order-update callback were called with. The types of the execution interface are
  those members the code names; \<open>F\<close> is \<^verbatim>\<open>fmt::format\<close> of a double. The public stream
  holds a weak pointer to the gateway's REST client: \<open>on_public\<close> lends it for one call.
\<close>

section \<open>The execution interface\<close>

datatype OrderSide = OSBuy | OSSell
datatype OrderState = OSAccepted | OSPartiallyFilled | OSFilled | OSCancelled | OSRejected

record Quote =
  qt_bid :: double
  qt_ask :: double
  qt_receivedAt :: int

text \<open>\<open>ou_rejectKind\<close> is \<open>None\<close> when the code leaves the member at its default.\<close>

record OrderUpdate =
  ou_clientOrderId :: string
  ou_symbol :: string
  ou_price :: double
  ou_cumFilledQty :: double
  ou_reason :: string
  ou_state :: OrderState
  ou_rejectKind :: "RejectKind option"

record FillEvent =
  fe_clientOrderId :: string
  fe_symbol :: string
  fe_fillId :: string
  fe_qty :: double
  fe_price :: double
  fe_isMaker :: bool

record InstrumentSpec =
  sp_symbol :: string
  sp_tickSize :: double
  sp_qtyStep :: double
  sp_minQty :: double
  sp_maxQty :: double
  sp_minNotional :: double

section \<open>Reading an error text\<close>

definition extractRetCode :: "string \<Rightarrow> int option" where
  "extractRetCode reason = (case str_find ''code: '' reason of
     None \<Rightarrow> None | Some pos \<Rightarrow> Some (strtol (drop (pos + 6) reason)))"

definition contains_any :: "string list \<Rightarrow> string \<Rightarrow> bool" where
  "contains_any pats r = list_ex (\<lambda>p. contains_str p r) pats"

definition classify_code :: "int \<Rightarrow> RejectKind option" where
  "classify_code code =
     (if code = 30208 then Some BenignPostOnlyCross
      else if code = 110094 then Some MinNotional
      else if code = 10006 then Some Throttled
      else if code = 110017 then Some PositionClosed
      else if code = 10029 \<or> code = 30228 \<or> code = 110087 then Some Permanent
      else None)"

definition classify_text :: "string \<Rightarrow> RejectKind" where
  "classify_text r =
     (if contains_any [''postonly'', ''post only'', ''post-only'', ''take liquidity'', ''takeliquidity''] r
      then BenignPostOnlyCross
      else if contains_any [''minimum order value'', ''min notional'', ''min size'', ''exceeded lower limit''] r
      then MinNotional
      else if contains_any [''too many visits'', ''rate limit''] r then Throttled
      else if contains_any [''reduce-only rule'', ''reduce only rule'', ''position is zero''] r
      then PositionClosed
      else if contains_any [''sign the required agreement'', ''unmatched ip'', ''delisting'',
        ''no new positions'', ''position idx'', ''position mode'', ''whitelist''] r
      then Permanent
      else Hard)"

definition classifyRejectReason :: "string \<Rightarrow> RejectKind" where
  "classifyRejectReason reason =
     (case Option.bind (extractRetCode reason) classify_code of
        Some k \<Rightarrow> k
      | None \<Rightarrow> classify_text (toLower reason))"

definition gone_code :: "int \<Rightarrow> bool" where
  "gone_code code = (code = 110001 \<or> code = 110008 \<or> code = 110010)"

definition isOrderGoneReason :: "string \<Rightarrow> bool" where
  "isOrderGoneReason reason =
     ((case extractRetCode reason of None \<Rightarrow> False | Some code \<Rightarrow> gone_code code)
      \<or> contains_any [''order not exists'', ''too late'', ''order does not exist'', ''110001'']
          (toLower reason))"

definition isAmbiguousOutcomeReason :: "string \<Rightarrow> bool" where
  "isAmbiguousOutcomeReason reason =
     contains_any [''code: 10000'', ''code: 10016'', ''bad response, code 5''] (toLower reason)"

text \<open>
  The handlers of \<^verbatim>\<open>submitPostOnlyLimit\<close>, \<^verbatim>\<open>amendPrice\<close> and
  \<^verbatim>\<open>submitReduceOnlyMarket\<close>: what an exception of the REST client is turned into.
\<close>

definition outcome_of :: "exn \<Rightarrow> exn" where
  "outcome_of e =
     (case e of
        TransportError _ \<Rightarrow> e
      | _ \<Rightarrow> if isAmbiguousOutcomeReason (what e) then e
             else GatewayError (classifyRejectReason (what e)) (what e))"

section \<open>The gateway\<close>

record ('j, 'w) gateway =
  gw_rest :: "'w rclient"
  gw_private :: "'j manager"
  gw_public :: "('j, 'w) public"
  gw_positionIdx :: int
  gw_orderUpdateCB :: "(OrderUpdate \<Rightarrow> exn option) option"
  gw_fillCB :: "(FillEvent \<Rightarrow> exn option) option"
  gw_quoteCB :: "(string \<Rightarrow> Quote \<Rightarrow> exn option) option"
  gw_specCache :: "string \<rightharpoonup> InstrumentSpec"
  gw_fills :: "FillEvent list"
  gw_updates :: "OrderUpdate list"

type_synonym ('j, 'w, 'a) gproc = "(('j, 'w) gateway, 'a) proc"

definition rest_call :: "('w rclient, 'a) proc \<Rightarrow> ('j, 'w, 'a) gproc" where
  "rest_call = zoomP gw_rest (\<lambda>r g. g\<lparr>gw_rest := r\<rparr>)"

definition on_public :: "(('j, 'w) public, 'a) proc \<Rightarrow> ('j, 'w, 'a) gproc" where
  "on_public = zoomP (\<lambda>g. (gw_public g)\<lparr>pub_rest := Some (gw_rest g)\<rparr>)
     (\<lambda>p g. g\<lparr>gw_public := p\<lparr>pub_rest := None\<rparr>,
        gw_rest := (case pub_rest p of None \<Rightarrow> gw_rest g | Some r \<Rightarrow> r)\<rparr>)"

definition toQuote :: "EventTicker \<Rightarrow> Quote" where
  "toQuote ticker = \<lparr>qt_bid = et_bid1Price ticker, qt_ask = et_ask1Price ticker,
     qt_receivedAt = et_receivedTimestamp ticker\<rparr>"

text \<open>The ticker callback the constructor installs: what it throws into the stream.\<close>

definition onTickerUpdate :: "EventTicker \<Rightarrow> ('j, 'w) gateway \<Rightarrow> exn option" where
  "onTickerUpdate ticker g =
     (case gw_quoteCB g of None \<Rightarrow> None | Some cb \<Rightarrow> cb (et_symbol ticker) (toQuote ticker))"

text \<open>
  The constructor, less the REST client, which is given, and less the callbacks for the two streams:
  they read the gateway when they are called, so they are operations of it (\<open>onTickerUpdate\<close>,
  \<open>onOrderEvent\<close>, \<open>onExecutionEvent\<close>).
\<close>

definition gateway_init ::
  "'w rclient \<Rightarrow> string \<Rightarrow> string \<Rightarrow> Environment \<Rightarrow> int \<Rightarrow> ('j, 'w) gateway" where
  "gateway_init r key secret envt positionIdx = \<lparr>
     gw_rest = r,
     gw_private = manager_setLoggerCallback (manager_init key secret envt),
     gw_public = setTickerUpdateCallback (\<lambda>_. None) (setTimeout 1 (public_setLoggerCallback (public_init envt))),
     gw_positionIdx = positionIdx, gw_orderUpdateCB = None, gw_fillCB = None, gw_quoteCB = None,
     gw_specCache = Map.empty, gw_fills = [], gw_updates = []\<rparr>"

definition setOrderUpdateCallback :: "(OrderUpdate \<Rightarrow> exn option) \<Rightarrow> ('j, 'w) gateway \<Rightarrow> ('j, 'w) gateway" where
  "setOrderUpdateCallback cb g = g\<lparr>gw_orderUpdateCB := Some cb\<rparr>"

definition setFillCallback :: "(FillEvent \<Rightarrow> exn option) \<Rightarrow> ('j, 'w) gateway \<Rightarrow> ('j, 'w) gateway" where
  "setFillCallback cb g = g\<lparr>gw_fillCB := Some cb\<rparr>"

definition setQuoteCallback :: "(string \<Rightarrow> Quote \<Rightarrow> exn option) \<Rightarrow> ('j, 'w) gateway \<Rightarrow> ('j, 'w) gateway" where
  "setQuoteCallback cb g = g\<lparr>gw_quoteCB := Some cb\<rparr>"

definition subscribeQuotes ::
  "'j jops \<Rightarrow> ('j, 'w) net \<Rightarrow> (('j, 'w) public \<Rightarrow> ('j, 'w) public) \<Rightarrow> string \<Rightarrow> ('j, 'w, unit) gproc" where
  "subscribeQuotes J N during symbol = on_public (subscribeTickerStream J N during symbol)"

definition unsubscribeQuotes :: "string \<Rightarrow> ('j, 'w, unit) gproc" where
  "unsubscribeQuotes symbol = on_public (modifyP (unsubscribeTickerStream symbol))"

definition lastQuote ::
  "'j jops \<Rightarrow> ('j, 'w) net \<Rightarrow> (nat \<Rightarrow> ('j, 'w) public \<Rightarrow> ('j, 'w) public) \<Rightarrow> string \<Rightarrow> ('j, 'w, Quote option) gproc" where
  "lastQuote J N io symbol =
     bindP (on_public (readEventTicker J N io symbol)) (\<lambda>ticker. ret (map_option toQuote ticker))"

definition toSide :: "Side \<Rightarrow> OrderSide" where
  "toSide side = (if side = Buy then OSBuy else OSSell)"

fun fromSide :: "OrderSide \<Rightarrow> Side" where
  "fromSide OSBuy = Buy"
| "fromSide OSSell = Sell"

definition gated_text :: "string \<Rightarrow> string" where
  "gated_text opn = ''Bybit private stream not live '' @ [CHR 0xE2, CHR 0x80, CHR 0x94] @ '' '' @ opn @
     '' gated until order/execution events flow (fills would be lost)''"

definition requireEventStream :: "string \<Rightarrow> ('j, 'w, unit) gproc" where
  "requireEventStream opn g =
     (case isLive (gw_private g) of
        (live, m) \<Rightarrow>
          Some (if live then Inr () else Inl (GatewayError Throttled (gated_text opn)), g\<lparr>gw_private := m\<rparr>))"

text \<open>
  The destructor ends both streams, the private one first, before the members they deliver into.
\<close>

definition gateway_destroy :: "('j, 'w) gateway \<Rightarrow> ('j, 'w) gateway" where
  "gateway_destroy g =
     (let g = g\<lparr>gw_private := manager_destroy (gw_private g)\<rparr> in g\<lparr>gw_public := public_destroy (gw_public g)\<rparr>)"

section \<open>Fills and order updates\<close>

definition fill_of :: "string \<Rightarrow> string \<Rightarrow> EventExecution \<Rightarrow> FillEvent" where
  "fill_of clientOrderId symbol x = \<lparr>fe_clientOrderId = clientOrderId, fe_symbol = symbol,
     fe_fillId = ex_execId x, fe_qty = ex_execQty x, fe_price = ex_execPrice x, fe_isMaker = ex_isMaker x\<rparr>"

text \<open>The execution callback the constructor installs: what it hands to the fill callback.\<close>

definition ws_fill :: "EventExecution \<Rightarrow> FillEvent option" where
  "ws_fill event =
     (if ex_execType event \<noteq> Trade \<or> ex_orderLinkId event = [] then None
      else Some (fill_of (ex_orderLinkId event) (ex_symbol event) event))"

definition order_state :: "EventOrderUpdate \<Rightarrow> (OrderState \<times> RejectKind option) option" where
  "order_state event =
     (case eo_orderStatus event of
        Created \<Rightarrow> Some (OSAccepted, None)
      | New \<Rightarrow> Some (OSAccepted, None)
      | PartiallyFilled \<Rightarrow> Some (OSPartiallyFilled, None)
      | Filled \<Rightarrow> Some (OSFilled, None)
      | PendingCancel \<Rightarrow> None
      | Rejected \<Rightarrow> Some (OSRejected, Some (classifyRejectReason (eo_rejectReason event)))
      | st \<Rightarrow>
          if st = Cancelled \<or> st = PartiallyFilledCanceled \<or> st = Deactivated then
            (if classifyRejectReason (eo_rejectReason event) = BenignPostOnlyCross
             then Some (OSRejected, Some BenignPostOnlyCross)
             else Some (OSCancelled, None))
          else None)"

text \<open>The order callback the constructor installs: what it hands to the order-update callback.\<close>

definition ws_order_update :: "EventOrderUpdate \<Rightarrow> OrderUpdate option" where
  "ws_order_update event =
     (if eo_orderLinkId event = [] then None
      else case order_state event of
        None \<Rightarrow> None
      | Some (st, kind) \<Rightarrow> Some \<lparr>ou_clientOrderId = eo_orderLinkId event, ou_symbol = eo_symbol event,
          ou_price = eo_price event, ou_cumFilledQty = eo_cumExecQty event,
          ou_reason = eo_rejectReason event, ou_state = st, ou_rejectKind = kind\<rparr>)"

definition emit_fill :: "(FillEvent \<Rightarrow> exn option) \<Rightarrow> FillEvent \<Rightarrow> ('j, 'w, unit) gproc" where
  "emit_fill cb fill g =
     Some (case cb fill of None \<Rightarrow> Inr () | Some e \<Rightarrow> Inl e, g\<lparr>gw_fills := gw_fills g @ [fill]\<rparr>)"

definition emit_update :: "(OrderUpdate \<Rightarrow> exn option) \<Rightarrow> OrderUpdate \<Rightarrow> ('j, 'w, unit) gproc" where
  "emit_update cb update g =
     Some (case cb update of None \<Rightarrow> Inr () | Some e \<Rightarrow> Inl e, g\<lparr>gw_updates := gw_updates g @ [update]\<rparr>)"

definition onOrderEvent :: "EventOrderUpdate \<Rightarrow> ('j, 'w, unit) gproc" where
  "onOrderEvent event g =
     (case (gw_orderUpdateCB g, ws_order_update event) of
        (Some cb, Some update) \<Rightarrow> emit_update cb update g
      | _ \<Rightarrow> ret () g)"

definition onExecutionEvent :: "EventExecution \<Rightarrow> ('j, 'w, unit) gproc" where
  "onExecutionEvent event g =
     (case (gw_fillCB g, ws_fill event) of
        (Some cb, Some fill) \<Rightarrow> emit_fill cb fill g
      | _ \<Rightarrow> ret () g)"

text \<open>
  A message of the private stream: the manager's data callback dispatches its rows to the two
  callbacks above. What they throw the manager logs.
\<close>

definition thrown :: "('j, 'w, unit) gproc \<Rightarrow> ('j, 'w) gateway \<Rightarrow> exn option" where
  "thrown m g = (case m g of Some (Inl e, _) \<Rightarrow> Some e | _ \<Rightarrow> None)"

definition installed :: "('j, 'w) gateway \<Rightarrow> 'j manager" where
  "installed g =
     manager_setExecutionCallback (\<lambda>event. thrown (onExecutionEvent event) g)
       (manager_setOrderUpdateCallback (\<lambda>event. thrown (onOrderEvent event) g) (gw_private g))"

definition after :: "('j, 'w, unit) gproc \<Rightarrow> ('j, 'w) gateway \<Rightarrow> ('j, 'w) gateway" where
  "after m g = (case m g of None \<Rightarrow> g | Some (_, g') \<Rightarrow> g')"

fun receive :: "private_delivery \<Rightarrow> ('j, 'w) gateway \<Rightarrow> ('j, 'w) gateway" where
  "receive (OrderDelivery (Called event)) g = after (onOrderEvent event) g"
| "receive (ExecutionDelivery (Called event)) g = after (onExecutionEvent event) g"
| "receive _ g = g"

definition private_message :: "'j jops \<Rightarrow> 'j Event \<Rightarrow> ('j, 'w) gateway \<Rightarrow> ('j, 'w) gateway" where
  "private_message J event g = fold receive (onPrivateEvent J (installed g) event) g"

section \<open>Reconciling an order that is gone\<close>

definition genuine :: "EventExecution \<Rightarrow> bool" where
  "genuine x = (ex_execType x = Trade \<and> ex_execId x \<noteq> [])"

definition listed_qty :: "EventExecution list \<Rightarrow> double" where
  "listed_qty xs = foldl (\<lambda>q x. if genuine x then dadd q (ex_execQty x) else q) 0 xs"

definition unread_text :: "string \<Rightarrow> string \<Rightarrow> string \<Rightarrow> string" where
  "unread_text symbol clientOrderId reason = ''Bybit '' @ symbol @ '' order '' @ clientOrderId @
     '' gone at cancel, but its fills could not be read back: '' @ reason"

definition unindexed_text :: "(double \<Rightarrow> string) \<Rightarrow> string \<Rightarrow> string \<Rightarrow> double \<Rightarrow> double \<Rightarrow> string" where
  "unindexed_text F symbol clientOrderId reported listed = ''Bybit '' @ symbol @ '' order '' @ clientOrderId @
     '' gone at cancel: history reports '' @ F reported @ '' filled, the execution list only '' @ F listed @
     '' '' @ [CHR 0xE2, CHR 0x80, CHR 0x94] @ '' not indexed yet''"

definition short_of :: "OrderResponse option \<Rightarrow> double \<Rightarrow> bool" where
  "short_of finalState listed =
     (case finalState of None \<Rightarrow> False | Some o' \<Rightarrow> or_cumExecQty o' > dadd listed (rnd (1 / 10 ^ 9)))"

definition read_back ::
  "'j jops \<Rightarrow> ('j, 'w) net \<Rightarrow> string \<Rightarrow> string \<Rightarrow> ('w, EventExecution list \<times> OrderResponse option) rproc" where
  "read_back J N clientOrderId symbol =
     bindP (getExecutions J N linear symbol clientOrderId) (\<lambda>executions.
     bindP (getOrderHistory J N linear symbol [] clientOrderId) (\<lambda>finalState.
     ret (executions, finalState)))"

definition reemit ::
  "(FillEvent \<Rightarrow> exn option) \<Rightarrow> string \<Rightarrow> string \<Rightarrow> EventExecution list \<Rightarrow> ('j, 'w, unit) gproc" where
  "reemit cb clientOrderId symbol =
     forEach (\<lambda>x. if \<not> genuine x then ret () else emit_fill cb (fill_of clientOrderId symbol x))"

definition reconcileMissedFills ::
  "'j jops \<Rightarrow> ('j, 'w) net \<Rightarrow> (double \<Rightarrow> string) \<Rightarrow> string \<Rightarrow> string \<Rightarrow> ('j, 'w, unit) gproc" where
  "reconcileMissedFills J N F clientOrderId symbol =
     bindP (readP gw_fillCB) (\<lambda>fillCB. case fillCB of
       None \<Rightarrow> ret ()
     | Some cb \<Rightarrow>
         bindP (catchP (rest_call (read_back J N clientOrderId symbol))
                 (\<lambda>e. throwP (ExecutionUnknown (unread_text symbol clientOrderId (what e)))))
           (\<lambda>(executions, finalState).
              let listed = listed_qty executions in
              if short_of finalState listed then
                throwP (ExecutionUnknown (unindexed_text F symbol clientOrderId
                  (case finalState of None \<Rightarrow> 0 | Some o' \<Rightarrow> or_cumExecQty o') listed))
              else reemit cb clientOrderId symbol executions))"

section \<open>Start and instruments\<close>

definition name :: string where "name = ''Bybit''"

definition supportsAmend :: bool where "supportsAmend = True"

text \<open>
  \<open>io n\<close> is what the io thread does to the private stream during the 100 ms sleep after which
  \<open>n\<close> polls remain.
\<close>

definition not_live_text :: "bool \<Rightarrow> string" where
  "not_live_text authed =
     (if authed
      then ''BybitExecutionGateway: order/execution subscribe not acknowledged within 10 s''
      else ''BybitExecutionGateway: private stream auth timeout (10 s)'')"

fun awaitLive :: "(nat \<Rightarrow> 'j manager \<Rightarrow> 'j manager) \<Rightarrow> nat \<Rightarrow> ('j, 'w, unit) gproc" where
  "awaitLive io 0 g =
     Some (Inl (RuntimeError (not_live_text (manager_isAuthenticated (gw_private g)))), g)"
| "awaitLive io (Suc n) g =
     (case isLive (gw_private g) of
        (live, m) \<Rightarrow>
          if live then Some (Inr (), g\<lparr>gw_private := m\<rparr>)
          else awaitLive io n (g\<lparr>gw_private := io n m\<rparr>))"

definition start ::
  "'j jops \<Rightarrow> ('j, 'w) net \<Rightarrow> (nat \<Rightarrow> 'j manager \<Rightarrow> 'j manager) \<Rightarrow> ('j, 'w, unit) gproc" where
  "start J N io =
     bindP (rest_call (getInstrumentsInfo J N linear [] True [])) (\<lambda>_.
     bindP (modifyP (\<lambda>g. g\<lparr>gw_private := connect (gw_private g)\<rparr>)) (\<lambda>_.
     awaitLive io 100))"

definition spec_of :: "string \<Rightarrow> Instrument \<Rightarrow> InstrumentSpec" where
  "spec_of symbol inst = \<lparr>sp_symbol = symbol,
     sp_tickSize = pf_tickSize (ins_priceFilter inst),
     sp_qtyStep = ls_qtyStep (ins_lotSizeFilter inst),
     sp_minQty = ls_minOrderQty (ins_lotSizeFilter inst),
     sp_maxQty = ls_maxOrderQty (ins_lotSizeFilter inst),
     sp_minNotional = ls_minNotionalValue (ins_lotSizeFilter inst)\<rparr>"

fun specAttempts ::
  "'j jops \<Rightarrow> ('j, 'w) net \<Rightarrow> string \<Rightarrow> bool list \<Rightarrow> ('j, 'w, InstrumentSpec) gproc" where
  "specAttempts J N symbol [] = throwP (RuntimeError (''Bybit: unknown instrument '' @ symbol))"
| "specAttempts J N symbol (force # forces) =
     bindP (rest_call (getInstrumentsInfo J N linear symbol force [])) (\<lambda>instruments.
     case find_symbol symbol instruments of
       None \<Rightarrow> specAttempts J N symbol forces
     | Some inst \<Rightarrow>
         bindP (modifyP (\<lambda>g. g\<lparr>gw_specCache := (gw_specCache g)(symbol \<mapsto> spec_of symbol inst)\<rparr>))
           (\<lambda>_. ret (spec_of symbol inst)))"

definition instrumentSpec :: "'j jops \<Rightarrow> ('j, 'w) net \<Rightarrow> string \<Rightarrow> ('j, 'w, InstrumentSpec) gproc" where
  "instrumentSpec J N symbol =
     bindP (readP (\<lambda>g. gw_specCache g symbol)) (\<lambda>cached. case cached of
       Some spec \<Rightarrow> ret spec
     | None \<Rightarrow> specAttempts J N symbol [False, True])"

definition refreshInstruments :: "'j jops \<Rightarrow> ('j, 'w) net \<Rightarrow> ('j, 'w, unit) gproc" where
  "refreshInstruments J N =
     bindP (rest_call (getInstrumentsInfo J N linear [] True [])) (\<lambda>_.
     modifyP (\<lambda>g. g\<lparr>gw_specCache := Map.empty\<rparr>))"

section \<open>Order operations\<close>

definition post_only_order :: "int \<Rightarrow> string \<Rightarrow> string \<Rightarrow> OrderSide \<Rightarrow> double \<Rightarrow> double \<Rightarrow> bool \<Rightarrow> Order" where
  "post_only_order positionIdx clientOrderId symbol side qty price reduceOnly = Order_init\<lparr>
     ord_category := linear, ord_symbol := symbol, ord_side := fromSide side, ord_orderType := Limit,
     ord_timeInForce := PostOnly, ord_qty := qty, ord_price := price, ord_reduceOnly := reduceOnly,
     ord_orderLinkId := clientOrderId, ord_positionIdx := positionIdx\<rparr>"

definition submitPostOnlyLimit ::
  "'j jops \<Rightarrow> ('j, 'w) net \<Rightarrow> string \<Rightarrow> string \<Rightarrow> OrderSide \<Rightarrow> double \<Rightarrow> double \<Rightarrow> bool \<Rightarrow> ('j, 'w, unit) gproc" where
  "submitPostOnlyLimit J N clientOrderId symbol side qty price reduceOnly =
     bindP (readP gw_positionIdx) (\<lambda>positionIdx.
     bindP (requireEventStream ''submit'') (\<lambda>_.
     catchP
       (bindP (rest_call (placeOrder J N
          (post_only_order positionIdx clientOrderId symbol side qty price reduceOnly))) (\<lambda>_. ret ()))
       (\<lambda>e. throwP (outcome_of e))))"

definition amendPrice ::
  "'j jops \<Rightarrow> ('j, 'w) net \<Rightarrow> string \<Rightarrow> string \<Rightarrow> double \<Rightarrow> ('j, 'w, unit) gproc" where
  "amendPrice J N clientOrderId symbol price =
     bindP (requireEventStream ''amend'') (\<lambda>_.
     catchP
       (bindP (rest_call (amendOrder J N linear symbol [] clientOrderId price 0)) (\<lambda>_. ret ()))
       (\<lambda>e. throwP (outcome_of e)))"

definition cancel ::
  "'j jops \<Rightarrow> ('j, 'w) net \<Rightarrow> (double \<Rightarrow> string) \<Rightarrow> string \<Rightarrow> string \<Rightarrow> ('j, 'w, bool) gproc" where
  "cancel J N F clientOrderId symbol =
     catchP
       (bindP (rest_call (cancelOrder J N linear symbol [] clientOrderId)) (\<lambda>_. ret True))
       (\<lambda>e. case e of
          TransportError _ \<Rightarrow> throwP e
        | _ \<Rightarrow>
            if isOrderGoneReason (what e) then
              bindP (reconcileMissedFills J N F clientOrderId symbol) (\<lambda>_. ret False)
            else if isAmbiguousOutcomeReason (what e) then throwP e
            else throwP (GatewayError (classifyRejectReason (what e)) (what e)))"

definition reduce_only_order :: "int \<Rightarrow> string \<Rightarrow> string \<Rightarrow> OrderSide \<Rightarrow> double \<Rightarrow> Order" where
  "reduce_only_order positionIdx clientOrderId symbol side qty = Order_init\<lparr>
     ord_category := linear, ord_symbol := symbol, ord_side := fromSide side, ord_orderType := Market,
     ord_timeInForce := IOC, ord_qty := qty, ord_reduceOnly := True,
     ord_orderLinkId := clientOrderId, ord_positionIdx := positionIdx\<rparr>"

definition submitReduceOnlyMarket ::
  "'j jops \<Rightarrow> ('j, 'w) net \<Rightarrow> string \<Rightarrow> string \<Rightarrow> OrderSide \<Rightarrow> double \<Rightarrow> ('j, 'w, unit) gproc" where
  "submitReduceOnlyMarket J N clientOrderId symbol side qty =
     bindP (readP gw_positionIdx) (\<lambda>positionIdx.
     catchP
       (bindP (rest_call (placeOrder J N
          (reduce_only_order positionIdx clientOrderId symbol side qty))) (\<lambda>_. ret ()))
       (\<lambda>e. throwP (outcome_of e)))"

definition stray_text :: "OrderResponse \<Rightarrow> string \<Rightarrow> string" where
  "stray_text order reason = ''stray order '' @ or_orderLinkId order @ '' on '' @ or_symbol order @
     '' could not be cancelled: '' @ reason"

fun strayLoop ::
  "'j jops \<Rightarrow> ('j, 'w) net \<Rightarrow> (double \<Rightarrow> string) \<Rightarrow> string \<Rightarrow> nat \<Rightarrow> OrderResponse list \<Rightarrow> ('j, 'w, nat) gproc" where
  "strayLoop J N F pre cancelled [] = ret cancelled"
| "strayLoop J N F pre cancelled (order # orders) =
     (if \<not> starts_with pre (or_orderLinkId order) then strayLoop J N F pre cancelled orders
      else
        bindP (catchP (cancel J N F (or_orderLinkId order) (or_symbol order))
          (\<lambda>e. case e of
             GatewayError kind m \<Rightarrow> throwP (GatewayError kind (stray_text order m))
           | _ \<Rightarrow> throwP e))
        (\<lambda>_. strayLoop J N F pre (cancelled + 1) orders))"

definition cancelStrayOrders ::
  "'j jops \<Rightarrow> ('j, 'w) net \<Rightarrow> (double \<Rightarrow> string) \<Rightarrow> string \<Rightarrow> string \<Rightarrow> ('j, 'w, nat) gproc" where
  "cancelStrayOrders J N F clientOrderIdPrefix settleCoin =
     bindP (rest_call (getOpenOrders J N linear [] settleCoin))
       (strayLoop J N F clientOrderIdPrefix 0)"

end
