(* ===== verification/Rest_Spec.thy ===== *)
theory Rest_Spec
  imports Rest_Client Mini_Json
begin

text \<open>
  What the REST endpoints guarantee: complete listings, the instrument cache, the precision of the
  orders sent, and how answers become exceptions.
\<close>

section \<open>Paging\<close>

lemma pagedLoop_induct [consumes 1, case_names error last more]:
  assumes "pagedLoop fetch c acc s = Some (r, s')"
    and error: "\<And>c acc s e s'. fetch c s = Some (Inl e, s') \<Longrightarrow> P c acc s (Inl e) s'"
    and last: "\<And>c acc s items s'. fetch c s = Some (Inr (items, []), s') \<Longrightarrow> P c acc s (Inr (acc @ items)) s'"
    and more: "\<And>c acc s items next s1 r s'. fetch c s = Some (Inr (items, next), s1) \<Longrightarrow> next \<noteq> [] \<Longrightarrow>
        P next (acc @ items) s1 r s' \<Longrightarrow> P c acc s r s'"
  shows "P c acc s r s'"
proof -
  have "f = fetch \<longrightarrow> P c acc s (fst y) (snd y)" if "pagedLoop f c acc s = Some y" for f y
  proof (rule pagedLoop.raw_induct [OF _ that, where P = "\<lambda>f c acc s y. f = fetch \<longrightarrow> P c acc s (fst y) (snd y)"])
    fix loop f c acc s y
    assume 1: "\<And>f c acc s y. loop f c acc s = Some y \<Longrightarrow> f = fetch \<longrightarrow> P c acc s (fst y) (snd y)"
      "(case f c s of
        None \<Rightarrow> None
      | Some (Inl e, s') \<Rightarrow> Some (Inl e, s')
      | Some (Inr (items, next), s') \<Rightarrow>
          if next \<noteq> [] then loop f next (acc @ items) s'
          else Some (Inr (acc @ items), s')) = Some y"
    show "f = fetch \<longrightarrow> P c acc s (fst y) (snd y)"
    proof
      assume f: "f = fetch"
      show "P c acc s (fst y) (snd y)"
      proof (cases "fetch c s")
        case (Some q)
        obtain q1 s1 where q: "q = (q1, s1)" by fastforce
        show ?thesis
        proof (cases q1)
          case (Inl e)
          with 1(2) f Some q have "y = (Inl e, s1)" by simp
          with error Some q Inl show ?thesis by simp
        next
          case (Inr p)
          obtain items "next" where p: "p = (items, next)" by fastforce
          show ?thesis
          proof (cases "next = []")
            case True
            with 1(2) f Some q Inr p have "y = (Inr (acc @ items), s1)" by simp
            with last Some q Inr p True show ?thesis by simp
          next
            case False
            with 1(2) f Some q Inr p have "loop fetch next (acc @ items) s1 = Some y" by simp
            with 1(1) have "P next (acc @ items) s1 (fst y) (snd y)" by blast
            with more Some q Inr p False show ?thesis by simp
          qed
        qed
      qed (use 1(2) f in simp)
    qed
  qed
  with assms(1) show ?thesis by fastforce
qed

text \<open>
  A complete listing: the pages from cursor \<open>c\<close>, each cursor taken from the page before, up to
  the page with the empty cursor; \<open>n\<close> counts the pages.
\<close>

inductive listing ::
  "(string \<Rightarrow> ('s, 'a list \<times> string) proc) \<Rightarrow> string \<Rightarrow> 's \<Rightarrow> nat \<Rightarrow> 'a list \<Rightarrow> 's \<Rightarrow> bool" for fetch where
  last_page: "fetch c s = Some (Inr (items, []), s') \<Longrightarrow> listing fetch c s 1 items s'"
| next_page: "fetch c s = Some (Inr (items, next), s1) \<Longrightarrow> next \<noteq> [] \<Longrightarrow> listing fetch next s1 n rest s'
    \<Longrightarrow> listing fetch c s (Suc n) (items @ rest) s'"

lemma pagedLoop_complete:
  "pagedLoop fetch c acc s = Some (Inr xs, s') \<longleftrightarrow> (\<exists>n items. listing fetch c s n items s' \<and> xs = acc @ items)"
proof
  assume "pagedLoop fetch c acc s = Some (Inr xs, s')"
  note run = this
  have "\<forall>ys. r = Inr ys \<longrightarrow> (\<exists>n items. listing fetch c s n items s' \<and> ys = acc @ items)"
    if "pagedLoop fetch c acc s = Some (r, s')" for r
    using that
  proof (induction rule: pagedLoop_induct)
    case (more c acc s items "next" s1 r s')
    then show ?case using listing.next_page by fastforce
  qed (auto intro: listing.last_page)
  with run
  show "\<exists>n items. listing fetch c s n items s' \<and> xs = acc @ items" by blast
next
  assume "\<exists>n items. listing fetch c s n items s' \<and> xs = acc @ items"
  then obtain n items where "listing fetch c s n items s'" "xs = acc @ items" by blast
  then show "pagedLoop fetch c acc s = Some (Inr xs, s')"
  proof (induction arbitrary: acc rule: listing.induct)
    case (last_page c s items s')
    then show ?case by (subst pagedLoop.simps) simp
  next
    case (next_page c s items "next" s1 n rest s')
    then show ?case by (subst pagedLoop.simps) simp
  qed
qed

lemma executionsLoop_listing:
  "executionsLoop fetch n c acc s = Some (Inr xs, s') \<Longrightarrow>
     \<exists>k items. listing fetch c s k items s' \<and> k \<le> n \<and> xs = acc @ items"
proof (induction fetch n c acc arbitrary: s rule: executionsLoop.induct)
  case (2 fetch pages c acc)
  from "2.prems" obtain items "next" s1 where f: "fetch c s = Some (Inr (items, next), s1)"
    by (auto simp: bindP_cases)
  show ?case
  proof (cases "next = []")
    case True
    with "2.prems" f have "xs = acc @ items" "s' = s1" by (auto simp: bindP_cases)
    with f True show ?thesis by (intro exI [of _ 1] exI [of _ items]) (auto intro: listing.last_page simp del: One_nat_def)
  next
    case False
    with "2.prems" f have "next \<noteq> c" "executionsLoop fetch pages next (acc @ items) s1 = Some (Inr xs, s')"
      by (auto simp: bindP_cases Let_def split: if_splits)
    then have "\<exists>k rest. listing fetch next s1 k rest s' \<and> k \<le> pages \<and> xs = (acc @ items) @ rest"
      using False by (intro "2.IH") auto
    then obtain k rest where "listing fetch next s1 k rest s'" "k \<le> pages" "xs = (acc @ items) @ rest" by blast
    with f False show ?thesis
      by (intro exI [of _ "Suc k"] exI [of _ "items @ rest"]) (auto intro: listing.next_page)
  qed
qed simp

section \<open>Page sources\<close>

text \<open>
  What the loops rely on: a page request returns (with a page or an exception), and leaves alone
  what \<open>view\<close> observes of the state.
\<close>

locale page_source =
  fixes fetch :: "string \<Rightarrow> ('s, 'a list \<times> string) proc"
    and view :: "'s \<Rightarrow> 'v"
  assumes fetch_returns: "fetch cursor s \<noteq> None"
    and fetch_keeps: "keepsP view (fetch cursor)"
begin

lemma paged_keeps: "keepsP view (pagedLoop fetch cursor acc)"
  unfolding keepsP_def
proof (intro allI impI)
  fix s r s'
  assume "pagedLoop fetch cursor acc s = Some (r, s')"
  then show "view s' = view s"
  proof (induction rule: pagedLoop_induct)
    case (more c acc s items "next" s1 r s')
    then show ?case using keepsP_D [OF fetch_keeps more(1)] by simp
  qed (use keepsP_D [OF fetch_keeps] in simp_all)
qed

lemma bounded_returns: "executionsLoop fetch n cursor acc s \<noteq> None"
proof (induction n arbitrary: cursor acc s)
  case (Suc n)
  obtain r s1 where f: "fetch cursor s = Some (r, s1)"
    using fetch_returns [of cursor s] by auto
  with Suc show ?case by (cases r) (auto simp: bindP_def Let_def split: prod.split)
qed simp

lemma bounded_keeps: "keepsP view (executionsLoop fetch n cursor acc)"
proof (induction n arbitrary: cursor acc)
  case (Suc n)
  then show ?case
    by (auto intro!: keepsP_bindP fetch_keeps simp: Let_def split: prod.split)
qed simp

text \<open>A cursor that leads to itself is asked for ever again by the unbounded loop.\<close>

lemma paged_diverges:
  assumes "cursor \<noteq> []" and "\<And>s. \<exists>items s'. fetch cursor s = Some (Inr (items, cursor), s')"
  shows "pagedLoop fetch cursor acc s = None"
proof -
  have "c = cursor \<longrightarrow> False" if "pagedLoop fetch c acc s = Some (r, s')" for c acc s r s'
    using that
  proof (induction rule: pagedLoop_induct)
    case (error c acc s e s')
    with assms(2) [of s] show ?case by auto
  next
    case (last c acc s items s')
    with assms(1) assms(2) [of s] show ?case by auto
  next
    case (more c acc s items "next" s1 r s')
    with assms(2) [of s] show ?case by auto
  qed
  then show ?thesis by (metis not_Some_eq surj_pair)
qed

end

text \<open>The four listings of the client are page sources, and leave the instrument cache alone.\<close>

lemma get_as_returns: "get_as J N f i p q s \<noteq> None"
proof -
  obtain r s' where "api_get N p q s = Some (r, s')" using api_get_total [of N p q s] by blast
  then show ?thesis by (cases r) (auto simp: get_as_def bindP_def)
qed

lemma get_as_keeps [intro, simp]: "keepsP r_instruments (get_as J N f i p q)"
  unfolding get_as_def by (intro keepsP_bindP) auto

lemma post_as_keeps [intro, simp]: "keepsP r_instruments (post_as J N f i p q)"
  unfolding post_as_def by (intro keepsP_bindP) auto

lemma bind_returns: "m s \<noteq> None \<Longrightarrow> (\<And>x t. f x t \<noteq> None) \<Longrightarrow> bindP m f s \<noteq> None"
  by (auto simp: bindP_def split: sum.split option.split)

lemma page_returns: "(\<And>x t. f x t \<noteq> None) \<Longrightarrow> bindP (get_as J N g i p q) f s \<noteq> None"
  by (rule bind_returns [OF get_as_returns])

lemma page_keeps: "(\<And>x. keepsP r_instruments (f x)) \<Longrightarrow> keepsP r_instruments (bindP (get_as J N g i p q) f)"
  by (intro keepsP_bindP) auto

interpretation instruments_source: page_source "instruments_page J N category symbol status" r_instruments
  for J N category symbol status
  by unfold_locales
    (unfold instruments_page_def instrumentsInfo_page_def, rule page_returns, simp, rule page_keeps, simp)

interpretation orders_source: page_source "openOrders_page J N category symbol settleCoin" r_instruments
  for J N category symbol settleCoin
  by unfold_locales (unfold openOrders_page_def, rule page_returns, simp, rule page_keeps, simp)

interpretation positions_source: page_source "positions_page J N category symbol settleCoin" r_instruments
  for J N category symbol settleCoin
  by unfold_locales (unfold positions_page_def, rule page_returns, simp, rule page_keeps, simp)

interpretation executions_source: page_source "executions_page J N category symbol link" r_instruments
  for J N category symbol link
  by unfold_locales (unfold executions_page_def, rule page_returns, simp, rule page_keeps, simp)


section \<open>Executions\<close>

text \<open>
  C12. A fill listing is complete or an exception: \<open>getExecutions\<close> always returns, makes at most
  twenty page requests, and a list it returns is the whole chain of pages, from the first to the
  one that names no further page. It never hands back a part of the fills.
\<close>

theorem getExecutions_complete:
  "\<exists>r s'. getExecutions J N category symbol orderLinkId s = Some (r, s')
     \<and> r_instruments s' = r_instruments s
     \<and> (case r of Inl e \<Rightarrow> True
        | Inr xs \<Rightarrow> \<exists>n. n \<le> 20 \<and>
            listing (executions_page J N category symbol orderLinkId) [] s n xs s')"
proof -
  obtain r s' where run: "getExecutions J N category symbol orderLinkId s = Some (r, s')"
    using executions_source.bounded_returns unfolding getExecutions_def by fastforce
  moreover have "r_instruments s' = r_instruments s"
    using keepsP_D [OF executions_source.bounded_keeps] run unfolding getExecutions_def by blast
  moreover have "case r of Inl e \<Rightarrow> True | Inr xs \<Rightarrow> \<exists>n. n \<le> 20 \<and>
      listing (executions_page J N category symbol orderLinkId) [] s n xs s'"
    using run executionsLoop_listing
    by (fastforce simp: getExecutions_def MAX_PAGES_def split: sum.split)
  ultimately show ?thesis by blast
qed

section \<open>Open orders and positions\<close>

text \<open>
  C29. \<open>getOpenOrders\<close> and \<open>getPositionInfo\<close> return exactly the complete listings: a list is
  returned if and only if the chain of pages ends, and then it is all of it, in order.
\<close>

theorem open_listings_complete:
  "(getOpenOrders J N category symbol settleCoin s = Some (Inr xs, s') \<longleftrightarrow>
     (\<exists>n. listing (openOrders_page J N category symbol settleCoin) [] s n xs s'))
   \<and> (getPositionInfo J N category symbol settleCoin s = Some (Inr ys, s') \<longleftrightarrow>
     (\<exists>n. listing (positions_page J N category symbol settleCoin) [] s n ys s'))"
  by (simp_all add: getOpenOrders_def getPositionInfo_def pagedLoop_complete)

section \<open>The instrument cache\<close>

lemma getInstrumentsInfo_full:
  "getInstrumentsInfo J N category [] True [] s = Some (Inr xs, s') \<longleftrightarrow>
     (\<exists>n t. listing (instruments_page J N category [] []) [] s n xs t \<and> s' = t\<lparr>r_instruments := xs\<rparr>)"
  by (auto simp: getInstrumentsInfo_def bindP_cases allInstruments_def pagedLoop_complete setInstruments_def
      proc_simps)

lemma getInstrumentsInfo_keeps [simp]:
  "symbol \<noteq> [] \<Longrightarrow> keepsP r_instruments (getInstrumentsInfo J N category symbol force [])"
  by (auto simp: getInstrumentsInfo_def allInstruments_def
      intro!: keepsP_bindP instruments_source.paged_keeps)

lemma getInstrumentsInfo_cached:
  "r_instruments s \<noteq> [] \<Longrightarrow> getInstrumentsInfo J N category symbol False [] s = Some (Inr (r_instruments s), s)"
  by (simp add: getInstrumentsInfo_def bindP_def readP_def ret_def)

text \<open>
  C30. What the instrument cache holds. A forced full fetch puts the complete listing into the
  cache; a fetch for one symbol returns its complete listing and leaves the cache alone; and once
  the cache holds anything, an unforced call makes no request at all and answers with the cache,
  whatever category and symbol it is asked for.
\<close>

theorem instrument_cache:
  "(getInstrumentsInfo J N category [] True [] s = Some (Inr xs, s') \<longleftrightarrow>
     (\<exists>n t. listing (instruments_page J N category [] []) [] s n xs t \<and> s' = t\<lparr>r_instruments := xs\<rparr>))
   \<and> (getInstrumentsInfo J N category (c # cs) True [] s = Some (Inr xs, s') \<longleftrightarrow>
     (\<exists>n. listing (instruments_page J N category (c # cs) []) [] s n xs s'))
   \<and> keepsP r_instruments (getInstrumentsInfo J N category (c # cs) force [])
   \<and> getInstrumentsInfo J N category symbol False [] (s\<lparr>r_instruments := i # is\<rparr>)
     = Some (Inr (i # is), s\<lparr>r_instruments := i # is\<rparr>)"
proof (intro conjI)
  show "getInstrumentsInfo J N category (c # cs) True [] s = Some (Inr xs, s') \<longleftrightarrow>
     (\<exists>n. listing (instruments_page J N category (c # cs) []) [] s n xs s')"
    by (auto simp: getInstrumentsInfo_def bindP_cases allInstruments_def pagedLoop_complete)
  show "getInstrumentsInfo J N category symbol False [] (s\<lparr>r_instruments := i # is\<rparr>)
     = Some (Inr (i # is), s\<lparr>r_instruments := i # is\<rparr>)"
    using getInstrumentsInfo_cached [of "s\<lparr>r_instruments := i # is\<rparr>"] by simp
qed (rule getInstrumentsInfo_full, simp)

section \<open>Delisted symbols and the cache\<close>

lemma spotSymbolAttempts_keeps [simp, intro]: "keepsP r_instruments (spotSymbolAttempts N n)"
proof -
  have "spotSymbolAttempts N n s = Some (r, s') \<Longrightarrow> r_instruments s' = r_instruments s" for s r s'
    by (induction N n s rule: spotSymbolAttempts.induct) (auto split: prod.splits sum.splits if_splits)
  then show ?thesis by (simp add: keepsP_def)
qed

text \<open>
  A status-filtered spot request on an empty cache does fill the cache, and with the answer to
  the request's own symbol: after \<open>getInstrumentsInfo(spot, symbol, _, status)\<close> the cache
  holds the listing for that one symbol, the subset that the full-fetch branch takes care never to
  cache.
\<close>

theorem status_fetch_caches_subset:
  "case getInstrumentsInfo J N spot symbol force (c # status) (s\<lparr>r_instruments := []\<rparr>) of
     Some (Inr delisted, s') \<Rightarrow>
       (\<exists>n t. listing (instruments_page J N spot symbol []) [] (s\<lparr>r_instruments := []\<rparr>) n (r_instruments s') t)
   | _ \<Rightarrow> True"
proof -
  have "\<exists>n t. listing (instruments_page J N spot symbol []) [] (s\<lparr>r_instruments := []\<rparr>) n (r_instruments s') t"
    if run: "getInstrumentsInfo J N spot symbol force (c # status) (s\<lparr>r_instruments := []\<rparr>) = Some (Inr d, s')"
    for d s'
  proof -
    obtain xs t u syms where l: "pagedLoop (instruments_page J N spot symbol []) [] [] (s\<lparr>r_instruments := []\<rparr>) = Some (Inr xs, t)"
      and u: "u = t\<lparr>r_instruments := xs\<rparr>" and sp: "spotSymbolAttempts N 3 u = Some (Inr syms, s')"
      using run by (auto simp: getInstrumentsInfo_def bindP_cases allInstruments_def setInstruments_def
          fetchPublicSpotSymbols_def)
    have "r_instruments s' = xs" using keepsP_D [OF spotSymbolAttempts_keeps sp] u by simp
    with l show ?thesis by (auto simp: pagedLoop_complete)
  qed
  then show ?thesis by (auto split: option.split sum.split)
qed

section \<open>Orders are sent with known precision\<close>

lemma rateLimiter_wait_no_post: "rateLimiter_wait (N\<lparr>http_post := g\<rparr>) = rateLimiter_wait N"
proof -
  have "rl_wait (N\<lparr>http_post := g\<rparr>) rl w = rl_wait N rl w" for rl w
    by (simp add: rl_wait_def Let_def cong: if_cong prod.case_cong)
  then show ?thesis by (simp add: rateLimiter_wait_def fun_eq_iff)
qed

lemma session_get_no_post: "session_get (N\<lparr>http_post := g\<rparr>) path ps = session_get N path ps"
  by (simp add: session_get_def fun_eq_iff)

lemma api_get_no_post [simp]: "api_get (N\<lparr>http_post := g\<rparr>) path ps = api_get N path ps"
  by (simp add: api_get_def rateLimiter_wait_no_post session_get_no_post)

lemma allInstruments_no_post [simp]:
  "allInstruments J (N\<lparr>http_post := g\<rparr>) category symbol status = allInstruments J N category symbol status"
proof -
  have "instruments_page J (N\<lparr>http_post := g\<rparr>) category symbol status = instruments_page J N category symbol status"
    by (simp add: instruments_page_def instrumentsInfo_page_def get_as_def fun_eq_iff)
  then show ?thesis by (simp add: allInstruments_def)
qed

lemma getInstrumentsInfo_no_post [simp]:
  "getInstrumentsInfo J (N\<lparr>http_post := g\<rparr>) category symbol force [] = getInstrumentsInfo J N category symbol force []"
  by (simp add: getInstrumentsInfo_def cong: if_cong)

lemma findPrecisions_no_post [simp]:
  "findPricePrecisionsForInstrument J (N\<lparr>http_post := g\<rparr>) category symbol
     = findPricePrecisionsForInstrument J N category symbol"
  by (simp add: findPricePrecisionsForInstrument_def cong: option.case_cong)

lemma find_symbol_Some: "find_symbol symbol xs = Some i \<Longrightarrow> i \<in> set xs \<and> ins_symbol i = symbol"
  by (auto simp: find_symbol_def find_Some_iff)

text \<open>
  An instrument the venue told of: it has the symbol, and was in the answer to the unforced lookup
  \<open>first\<close> or, when that one does not know the symbol, in the answer to the forced fetch of
  the symbol. \<open>s\<close> and \<open>s'\<close> are the states before and after.
\<close>

definition told_instrument ::
  "'j jops \<Rightarrow> ('j, 'w) net \<Rightarrow> Category \<Rightarrow> string \<Rightarrow> string \<Rightarrow> 'w rclient \<Rightarrow> Instrument \<Rightarrow> 'w rclient \<Rightarrow> bool" where
  "told_instrument J N category first symbol s i s' \<longleftrightarrow>
     ins_symbol i = symbol \<and>
     (\<exists>xs s1. getInstrumentsInfo J N category first False [] s = Some (Inr xs, s1) \<and>
        (if symbol \<in> ins_symbol ` set xs then i \<in> set xs \<and> s' = s1
         else \<exists>ys. getInstrumentsInfo J N category symbol True [] s1 = Some (Inr ys, s') \<and> i \<in> set ys))"

lemma find_symbol_None: "find_symbol symbol xs = None \<longleftrightarrow> symbol \<notin> ins_symbol ` set xs"
  by (auto simp: find_symbol_def find_None_iff)

lemma told_first:
  "getInstrumentsInfo J N category first False [] s = Some (Inr xs, s') \<Longrightarrow> find_symbol symbol xs = Some i \<Longrightarrow>
     told_instrument J N category first symbol s i s'"
  using find_symbol_Some [of symbol xs i] by (auto simp: told_instrument_def)

lemma told_second:
  "getInstrumentsInfo J N category first False [] s = Some (Inr xs, s1) \<Longrightarrow> find_symbol symbol xs = None \<Longrightarrow>
     getInstrumentsInfo J N category symbol True [] s1 = Some (Inr ys, s') \<Longrightarrow> find_symbol symbol ys = Some i \<Longrightarrow>
     told_instrument J N category first symbol s i s'"
  using find_symbol_Some [of symbol ys i] by (auto simp: told_instrument_def find_symbol_None)

lemma findPrecisions_Some:
  assumes "findPricePrecisionsForInstrument J N category symbol s = Some (Inr (Some steps), s')"
  shows "\<exists>i. told_instrument J N category [] symbol s i s' \<and> steps = steps_of i"
proof -
  obtain xs s1 where first: "getInstrumentsInfo J N category [] False [] s = Some (Inr xs, s1)"
    using assms by (auto simp: findPricePrecisionsForInstrument_def bindP_cases)
  show ?thesis
  proof (cases "find_symbol symbol xs")
    case None
    with assms first obtain ys i where "getInstrumentsInfo J N category symbol True [] s1 = Some (Inr ys, s')"
      "find_symbol symbol ys = Some i" "steps = steps_of i"
      by (auto simp: findPricePrecisionsForInstrument_def bindP_step bindP_cases)
    with told_second [OF first None] show ?thesis by blast
  next
    case (Some i)
    with assms first have "s' = s1" "steps = steps_of i"
      by (auto simp: findPricePrecisionsForInstrument_def bindP_step)
    with told_first [OF first Some] show ?thesis by blast
  qed
qed

lemma placeOrder_run:
  assumes run: "placeOrder J N order s = Some (r, s')"
  shows "(\<exists>i s1. told_instrument J N (ord_category order) [] (ord_symbol order) s i s1 \<and>
          post_as J N (OrderId_fromJson J) (OrderId_init J) ''/v5/order/create''
            (Order_toJson J (order\<lparr>ord_priceStep := pf_tickSize (ins_priceFilter i),
               ord_qtyStep := ls_qtyStep (ins_lotSizeFilter i)\<rparr>)) s1 = Some (r, s'))
       \<or> (\<exists>e. r = Inl e \<and> (\<forall>g. placeOrder J (N\<lparr>http_post := g\<rparr>) order s = Some (r, s')))"
proof (cases "findPricePrecisionsForInstrument J N (ord_category order) (ord_symbol order) s")
  case None
  with run show ?thesis by (simp add: placeOrder_def bindP_step)
next
  case (Some q)
  note find = this
  obtain x s1 where q: "q = (x, s1)" by fastforce
  show ?thesis
  proof (cases "\<exists>st. x = Inr (Some st)")
    case False
    then consider e where "x = Inl e" | "x = Inr None" by (metis not_Some_eq sumE)
    then show ?thesis
      using find q run by cases (auto simp: placeOrder_def bindP_step)
  next
    case True
    then obtain st where x: "x = Inr (Some st)" by blast
    with find q findPrecisions_Some
    obtain i where i: "told_instrument J N (ord_category order) [] (ord_symbol order) s i s1" "st = steps_of i" by blast
    have "post_as J N (OrderId_fromJson J) (OrderId_init J) ''/v5/order/create''
        (Order_toJson J (order\<lparr>ord_priceStep := pf_tickSize (ins_priceFilter i),
           ord_qtyStep := ls_qtyStep (ins_lotSizeFilter i)\<rparr>)) s1 = Some (r, s')"
      using run find q x i(2) by (simp add: placeOrder_def bindP_step steps_of_def)
    with i(1) show ?thesis by blast
  qed
qed

text \<open>
  C13. An order is never sent with a guessed precision. Either \<open>placeOrder\<close> posts the order
  with the price and quantity steps of an instrument of exactly that symbol that the cache or the
  venue has just told, or it ends with an
  exception before anything is posted: the run is then the same whatever the answer to a post
  would be.
\<close>

theorem placeOrder_never_guesses:
  "case placeOrder J N order s of
     None \<Rightarrow> True
   | Some (r, s') \<Rightarrow>
       (\<exists>i s1. told_instrument J N (ord_category order) [] (ord_symbol order) s i s1 \<and>
          post_as J N (OrderId_fromJson J) (OrderId_init J) ''/v5/order/create''
            (Order_toJson J (order\<lparr>ord_priceStep := pf_tickSize (ins_priceFilter i),
               ord_qtyStep := ls_qtyStep (ins_lotSizeFilter i)\<rparr>)) s1 = Some (r, s'))
       \<or> (\<exists>e. r = Inl e \<and> (\<forall>g. placeOrder J (N\<lparr>http_post := g\<rparr>) order s = Some (r, s')))"
  by (auto split: option.split dest: placeOrder_run)

end
