(* ===== verification/Ws_Public_Spec.thy ===== *)
theory Ws_Public_Spec
  imports Ws_Public Mini_Json
begin

text \<open>
  What the public stream manager guarantees: a quote that is read is fresh, a read ends, and what
  a stream message does to the caches.
\<close>

section \<open>Reading a quote\<close>

lemma getTickers_returns: "getTickers J N category symbol s \<noteq> None"
proof -
  obtain r s' where "api_get N ''/v5/market/tickers'' (insert_or_assign ''symbol'' symbol (category_params category)) s = Some (r, s')"
    using api_get_total by blast
  then show ?thesis by (cases r) (auto simp: getTickers_def get_as_def bindP_def)
qed

lemma refresh_result:
  "\<exists>r s'. refreshTickerFromREST J N during symbol s = Some (Inr r, s') \<and>
     (case r of None \<Rightarrow> True
      | Some t \<Rightarrow> pub_tickers s' symbol = Some t \<and> et_symbol t = symbol \<and> et_receivedTimestamp t = pub_now s' \<and>
          0 < et_ask1Price t \<and> 0 < et_bid1Price t)"
proof (cases "pub_rest s")
  case None
  then show ?thesis by (simp add: refreshTickerFromREST_def)
next
  case (Some client)
  obtain r client' where g: "getTickers J N linear symbol client = Some (r, client')"
    using getTickers_returns by fastforce
  show ?thesis
  proof (cases r)
    case (Inl e)
    with Some g show ?thesis by (simp add: refreshTickerFromREST_def Let_def)
  next
    case (Inr response)
    with Some g show ?thesis
      by (cases "tks_tickers response") (simp_all add: refreshTickerFromREST_def ticker_of_snapshot_def Let_def)
  qed
qed

lemma pollTicker_result:
  assumes run: "pollTicker io k symbol deadline s = Some (r, s')"
  shows "case r of Inl e \<Rightarrow> False
      | Inr (Some (Some t)) \<Rightarrow> pub_tickers s' symbol = Some t \<and> \<not> isStale s' t
      | Inr _ \<Rightarrow> True"
proof -
  let ?P = "\<lambda>f k sy d s y. f = io \<and> sy = symbol \<longrightarrow> (case fst y of Inl e \<Rightarrow> False
      | Inr (Some (Some t)) \<Rightarrow> pub_tickers (snd y) symbol = Some t \<and> \<not> isStale (snd y) t | Inr _ \<Rightarrow> True)"
  have "?P io k symbol deadline s (r, s')"
    by (rule pollTicker.raw_induct [OF _ run, where P = ?P]) (fastforce split: if_splits option.splits)
  then show ?thesis unfolding fst_conv snd_conv by blast
qed

text \<open>
  A quote that \<open>readEventTicker\<close> hands out is the cached one of the symbol, whatever the
  case of the query, and is not stale when it is handed out, unless it is a REST snapshot taken
  right then, with both sides quoted. The call does not throw.
\<close>

lemma quote_read_is_fresh:
  "case readEventTicker J N io pair s of
     None \<Rightarrow> True
   | Some (Inl e, s') \<Rightarrow> False
   | Some (Inr None, s') \<Rightarrow> True
   | Some (Inr (Some t), s') \<Rightarrow>
       pub_tickers s' (toUpper pair) = Some t \<and>
       (if isStale s' t then
          et_symbol t = toUpper pair \<and> et_receivedTimestamp t = pub_now s' \<and> 0 < et_ask1Price t \<and> 0 < et_bid1Price t
        else True)"
proof (cases "pollTicker io 1 (toUpper pair) (pub_now s + pub_timeout s * 1000) s")
  case None
  then show ?thesis by (simp add: readEventTicker_def bindP_step normalizeSymbol_def)
next
  case (Some q)
  obtain r s1 where q: "q = (r, s1)" by fastforce
  note poll = pollTicker_result [OF Some [unfolded q]]
  obtain found where r: "r = Inr found" using poll by (cases r) auto
  show ?thesis
  proof (cases found)
    case None
    obtain x s' where "refreshTickerFromREST J N (io 0) (toUpper pair) s1 = Some (Inr x, s')"
      "case x of None \<Rightarrow> True | Some t \<Rightarrow> pub_tickers s' (toUpper pair) = Some t \<and> et_symbol t = toUpper pair \<and>
         et_receivedTimestamp t = pub_now s' \<and> 0 < et_ask1Price t \<and> 0 < et_bid1Price t"
      using refresh_result by blast
    with Some q r None show ?thesis
      by (cases x) (simp_all add: readEventTicker_def bindP_step normalizeSymbol_def)
  next
    case hit: (Some x)
    with Some q r poll show ?thesis
      by (cases x) (simp_all add: readEventTicker_def bindP_step normalizeSymbol_def)
  qed
qed

lemma pollTicker_returns:
  assumes "\<And>k s. pub_now s < pub_now (io k s)"
  shows "pollTicker io k symbol deadline s \<noteq> None"
proof (induction "nat (deadline - pub_now s)" arbitrary: k s rule: less_induct)
  case less
  show ?case
  proof (cases "pub_now s < deadline")
    case True
    then have "nat (deadline - pub_now (io k s)) < nat (deadline - pub_now s)" using assms [of s k] by simp
    from less [OF this] show ?thesis by (subst pollTicker.simps) (auto split: option.split)
  qed (subst pollTicker.simps, auto split: option.split)
qed

text \<open>
  C33. Reading a quote ends: when time passes while the reader sleeps, \<open>readEventTicker\<close>
  returns, whatever the stream delivers meanwhile and whether or not REST answers.
\<close>

theorem quote_read_returns:
  assumes "\<And>k s. pub_now s < pub_now (io k s)"
  shows "\<exists>r s'. readEventTicker J N io pair s = Some (Inr r, s')"
proof -
  obtain q where q: "pollTicker io 1 (toUpper pair) (pub_now s + pub_timeout s * 1000) s = Some q"
    using pollTicker_returns [of io, OF assms] by blast
  obtain r s1 where rs: "q = (r, s1)" by fastforce
  obtain found where r: "r = Inr found" using pollTicker_result [OF q [unfolded rs]] by (cases r) auto
  obtain x s' where "refreshTickerFromREST J N (io 0) (toUpper pair) s1 = Some (Inr x, s')" using refresh_result by blast
  with q rs r show ?thesis
    by (cases found) (simp_all add: readEventTicker_def bindP_step normalizeSymbol_def)
qed

text \<open>A venue that cannot be reached.\<close>

definition offline :: "(json, int) net" where
  "offline = \<lparr>
     http_get = (\<lambda>_ _ w. (Inl (TransportError []), w)), http_post = (\<lambda>_ _ w. (Inl (TransportError []), w)),
     public_get = (\<lambda>_ w. (Inl (TransportError []), w)), public_renew = (\<lambda>w. w),
     clock = (\<lambda>w. (w, w)), sleep_ms = (\<lambda>d w. w + d)\<rparr>"

lemma quote_read_returns_witness:
  "\<exists>r s'. readEventTicker (mini (\<lambda>_. None)) offline (\<lambda>k s. s\<lparr>pub_now := pub_now s + 3\<rparr>) ''btcusdt'' (public_init Mainnet) = Some (Inr r, s')"
  by (rule quote_read_returns) simp

text \<open>
  The snapshot replaces whatever the stream stored while the request was out, and is stamped as the
  newer of the two: the age limit cannot tell.
\<close>

theorem snapshot_overwrites_stream:
  assumes "pub_rest s = Some client" and "getTickers J N linear symbol client = Some (Inr response, client')"
    and "tks_tickers response = snap # rest" and "0 < tk_ask1Price snap" and "0 < tk_bid1Price snap"
  shows "let s1 = during (s\<lparr>pub_rest := Some client'\<rparr>);
      t = ticker_of_snapshot symbol (pub_now s1) snap in
    refreshTickerFromREST J N during symbol s =
      Some (Inr (Some t), s1\<lparr>pub_tickers := (pub_tickers s1)(symbol \<mapsto> t)\<rparr>) \<and>
    et_ask1Price t = tk_ask1Price snap \<and> et_bid1Price t = tk_bid1Price snap \<and>
    (case pub_tickers s1 symbol of None \<Rightarrow> True
     | Some streamed \<Rightarrow> if et_receivedTimestamp streamed \<le> pub_now s1
         then et_receivedTimestamp streamed \<le> et_receivedTimestamp t else True)"
  using assms by (simp add: refreshTickerFromREST_def ticker_of_snapshot_def Let_def split: option.split)

section \<open>Stream messages\<close>

lemma runStepsOn_keeps:
  "(\<And>f r r'. f \<in> set fs \<Longrightarrow> f r = Inr r' \<Longrightarrow> p r' = p r) \<Longrightarrow> p (fst (runStepsOn fs r)) = p r"
proof (induction fs arbitrary: r)
  case (Cons f fs)
  show ?case
  proof (cases "f r")
    case (Inr r')
    have "p (fst (runStepsOn fs r')) = p r'" using Cons.prems by (intro Cons.IH) auto
    also have "p r' = p r" using Cons.prems [of f] Inr by simp
    finally show ?thesis using Inr by simp
  qed simp
qed simp

lemma loadEventData_on_time: "et_receivedTimestamp (fst (loadEventData_on J event t)) = et_receivedTimestamp t"
proof -
  have "et_receivedTimestamp (fst (runStepsOn (EventTicker_steps J j) t)) = et_receivedTimestamp t" for j
    by (rule runStepsOn_keeps) (auto simp: EventTicker_steps_def rdV_Inr rdR_Inr)
  then show ?thesis by (simp add: loadEventData_on_def split: ResponseType.split)
qed

text \<open>Throwing or not, the parse is the one of the data model.\<close>

lemma runStepsOn_runSteps:
  "runSteps fs r = (case runStepsOn fs r of (r', None) \<Rightarrow> Inr r' | (_, Some e) \<Rightarrow> Inl e)"
  by (induction fs arbitrary: r) (auto simp: bindR_def split: sum.split)

text \<open>
  C35. A ticker message touches the entry of its own symbol only. One that parses stamps the entry
  with the time and the symbol and hands exactly that entry to the callback; one that does not
  parse is never handed on and never refreshes the time of the entry, so a stream of bad messages
  lets its quote go stale.
\<close>

theorem ticker_message:
  "let symbol = toUpper (readSymbolFromFilter split (ev_topic event));
       entry = (case pub_tickers s symbol of None \<Rightarrow> EventTicker_init | Some t \<Rightarrow> t) in
   case onTickerEvent J split event s of (thrown, s') \<Rightarrow>
     pub_tickers s' = (pub_tickers s)(symbol := pub_tickers s' symbol) \<and>
     (case EventTicker_fromJson J (ev_data event) entry of
        Inl e \<Rightarrow> thrown = None \<and>
          map_option et_receivedTimestamp (pub_tickers s' symbol) = map_option et_receivedTimestamp (pub_tickers s symbol)
      | Inr t \<Rightarrow>
          let t' = t\<lparr>et_symbol := symbol, et_receivedTimestamp := pub_now s\<rparr> in
          pub_tickers s' symbol = Some t' \<and>
          thrown = (case pub_tickerUpdateCB s of None \<Rightarrow> None | Some cb \<Rightarrow> cb t'))"
proof -
  define symbol where "symbol = toUpper (readSymbolFromFilter split (ev_topic event))"
  define entry where "entry = (case pub_tickers s symbol of None \<Rightarrow> EventTicker_init | Some t \<Rightarrow> t)"
  obtain t x where l: "loadEventData_on J event entry = (t, x)" by fastforce
  have time: "et_receivedTimestamp t = et_receivedTimestamp entry"
    using loadEventData_on_time [of J event entry] l by simp
  have parse: "EventTicker_fromJson J (ev_data event) entry = (case x of None \<Rightarrow> Inr t | Some e \<Rightarrow> Inl e)"
    using l by (simp add: EventTicker_fromJson_def runStepsOn_runSteps loadEventData_on_def
        split: ResponseType.splits option.split)
  show ?thesis
    unfolding Let_def symbol_def [symmetric] entry_def [symmetric] parse
    using l time
    by (cases "pub_tickers s symbol"; cases x)
      (simp_all add: onTickerEvent_def Let_def normalizeSymbol_def symbol_def [symmetric] entry_def log_pub_def fun_eq_iff)
qed

text \<open>
  A candlestick message has no defined behaviour exactly when its candle parses but its
  interval is none of the known names: the empty result of the enum cast is dereferenced. A missing
  interval is enough.
\<close>

theorem kline_undefined_iff:
  "(onKlineEvent J split event s = None \<longleftrightarrow>
     (\<exists>j candle. j_idx J (ev_data event) 0 = Inr j \<and>
        EventCandlestick_fromJson J j EventCandlestick_init = Inr candle \<and>
        ec_interval candle \<notin> CandleInterval_name ` set all_intervals))
   \<and> onKlineEvent (mini (\<lambda>_. None)) split \<lparr>ev_topic = ''kline.1.BTCUSDT'', ev_type = snapshot, ev_ts = 0,
       ev_data = JArr [JObj [(''open'', JStr ''1'')]]\<rparr> s' = None"
proof
  have cast: "CandleInterval_cast name = None \<longleftrightarrow> name \<notin> CandleInterval_name ` set all_intervals" for name
    by (auto simp: CandleInterval_cast_def find_None_iff)
  then show iff: "onKlineEvent J split event s = None \<longleftrightarrow>
     (\<exists>j candle. j_idx J (ev_data event) 0 = Inr j \<and>
        EventCandlestick_fromJson J j EventCandlestick_init = Inr candle \<and>
        ec_interval candle \<notin> CandleInterval_name ` set all_intervals)"
    by (cases "bindR (j_idx J (ev_data event) 0) (\<lambda>j. EventCandlestick_fromJson J j EventCandlestick_init)")
      (auto simp: onKlineEvent_def Let_def bindR_eq_Inr bindR_eq_Inl)
  show "onKlineEvent (mini (\<lambda>_. None)) split \<lparr>ev_topic = ''kline.1.BTCUSDT'', ev_type = snapshot, ev_ts = 0,
       ev_data = JArr [JObj [(''open'', JStr ''1'')]]\<rparr> s' = None"
    by (simp add: onKlineEvent_def mini_def EventCandlestick_fromJson_def EventCandlestick_init_def rdV_def rdR_def
        mini_read_def mini_num_read_def CandleInterval_cast_def all_intervals_def bindR_def split: option.split)
qed

end
