(* ===== verification/Gateway_Spec.thy ===== *)
theory Gateway_Spec
  imports Gateway Rest_Spec Ws_Public_Spec
begin

text \<open>
  What the execution gateway guarantees: how error texts are read back, which failures stay
  unknown, that nothing is submitted without a live event stream, that an order reported gone has
  its fills accounted for, and which events reach the callbacks.
\<close>

section \<open>Reading back the texts of the REST client\<close>

lemma str_find_skip: "\<not> starts_with pat (c # cs) \<Longrightarrow> str_find pat (c # cs) = map_option Suc (str_find pat cs)"
  by simp

lemma api_error_find: "str_find ''code: '' (api_error_text code msg) = Some 17"
proof -
  have "str_find ''code: '' (''code: '' @ int_to_string code @ '', msg: '' @ msg) = Some 0"
    by (rule str_find_prefix)
  then show ?thesis by (simp add: api_error_text_def)
qed

lemma extractRetCode_api:
  assumes "INT64_MIN \<le> code" and "code \<le> INT64_MAX"
  shows "extractRetCode (api_error_text code msg) = Some code"
proof -
  have "drop 23 (api_error_text code msg) = int_to_string code @ '', msg: '' @ msg"
    by (simp add: api_error_text_def)
  moreover have "no_digit_first ('', msg: '' @ msg)"
    by (simp add: no_digit_first_def is_digit_def)
  ultimately show ?thesis
    using assms strtol_int_to_string [of "'', msg: '' @ msg" code] by (simp add: extractRetCode_def api_error_find)
qed

text \<open>
  C28. The texts of the REST client's errors are read back: from the text that
  \<open>handleBybitResponse\<close> makes of a 64-bit code the gateway extracts exactly that code,
  whatever the message, and a code it lists settles the kind of the reject (or that the order is
  gone) on its own.
\<close>

theorem ret_code_read_back:
  "(if INT64_MIN \<le> code \<and> code \<le> INT64_MAX
    then extractRetCode (api_error_text code msg) = Some code \<and>
      (case classify_code code of None \<Rightarrow> True | Some k \<Rightarrow> classifyRejectReason (api_error_text code msg) = k) \<and>
      (if gone_code code then isOrderGoneReason (api_error_text code msg) else True)
    else True)"
  by (simp add: classifyRejectReason_def isOrderGoneReason_def extractRetCode_api split: option.split)

section \<open>Calls of the REST client\<close>

lemma rest_call_Some:
  "rest_call m g = Some (r, g') \<longleftrightarrow> (\<exists>t. m (gw_rest g) = Some (r, t) \<and> g' = g\<lparr>gw_rest := t\<rparr>)"
  by (auto simp: rest_call_def zoomP_def split: option.splits)

lemma rest_call_None: "rest_call m g = None \<longleftrightarrow> m (gw_rest g) = None"
  by (auto simp: rest_call_def zoomP_def split: option.splits)

lemma rest_call_keeps [intro, simp]:
  "keepsP gw_fills (rest_call m)" "keepsP gw_fillCB (rest_call m)" "keepsP gw_private (rest_call m)"
  "keepsP gw_specCache (rest_call m)"
  by (auto simp: keepsP_def rest_call_Some)

section \<open>Unknown outcomes\<close>

lemma ambiguous_code:
  assumes "toLower (int_to_string code) = int_to_string code"
    and "''code: '' @ int_to_string code \<in> {''code: 10000'', ''code: 10016''}"
  shows "isAmbiguousOutcomeReason (api_error_text code msg)"
proof -
  have "contains_str (''code: '' @ int_to_string code) (toLower (api_error_text code msg))"
  proof -
    have "toLower (api_error_text code msg) = ''bybit api error, '' @ (''code: '' @ int_to_string code) @ toLower ('', msg: '' @ msg)"
      unfolding api_error_text_def toLower_append assms(1) by (simp add: toLower_def char_lower_def char_of_def bit_0)
    then show ?thesis by (simp only: contains_str_append)
  qed
  with assms(2) show ?thesis by (auto simp: isAmbiguousOutcomeReason_def contains_any_def)
qed

lemma int_to_string_codes:
  "int_to_string 10000 = ''10000''" "int_to_string 10016 = ''10016''"
  by (simp_all add: int_to_string_def nat_to_string.simps digit_char_def char_of_def bit_0)

lemma nat_to_string_5xx:
  assumes "500 \<le> n" "n < 600"
  shows "\<exists>ds. nat_to_string n = CHR ''5'' # ds"
proof -
  have "n div 100 = 5" using assms by auto
  then have d: "n div 10 div 10 = 5" by (simp add: div_mult2_eq [symmetric])
  have "nat_to_string n = nat_to_string (n div 10) @ [digit_char (n mod 10)]"
    using assms by (subst nat_to_string.simps) simp
  also have "nat_to_string (n div 10) = nat_to_string 5 @ [digit_char (n div 10 mod 10)]"
    using assms d by (subst nat_to_string.simps) simp
  finally show ?thesis by (simp add: nat_to_string.simps [of 5] digit_char_def char_of_def bit_0)
qed

lemma ambiguous_5xx:
  assumes "500 \<le> resp_status r" "resp_status r < 600"
  shows "isAmbiguousOutcomeReason (bad_response_text r)"
proof -
  obtain ds where ds: "nat_to_string (resp_status r) = CHR ''5'' # ds"
    using nat_to_string_5xx [OF assms] by blast
  have "toLower (bad_response_text r) = [] @ ''bad response, code 5'' @ toLower (ds @ '', msg: '' @ resp_body r)"
    unfolding bad_response_text_def ds by (simp add: toLower_def char_lower_def char_of_def bit_0)
  then have "contains_str ''bad response, code 5'' (toLower (bad_response_text r))"
    by (simp only: contains_str_append)
  then show ?thesis by (simp add: isAmbiguousOutcomeReason_def contains_any_def)
qed

text \<open>
  The failures after which the venue may or may not have acted, as the REST client throws them: a
  transport error, the codes of \<open>isExecutionUnknownCode\<close>, and every status from 500 on.
\<close>

definition open_outcome :: "exn \<Rightarrow> bool" where
  "open_outcome e \<longleftrightarrow> (\<exists>m. e = TransportError m) \<or>
     (\<exists>code m. isExecutionUnknownCode code \<and> e = ExecutionUnknown (api_error_text code m)) \<or>
     (\<exists>r. 500 \<le> resp_status r \<and> e = ExecutionUnknown (bad_response_text r))"

text \<open>Those that the gateway does not know by their text, whatever else is in it.\<close>

definition unlisted_outcome :: "exn \<Rightarrow> bool" where
  "unlisted_outcome e \<longleftrightarrow> (\<exists>m. e = ExecutionUnknown (api_error_text 170007 m)) \<or>
     (\<exists>r. 600 \<le> resp_status r \<and> e = ExecutionUnknown (bad_response_text r))"

definition passed_on :: "exn \<Rightarrow> bool" where
  "passed_on e \<longleftrightarrow> (\<exists>m. e = TransportError m) \<or> isAmbiguousOutcomeReason (what e)"

lemma outcome_of_eq:
  "outcome_of e = (if passed_on e then e else GatewayError (classifyRejectReason (what e)) (what e))"
  by (auto simp: outcome_of_def passed_on_def split: exn.split)

lemma open_outcome_passes:
  assumes "open_outcome e"
  shows "passed_on e \<or> unlisted_outcome e"
proof -
  from assms consider (transport) m where "e = TransportError m"
    | (code) code m where "code = 10000 \<or> code = 10016" "e = ExecutionUnknown (api_error_text code m)"
    | (backend) m where "e = ExecutionUnknown (api_error_text 170007 m)"
    | (status) r where "500 \<le> resp_status r" "e = ExecutionUnknown (bad_response_text r)"
    unfolding open_outcome_def isExecutionUnknownCode_def by metis
  then show ?thesis
  proof cases
    case code
    have "isAmbiguousOutcomeReason (api_error_text code m)"
      using code(1) by (intro ambiguous_code) (auto simp: int_to_string_codes toLower_def char_lower_def char_of_def bit_0)
    then show ?thesis by (simp add: code(2) passed_on_def)
  next
    case status
    show ?thesis
    proof (cases "resp_status r < 600")
      case True
      then show ?thesis using ambiguous_5xx [OF status(1)] by (simp add: status(2) passed_on_def)
    next
      case False
      then have "600 \<le> resp_status r" by simp
      then show ?thesis unfolding unlisted_outcome_def status(2) by blast
    qed
  qed (unfold passed_on_def unlisted_outcome_def, blast+)
qed

text \<open>
  C2. What becomes of a failure that leaves the outcome open, when the REST client throws it while it
  places, amends or cancels an order: a transport error, a code of its unknown-outcome set, or a
  status from 500 on. A live submit, an amend, a reduce-only market order, and a cancel
  (unless the text says that the order is gone) throw that very exception whenever the gateway
  knows it by type or text, and this fails only for code 170007 and for a status of 600 or more;
  those become a reject, of the kind that their text has. No other state changes.
\<close>

theorem unknown_outcome_propagates:
  "if open_outcome e then
     (passed_on e \<or> unlisted_outcome e) \<and>
     (let told = (if passed_on e then e else GatewayError (classifyRejectReason (what e)) (what e)) in
     (if fst (isLive (gw_private g)) \<and>
         placeOrder J N (post_only_order (gw_positionIdx g) cid symbol side qty price reduceOnly) (gw_rest g) = Some (Inl e, t)
      then submitPostOnlyLimit J N cid symbol side qty price reduceOnly g
        = Some (Inl told, g\<lparr>gw_private := snd (isLive (gw_private g)), gw_rest := t\<rparr>) else True) \<and>
     (if fst (isLive (gw_private g)) \<and> amendOrder J N linear symbol [] cid price 0 (gw_rest g) = Some (Inl e, t)
      then amendPrice J N cid symbol price g
        = Some (Inl told, g\<lparr>gw_private := snd (isLive (gw_private g)), gw_rest := t\<rparr>) else True) \<and>
     (if placeOrder J N (reduce_only_order (gw_positionIdx g) cid symbol side qty) (gw_rest g) = Some (Inl e, t)
      then submitReduceOnlyMarket J N cid symbol side qty g = Some (Inl told, g\<lparr>gw_rest := t\<rparr>) else True) \<and>
     (if cancelOrder J N linear symbol [] cid (gw_rest g) = Some (Inl e, t)
      then (if isOrderGoneReason (what e) \<and> (\<forall>m. e \<noteq> TransportError m) then True
        else cancel J N F cid symbol g = Some (Inl told, g\<lparr>gw_rest := t\<rparr>)) else True))
   else True"
proof (cases "open_outcome e")
  case True
  have call: "rest_call m u = Some (Inl e, u\<lparr>gw_rest := t\<rparr>)" if "m (gw_rest u) = Some (Inl e, t)" for m and u :: "('a, 'b) gateway"
    using that by (simp add: rest_call_Some)
  have gate: "requireEventStream opn g = Some (Inr (), g\<lparr>gw_private := snd (isLive (gw_private g))\<rparr>)"
    if "fst (isLive (gw_private g))" for opn using that by (simp add: requireEventStream_def split_beta)
  have at_cancel: "if cancelOrder J N linear symbol [] cid (gw_rest g) = Some (Inl e, t)
      then (if isOrderGoneReason (what e) \<and> (\<forall>m. e \<noteq> TransportError m) then True
        else cancel J N F cid symbol g = Some (Inl (outcome_of e), g\<lparr>gw_rest := t\<rparr>)) else True"
    by (cases e) (simp_all add: cancel_def bindP_step catchP_step call outcome_of_def)
  show ?thesis
    using True open_outcome_passes [OF True] at_cancel
    by (simp only: Let_def outcome_of_eq [symmetric] if_True)
      (simp add: submitPostOnlyLimit_def amendPrice_def submitReduceOnlyMarket_def bindP_step catchP_step gate call)
qed simp

text \<open>
  The third code of the REST client's unknown-outcome set is not in the gateway's: an order
  that fails with 170007 (a timeout waiting for the backend) comes back as a definitive reject.
\<close>

theorem backend_timeout_becomes_reject:
  "isExecutionUnknownCode 170007 \<and>
   is_gateway_error (outcome_of (ExecutionUnknown (api_error_text 170007 ''Timeout'')))"
proof -
  have wording: "api_error_text 170007 ''Timeout'' =
    ''Bybit API error, code: 170007, msg: Timeout''"
    by (simp add: api_error_text_def int_to_string_def nat_to_string.simps digit_char_def char_of_def bit_0)
  have "\<not> isAmbiguousOutcomeReason (api_error_text 170007 ''Timeout'')"
    unfolding wording by code_simp
  then show ?thesis by (simp add: outcome_of_def isExecutionUnknownCode_def)
qed

section \<open>The health gate\<close>

text \<open>
  Exposure is created only with a live event stream. While the private stream is not live,
  \<open>submitPostOnlyLimit\<close> and \<open>amendPrice\<close> end with a \<open>Throttled\<close> gateway
  error and leave the REST client exactly as it was: no request is made. A reduce-only market
  order and a cancel are not gated: they do not depend on the private stream at all.
\<close>

theorem not_live_submits_nothing:
  "(if fst (isLive (gw_private g)) then True
    else submitPostOnlyLimit J N cid symbol side qty price reduceOnly g
           = Some (Inl (GatewayError Throttled (gated_text ''submit'')), g\<lparr>gw_private := snd (isLive (gw_private g))\<rparr>)
       \<and> amendPrice J N cid symbol price g
           = Some (Inl (GatewayError Throttled (gated_text ''amend'')), g\<lparr>gw_private := snd (isLive (gw_private g))\<rparr>))"
  by (auto simp: submitPostOnlyLimit_def amendPrice_def requireEventStream_def bindP_def split_beta)

section \<open>Starting\<close>

lemma awaitLive_Inr:
  "awaitLive io n g = Some (Inr (), g') \<Longrightarrow>
     (\<exists>m. fst (isLive m) \<and> gw_private g' = snd (isLive m)) \<and> gw_rest g' = gw_rest g"
proof (induction n arbitrary: g)
  case (Suc n)
  obtain live m where l: "isLive (gw_private g) = (live, m)" by fastforce
  show ?case
  proof (cases live)
    case True
    with Suc.prems l show ?thesis by (auto intro!: exI [of _ "gw_private g"])
  next
    case False
    with Suc.prems l have "awaitLive io n (g\<lparr>gw_private := io n m\<rparr>) = Some (Inr (), g')" by simp
    from Suc.IH [OF this] show ?thesis by simp
  qed
qed simp

text \<open>
  C19. When \<open>start\<close> returns, its last poll found the private stream live, and the instrument
  cache holds the complete linear universe; otherwise it ends with an exception.
\<close>

theorem start_means_live:
  "case start J N io g of
     Some (Inr _, g') \<Rightarrow>
       (\<exists>m. fst (isLive m) \<and> gw_private g' = snd (isLive m)) \<and>
       (\<exists>n t. listing (instruments_page J N linear [] []) [] (gw_rest g) n (r_instruments (gw_rest g')) t)
   | _ \<Rightarrow> True"
proof -
  have "(\<exists>m. fst (isLive m) \<and> gw_private g' = snd (isLive m)) \<and>
       (\<exists>n t. listing (instruments_page J N linear [] []) [] (gw_rest g) n (r_instruments (gw_rest g')) t)"
    if run: "start J N io g = Some (Inr u, g')" for u g'
  proof -
    obtain xs t where fetch: "getInstrumentsInfo J N linear [] True [] (gw_rest g) = Some (Inr xs, t)"
      and wait: "awaitLive io 100 (g\<lparr>gw_rest := t, gw_private := connect (gw_private g)\<rparr>) = Some (Inr (), g')"
      using run by (auto simp: start_def bindP_cases rest_call_Some)
    from fetch obtain n t0 where "listing (instruments_page J N linear [] []) [] (gw_rest g) n xs t0"
      "t = t0\<lparr>r_instruments := xs\<rparr>" by (auto simp: getInstrumentsInfo_full)
    with awaitLive_Inr [OF wait] show ?thesis by auto
  qed
  then show ?thesis by (auto split: option.split sum.split)
qed

section \<open>An order that is gone has its fills accounted for\<close>

lemma reemit_fills:
  "reemit cb cid symbol xs g = Some (Inr (), g') \<Longrightarrow>
     gw_fills g' = gw_fills g @ map (fill_of cid symbol) (filter genuine xs) \<and> gw_rest g' = gw_rest g"
  unfolding reemit_def
proof (induction xs arbitrary: g)
  case (Cons x xs)
  show ?case
  proof (cases "genuine x")
    case True
    with Cons.prems have "forEach (\<lambda>x. if \<not> genuine x then ret () else emit_fill cb (fill_of cid symbol x)) xs
        (g\<lparr>gw_fills := gw_fills g @ [fill_of cid symbol x]\<rparr>) = Some (Inr (), g')"
      by (auto simp: bindP_cases emit_fill_def split: option.splits)
    from Cons.IH [OF this] True show ?thesis by simp
  next
    case False
    with Cons show ?thesis by (simp add: bindP_def)
  qed
qed simp

text \<open>
  The fills of an order as the venue tells them: the complete execution list, then the order's last
  state, which must not report more than the list accounts for.
\<close>

definition fills_known ::
  "'j jops \<Rightarrow> ('j, 'w) net \<Rightarrow> string \<Rightarrow> string \<Rightarrow> 'w rclient \<Rightarrow> EventExecution list \<Rightarrow> 'w rclient \<Rightarrow> bool" where
  "fills_known J N cid symbol s xs s' \<longleftrightarrow>
     (\<exists>n s1 final. n \<le> 20 \<and> listing (executions_page J N linear symbol cid) [] s n xs s1 \<and>
        getOrderHistory J N linear symbol [] cid s1 = Some (Inr final, s') \<and>
        \<not> short_of final (listed_qty xs))"

lemma read_back_known:
  assumes "read_back J N cid symbol s = Some (Inr (xs, final), s')" and "\<not> short_of final (listed_qty xs)"
  shows "fills_known J N cid symbol s xs s'"
proof -
  obtain s1 where x: "getExecutions J N linear symbol cid s = Some (Inr xs, s1)"
    and h: "getOrderHistory J N linear symbol [] cid s1 = Some (Inr final, s')"
    using assms(1) by (auto simp: read_back_def bindP_cases)
  from x have "\<exists>n. n \<le> 20 \<and> listing (executions_page J N linear symbol cid) [] s n xs s1"
    using executionsLoop_listing by (fastforce simp: getExecutions_def MAX_PAGES_def)
  with h assms(2) show ?thesis unfolding fills_known_def by blast
qed

lemma reconcile_known:
  assumes "reconcileMissedFills J N F cid symbol g = Some (Inr (), g')"
  shows "if gw_fillCB g = None then g' = g
    else \<exists>xs. fills_known J N cid symbol (gw_rest g) xs (gw_rest g') \<and>
      gw_fills g' = gw_fills g @ map (fill_of cid symbol) (filter genuine xs)"
proof (cases "gw_fillCB g")
  case (Some cb)
  with assms obtain xs final g1 where
    r: "catchP (rest_call (read_back J N cid symbol))
         (\<lambda>e. throwP (ExecutionUnknown (unread_text symbol cid (what e)))) g = Some (Inr (xs, final), g1)"
    and ns: "\<not> short_of final (listed_qty xs)" and e: "reemit cb cid symbol xs g1 = Some (Inr (), g')"
    by (auto simp: reconcileMissedFills_def bindP_cases Let_def split: if_splits)
  from r obtain t where t: "read_back J N cid symbol (gw_rest g) = Some (Inr (xs, final), t)" "g1 = g\<lparr>gw_rest := t\<rparr>"
    by (auto simp: catchP_cases rest_call_Some)
  from read_back_known [OF t(1) ns] reemit_fills [OF e] t(2) Some show ?thesis by auto
qed (use assms in \<open>simp add: reconcileMissedFills_def bindP_def\<close>)

text \<open>
  C1. \<open>cancel\<close> says that an order is gone only once its fills are accounted for: with a fill
  callback installed, the venue's answer to the cancel said so, the complete execution list was then
  read, the order history reports no more than
  it adds up to, and every genuine execution in it was handed to the callback, in order and exactly
  once. When the venue accepts the cancel, nothing is emitted.
\<close>

theorem cancel_gone_accounts_fills:
  "case cancel J N F cid symbol g of
     Some (Inr accepted, g') \<Rightarrow>
       (if accepted then gw_fills g' = gw_fills g
        else if gw_fillCB g = None then gw_fills g' = gw_fills g
        else \<exists>e s xs. cancelOrder J N linear symbol [] cid (gw_rest g) = Some (Inl e, s) \<and>
          isOrderGoneReason (what e) \<and> fills_known J N cid symbol s xs (gw_rest g') \<and>
          gw_fills g' = gw_fills g @ map (fill_of cid symbol) (filter genuine xs))
   | _ \<Rightarrow> True"
proof -
  have "if accepted then gw_fills g' = gw_fills g
        else if gw_fillCB g = None then gw_fills g' = gw_fills g
        else \<exists>e s xs. cancelOrder J N linear symbol [] cid (gw_rest g) = Some (Inl e, s) \<and>
          isOrderGoneReason (what e) \<and> fills_known J N cid symbol s xs (gw_rest g') \<and>
          gw_fills g' = gw_fills g @ map (fill_of cid symbol) (filter genuine xs)"
    if run: "cancel J N F cid symbol g = Some (Inr accepted, g')" for accepted g'
  proof -
    let ?m = "cancelOrder J N linear symbol [] cid"
    obtain r t where m: "?m (gw_rest g) = Some (r, t)"
      using run by (cases "?m (gw_rest g)") (auto simp: cancel_def catchP_def bindP_def rest_call_None [THEN iffD2])
    have call: "rest_call ?m g = Some (r, g\<lparr>gw_rest := t\<rparr>)" using m by (simp add: rest_call_Some)
    show ?thesis
    proof (cases r)
      case (Inr x)
      with run call show ?thesis by (auto simp: cancel_def catchP_def bindP_def)
    next
      case (Inl e)
      with run call have "\<not> accepted" and "isOrderGoneReason (what e)" and
        "reconcileMissedFills J N F cid symbol (g\<lparr>gw_rest := t\<rparr>) = Some (Inr (), g')"
        by (auto simp: cancel_def catchP_def bindP_step bindP_cases split: exn.splits if_splits)
      with reconcile_known [of J N F cid symbol "g\<lparr>gw_rest := t\<rparr>" g'] m Inl show ?thesis
        by (auto split: if_splits)
    qed
  qed
  then show ?thesis by (auto split: option.split sum.split)
qed

section \<open>Stray orders\<close>

abbreviation own :: "string \<Rightarrow> OrderResponse list \<Rightarrow> OrderResponse list" where
  "own pre orders \<equiv> filter (\<lambda>o'. starts_with pre (or_orderLinkId o')) orders"

abbreviation cancel_each ::
  "'j jops \<Rightarrow> ('j, 'w) net \<Rightarrow> (double \<Rightarrow> string) \<Rightarrow> OrderResponse list \<Rightarrow> ('j, 'w, unit) gproc" where
  "cancel_each J N F \<equiv>
     forEach (\<lambda>o'. bindP (cancel J N F (or_orderLinkId o') (or_symbol o')) (\<lambda>_. ret ()))"

lemma rethrow_never_returns [simp]:
  "(case e of GatewayError kind m \<Rightarrow> throwP (f kind m) | _ \<Rightarrow> throwP e) s \<noteq> Some (Inr x, t)"
  by (cases e) auto

lemma strayLoop_Inr:
  "strayLoop J N F pre k orders g = Some (Inr n, g') \<Longrightarrow>
     n = k + length (own pre orders) \<and> cancel_each J N F (own pre orders) g = Some (Inr (), g')"
proof (induction orders arbitrary: k g)
  case (Cons x xs)
  show ?case
  proof (cases "starts_with pre (or_orderLinkId x)")
    case True
    with Cons.prems obtain b g1 where
      c: "cancel J N F (or_orderLinkId x) (or_symbol x) g = Some (Inr b, g1)"
      and rest: "strayLoop J N F pre (k + 1) xs g1 = Some (Inr n, g')"
      by (auto simp: bindP_cases catchP_cases)
    from Cons.IH [OF rest] c True show ?thesis by (simp add: bindP_step)
  qed (use Cons in simp)
qed simp

text \<open>
  C18. Startup recovery touches this bot's orders and only those: when \<open>cancelStrayOrders\<close>
  returns, it has read the complete list of open orders and then run \<open>cancel\<close> on exactly those
  whose client id starts with the prefix, in order, each without an exception; their number is
  what it returns.
\<close>

theorem stray_cancels_own_orders:
  "case cancelStrayOrders J N F pre settleCoin g of
     Some (Inr n, g') \<Rightarrow>
       (\<exists>pages orders t. listing (openOrders_page J N linear [] settleCoin) [] (gw_rest g) pages orders t \<and>
          n = length (own pre orders) \<and>
          cancel_each J N F (own pre orders) (g\<lparr>gw_rest := t\<rparr>) = Some (Inr (), g'))
   | _ \<Rightarrow> True"
proof -
  have "\<exists>pages orders t. listing (openOrders_page J N linear [] settleCoin) [] (gw_rest g) pages orders t \<and>
          n = length (own pre orders) \<and>
          cancel_each J N F (own pre orders) (g\<lparr>gw_rest := t\<rparr>) = Some (Inr (), g')"
    if run: "cancelStrayOrders J N F pre settleCoin g = Some (Inr n, g')" for n g'
  proof -
    obtain orders t where "getOpenOrders J N linear [] settleCoin (gw_rest g) = Some (Inr orders, t)"
      and l: "strayLoop J N F pre 0 orders (g\<lparr>gw_rest := t\<rparr>) = Some (Inr n, g')"
      using run by (auto simp: cancelStrayOrders_def bindP_cases rest_call_Some)
    then obtain pages where "listing (openOrders_page J N linear [] settleCoin) [] (gw_rest g) pages orders t"
      by (auto simp: getOpenOrders_def pagedLoop_complete)
    with strayLoop_Inr [OF l] show ?thesis by auto
  qed
  then show ?thesis by (auto split: option.split sum.split)
qed

section \<open>Instrument specifications\<close>

lemma specAttempts_Inr:
  assumes "specAttempts J N symbol [False, True] g = Some (Inr spec, g')"
  shows "gw_specCache g' symbol = Some spec \<and>
    (\<exists>i. told_instrument J N linear symbol symbol (gw_rest g) i (gw_rest g') \<and> spec = spec_of symbol i)"
proof -
  obtain xs s1 where first: "getInstrumentsInfo J N linear symbol False [] (gw_rest g) = Some (Inr xs, s1)"
    using assms by (auto simp: bindP_cases rest_call_Some)
  then have call: "rest_call (getInstrumentsInfo J N linear symbol False []) g = Some (Inr xs, g\<lparr>gw_rest := s1\<rparr>)"
    by (simp add: rest_call_Some)
  show ?thesis
  proof (cases "find_symbol symbol xs")
    case None
    with assms call obtain ys i where "getInstrumentsInfo J N linear symbol True [] s1 = Some (Inr ys, gw_rest g')"
      "find_symbol symbol ys = Some i" "spec = spec_of symbol i" "gw_specCache g' symbol = Some spec"
      by (auto simp: bindP_step bindP_cases rest_call_Some split: option.splits)
    with told_second [OF first None] show ?thesis by blast
  next
    case (Some i)
    with assms call have "gw_rest g' = s1" "spec = spec_of symbol i" "gw_specCache g' symbol = Some spec"
      by (auto simp: bindP_step)
    with told_first [OF first Some] show ?thesis by blast
  qed
qed

text \<open>
  C34. \<open>instrumentSpec\<close> answers with the steps and limits of an instrument of exactly that
  symbol, or with what it answered before: an answer is cached, and asking again gives the same
  answer and makes no request.
\<close>

theorem instrument_spec_cached:
  "case instrumentSpec J N symbol g of
     Some (Inr spec, g') \<Rightarrow>
       gw_specCache g' symbol = Some spec \<and> instrumentSpec J N symbol g' = Some (Inr spec, g') \<and>
       (if gw_specCache g symbol = None
        then \<exists>i. told_instrument J N linear symbol symbol (gw_rest g) i (gw_rest g') \<and> spec = spec_of symbol i
        else g' = g)
   | _ \<Rightarrow> True"
proof -
  have cached: "instrumentSpec J N symbol g = Some (Inr spec, g)" if "gw_specCache g symbol = Some spec" for g spec
    using that by (simp add: instrumentSpec_def bindP_step)
  show ?thesis
  proof (cases "gw_specCache g symbol")
    case None
    then have "instrumentSpec J N symbol g = specAttempts J N symbol [False, True] g"
      by (simp add: instrumentSpec_def bindP_step)
    with None show ?thesis
      using specAttempts_Inr [of J N symbol g] cached
      by (auto split: option.split sum.split simp del: specAttempts.simps)
  next
    case (Some spec)
    with cached [OF Some] show ?thesis by simp
  qed
qed

section \<open>Events\<close>

text \<open>
  A fill is the same event from both feeds: what reconciling re-emits for an order's executions
  is what the stream's execution callback makes of them, less those without an execution id, with
  the same id, quantity and price for every fill. So the receiver can tell repeats by that id.
\<close>

theorem same_fill_from_both_feeds:
  "map (fill_of (c # cid) symbol) (filter genuine xs) =
     filter (\<lambda>fill. fe_fillId fill \<noteq> [])
       (List.map_filter (\<lambda>x. ws_fill (x\<lparr>ex_orderLinkId := c # cid, ex_symbol := symbol\<rparr>)) xs)"
  by (induction xs) (auto simp: List.map_filter_def ws_fill_def genuine_def fill_of_def)

text \<open>
  C21. How an order event reaches the chase core. Nothing is passed on exactly without a client order id or
  for an interim or conditional status. Otherwise the id, the symbol, the price, the cumulative quantity and the
  reason are those of the event, and so is the state: accepted, partially filled or filled; a
  cancelled order is a cancel, except a post-only order that would have crossed, which is a reject
  whether the venue calls it Cancelled or Rejected. A reject, and nothing else, carries the kind of
  its reason.
\<close>

theorem order_event_mapping:
  "(ws_order_update event = None \<longleftrightarrow>
      eo_orderLinkId event = [] \<or> eo_orderStatus event \<in> {PendingCancel, Untriggered, Triggered, Active}) \<and>
   (case ws_order_update event of
      None \<Rightarrow> True
    | Some u \<Rightarrow>
        let ended = eo_orderStatus event \<in> {Cancelled, PartiallyFilledCanceled, Deactivated};
            crossed = classifyRejectReason (eo_rejectReason event) = BenignPostOnlyCross in
        ou_clientOrderId u = eo_orderLinkId event \<and> ou_symbol u = eo_symbol event \<and>
        ou_price u = eo_price event \<and> ou_cumFilledQty u = eo_cumExecQty event \<and>
        ou_reason u = eo_rejectReason event \<and>
        (ou_state u = OSAccepted \<longleftrightarrow> eo_orderStatus event \<in> {Created, New}) \<and>
        (ou_state u = OSPartiallyFilled \<longleftrightarrow> eo_orderStatus event = PartiallyFilled) \<and>
        (ou_state u = OSFilled \<longleftrightarrow> eo_orderStatus event = Filled) \<and>
        (ou_state u = OSCancelled \<longleftrightarrow> ended \<and> \<not> crossed) \<and>
        (ou_state u = OSRejected \<longleftrightarrow> eo_orderStatus event = Rejected \<or> ended \<and> crossed) \<and>
        ou_rejectKind u = (if ou_state u = OSRejected then Some (classifyRejectReason (eo_rejectReason event)) else None))"
  by (cases "eo_orderStatus event") (auto simp: ws_order_update_def order_state_def Let_def)

text \<open>
  C22. A quote of the gateway is fresh: with an age limit set, what \<open>lastQuote\<close> returns was
  received, from the stream or from REST, no longer ago than the limit. It does not throw.
\<close>

theorem last_quote_is_fresh:
  "case lastQuote J N io symbol g of
     None \<Rightarrow> True
   | Some (Inl e, g') \<Rightarrow> False
   | Some (Inr None, g') \<Rightarrow> True
   | Some (Inr (Some q), g') \<Rightarrow>
       (if 0 < pub_maxTickAge (gw_public g')
        then pub_now (gw_public g') - qt_receivedAt q \<le> pub_maxTickAge (gw_public g') * 1000
        else True)"
proof -
  let ?p = "(gw_public g)\<lparr>pub_rest := Some (gw_rest g)\<rparr>"
  note fresh = quote_read_is_fresh [where J = J and N = N and io = io and pair = symbol and s = ?p]
  show ?thesis
  proof (cases "readEventTicker J N io symbol ?p")
    case None
    then have "on_public (readEventTicker J N io symbol) g = None" by (simp add: on_public_def zoomP_def)
    then show ?thesis by (simp add: lastQuote_def bindP_step)
  next
    case (Some y)
    obtain r p where y: "y = (r, p)" by fastforce
    obtain t where r: "r = Inr t" using fresh Some y by (cases r) auto
    define g' where "g' = g\<lparr>gw_public := p\<lparr>pub_rest := None\<rparr>,
        gw_rest := (case pub_rest p of None \<Rightarrow> gw_rest g | Some r \<Rightarrow> r)\<rparr>"
    have "on_public (readEventTicker J N io symbol) g = Some (Inr t, g')"
      using Some y r by (simp add: on_public_def zoomP_def g'_def)
    then have run: "lastQuote J N io symbol g = Some (Inr (map_option toQuote t), g')"
      by (simp add: lastQuote_def bindP_step)
    show ?thesis
    proof (cases t)
      case hit: (Some x)
      with fresh Some y r have "if isStale p x then et_receivedTimestamp x = pub_now p else True"
        by (auto split: if_splits)
      then show ?thesis unfolding run
        by (auto simp: hit g'_def toQuote_def isStale_def split: if_splits)
    qed (simp add: run)
  qed
qed

end
