(* ===== verification/Stream_Io.thy ===== *)
theory Stream_Io
  imports Ws_Private Ws_Public_Spec
begin

text \<open>
  What the io threads do to the two streams, one handler at a time: a handler of a session may hand
  one event to its data callback, which the manager that owns the stream then works on. The
  settings of a session never change once it runs.
\<close>

section \<open>The settings of a session\<close>

definition settings :: "'j session \<Rightarrow> (string \<times> string \<times> string) \<times> (string \<times> string \<times> bool) \<times> bool" where
  "settings s = ((host s, port s, path s), (apiKey s, apiSecret s, authRequired s), dataEventCB s \<noteq> None)"

lemma settings_upd [simp]:
  "settings (ops_update f s) = settings s" "settings (start_op x s) = settings s"
  "settings (log_line v m s) = settings s" "settings (pump e s) = settings s" "settings (enqueueOp p s) = settings s"
  "settings (flushTopics J e s) = settings s" "settings (sendAuth J e s) = settings s"
  "settings (handleError e g m s) = settings s" "settings (deliver J e j s) = settings s"
  "settings (connected_update g' s) = settings s" "settings (lastPongTime_update h s) = settings s"
  "settings (authenticated_update g' s) = settings s" "settings (authenticatedFlag_update g' s) = settings s"
  "settings (authDeadline_update i s) = settings s" "settings (reconnectDelayS_update h s) = settings s"
  "settings (writeInFlight_update g' s) = settings s" "settings (escaped_update l s) = settings s"
  "settings (reconnectScheduled_update g' s) = settings s" "settings (userClosed_update g' s) = settings s"
  "settings (ws_update k s) = settings s" "settings (hostHeader_update n s) = settings s"
  "settings (subscriptions_update q s) = settings s" "settings (inflightSubscribes_update r s) = settings s"
  "settings (pendingTopics_update q s) = settings s" "settings (generation_update w s) = settings s"
  "settings (outboundQueue_update q s) = settings s" "settings (delivered_update r' s) = settings s"
  by (simp_all add: settings_def)

lemma ack_settings: "handleSubscribeAck success ret_msg reqId s = Inr s' \<Longrightarrow>
    settings s' = settings s \<and> delivered s' = delivered s"
  by (cases rule: handleSubscribeAck_cases) (assumption, auto)

lemma control_settings:
  assumes "handleApiControlMsg J e g json s = Inr s'"
  shows "settings s' = settings s \<and> delivered s' = delivered s"
proof -
  obtain operation success ret_msg u1 u2 u3 where
    "(if operation = ''pong'' \<or> ret_msg = ''pong'' then Inr (s\<lparr>lastPongTime := steady e\<rparr>)
     else if operation = ''auth'' then
       if success then
         Inr (flushTopics J e (log_line Info ''Bybit WS authenticated''
           (s\<lparr>authenticated := True, authenticatedFlag := True, authDeadline := None,
              reconnectDelayS := 1\<rparr>)))
       else Inr (handleError e g (''Bybit WS auth failed: '' @ ret_msg) s)
     else if operation = ''subscribe'' then
       bindR (readString J json ''req_id'' []) (\<lambda>(_, reqId). handleSubscribeAck success ret_msg reqId s)
     else if \<not> success then
       Inr (log_line Error
         (''Bybit API Error, operation: '' @ operation @ '', message: '' @ ret_msg) s)
     else Inr s) = Inr s'"
    using assms unfolding handleApiControlMsg_def bindR_pair_Inr by (elim exE conjE) (rule that)
  then show ?thesis
  proof (rule if_chain_cases)
    assume "bindR (readString J json ''req_id'' []) (\<lambda>(_, reqId). handleSubscribeAck success ret_msg reqId s) = Inr s'"
    then show ?thesis unfolding bindR_pair_Inr using ack_settings by blast
  qed (drule Inr_inject, erule subst, simp)+
qed

text \<open>A message that a read hands to the data callback.\<close>

definition hands_over :: "'j jops \<Rightarrow> env \<Rightarrow> 'j Event \<Rightarrow> bool" where
  "hands_over J e event \<longleftrightarrow> ec e = None \<and>
     (\<exists>json. j_parse J (message e) = Inr json \<and> j_is_object J json \<and> \<not> isApiControlMsg J json \<and>
        Event_fromJson J json (Event_init J) = Inr event)"

lemma processMessage_settings:
  assumes "processMessage J e g s = Inr s'" and "ec e = None"
  shows "settings s' = settings s \<and> (delivered s' = delivered s \<or>
    (\<exists>event. hands_over J e event \<and> delivered s' = delivered s @ [event]))"
proof -
  obtain json where j: "j_parse J (message e) = Inr json"
    "(if j_is_object J json then if isApiControlMsg J json then handleApiControlMsg J e g json s
      else Inr (deliver J e json s) else Inr s) = Inr s'"
    using assms(1) unfolding processMessage_def bindR_eq_Inr by blast
  show ?thesis
  proof (cases "j_is_object J json \<and> \<not> isApiControlMsg J json")
    case True
    then have s': "s' = deliver J e json s" using j(2) by simp
    show ?thesis
    proof (cases "Event_fromJson J json (Event_init J)")
      case (Inr event)
      then have "hands_over J e event" using True j(1) assms(2) by (auto simp: hands_over_def)
      then show ?thesis unfolding s' using Inr
        by (auto simp: deliver_def Let_def split: option.splits)
    qed (simp add: s', simp add: deliver_def)
  next
    case False
    then show ?thesis using j(2) control_settings [of J e g json s s'] by (auto split: if_splits)
  qed
qed

lemma rearm_settings [simp]:
  "settings (rearmRead g s) = settings s" "delivered (rearmRead g s) = delivered s"
  by (simp_all add: rearmRead_def Let_def)

lemma onRead_settings:
  "settings (onRead J e g s) = settings s \<and> (delivered (onRead J e g s) = delivered s \<or>
    (\<exists>event. hands_over J e event \<and> delivered (onRead J e g s) = delivered s @ [event]))"
proof (cases "ec e")
  case None
  show ?thesis
  proof (cases "processMessage J e g s")
    case (Inl x)
    with None show ?thesis by (cases x) (simp_all add: onRead_def)
  next
    case (Inr s')
    with None processMessage_settings [OF Inr None] show ?thesis by (simp add: onRead_def)
  qed
qed (simp add: onRead_def)

lemma complete_settings:
  "settings (complete J e x s) = settings s \<and> (delivered (complete J e x s) = delivered s \<or>
    (\<exists>event. x = Read (generation s) \<and> hands_over J e event \<and> delivered (complete J e x s) = delivered s @ [event]))"
proof (cases "\<exists>g. x = Read g")
  case True
  then obtain g where "x = Read g" by blast
  then show ?thesis
    using onRead_settings [of J e g "s\<lparr>ops := remove1 x (ops s)\<rparr>"]
    by (cases "g = generation s") (simp_all add: complete_def guarded_def)
next
  case False
  then show ?thesis
    by (cases x) (auto simp: complete_def guarded_def onResolve_def onConnect_def onSSLHandshake_def onHandshake_def
        onWrite_def onPingTimer_def onReconnectTimer_def startConnect_def onAsyncClose_def postedUnsubscribe_def
        closeByUser_def Let_def split: option.splits)
qed

text \<open>A session that is closed, or is going to be. Only the user's call makes it so.\<close>

definition closing :: "'j session \<Rightarrow> bool" where
  "closing s \<longleftrightarrow> userClosed s \<or> PostClose \<in> set (ops s)"

lemma closing_frame [simp]:
  "closing (start_op x s) = (closing s \<or> x = PostClose)" "closing (log_line v m s) = closing s"
  "closing (deliver J e j s) = closing s" "closing (startConnect s) = closing s"
  "closing (connected_update g' s) = closing s" "closing (lastPongTime_update h s) = closing s"
  "closing (authenticated_update g' s) = closing s" "closing (authenticatedFlag_update g' s) = closing s"
  "closing (authDeadline_update i s) = closing s" "closing (reconnectDelayS_update h s) = closing s"
  "closing (writeInFlight_update g' s) = closing s" "closing (escaped_update l s) = closing s"
  "closing (reconnectScheduled_update g' s) = closing s" "closing (hostHeader_update n s) = closing s"
  by (auto simp: closing_def start_op_def startConnect_def Let_def)

lemma closing_pump [simp]:
  "closing (pump e s) = closing s" "closing (enqueueOp p s) = closing s" "closing (sendAuth J e s) = closing s"
  "closing (flushTopics J e s) = closing s" "closing (handleError e g m s) = closing s"
  "closing (rearmRead g s) = closing s" "closing (subscribe t s) = closing s" "closing (unsubscribe t s) = closing s"
  by (auto simp: closing_def sendAuth_def flushTopics_def handleError_def rearmRead_def subscribe_def addTopic_def
      unsubscribe_def removeTopic_def Let_def start_op_def)

lemma closing_read: "closing (onRead J e g s) = closing s"
proof (cases "ec e")
  case None
  show ?thesis
  proof (cases "processMessage J e g s")
    case (Inl x)
    with None show ?thesis by (cases x) (simp_all add: onRead_def)
  next
    case (Inr s')
    then have "closing s' = closing s"
    proof (cases rule: processMessage_cases)
      case (ack success ret_msg reqId)
      then show ?thesis by (simp add: closing_def ack_frame)
    qed simp_all
    with None Inr show ?thesis by (simp add: onRead_def)
  qed
qed (simp add: onRead_def)

lemma closing_complete:
  assumes "x \<in> set (ops s)" and "\<not> closing s"
  shows "\<not> closing (complete J e x s)"
proof -
  have "x \<noteq> PostClose" using assms by (auto simp: closing_def)
  moreover have "\<not> closing (s\<lparr>ops := remove1 x (ops s)\<rparr>)"
    using assms(2) set_remove1_subset [of x "ops s"] by (auto simp: closing_def)
  ultimately show ?thesis
    by (cases x) (auto simp: complete_def guarded_def onResolve_def onConnect_def onSSLHandshake_def onHandshake_def
        onWrite_def onPingTimer_def onReconnectTimer_def onAsyncClose_def postedUnsubscribe_def closing_read
        Let_def split: option.splits)
qed

section \<open>The io thread of a client\<close>

inductive io_step :: "'j jops \<Rightarrow> 'j client \<Rightarrow> 'j client \<Rightarrow> bool" for J where
  handler: "cl_isRunning c \<Longrightarrow> cl_session c = Some s \<Longrightarrow> x \<in> set (ops s) \<Longrightarrow> timer_ok x e s
    \<Longrightarrow> io_step J c (client_io J e x c)"
| pong: "cl_isRunning c \<Longrightarrow> cl_session c = Some s
    \<Longrightarrow> io_step J c (c\<lparr>cl_session := Some (onPongFrame e s)\<rparr>)"
| ends: "cl_isRunning c \<Longrightarrow> (case cl_session c of None \<Rightarrow> True | Some s \<Rightarrow> ops s = [])
    \<Longrightarrow> io_step J c (client_io_ends c)"

inductive_cases io_stepE: "io_step J c c'"

lemma io_step_cstep: "io_step J c c' \<Longrightarrow> cstep J c c'"
  by (erule io_stepE) (auto intro: cstep.intros)

text \<open>The events the data callback has been called with, and those of a step.\<close>

definition heard :: "'j client \<Rightarrow> 'j Event list" where
  "heard c = (case cl_session c of None \<Rightarrow> [] | Some s \<Rightarrow> delivered s)"

definition news :: "'j client \<Rightarrow> 'j client \<Rightarrow> 'j Event list" where
  "news c c' = drop (length (heard c)) (heard c')"

lemma heard_io:
  assumes "io_step J c c'"
  shows "heard c' = heard c \<or>
    (\<exists>s e event. cl_session c = Some s \<and> Read (generation s) \<in> set (ops s) \<and>
       c' = client_io J e (Read (generation s)) c \<and> hands_over J e event \<and> heard c' = heard c @ [event])"
  using assms
proof cases
  case (handler s x e)
  with complete_settings [of J e x s] show ?thesis by (auto simp: client_io_def heard_def)
qed (simp_all add: heard_def onPongFrame_def client_io_ends_def)

lemma news_io:
  assumes "io_step J c c'"
  shows "news c c' = [] \<or>
    (\<exists>s e event. cl_session c = Some s \<and> Read (generation s) \<in> set (ops s) \<and>
       c' = client_io J e (Read (generation s)) c \<and> hands_over J e event \<and> news c c' = [event])"
  using heard_io [OF assms] by (auto simp: news_def)

section \<open>A client wired to an endpoint\<close>

definition session_cred :: "string \<times> string \<Rightarrow> string \<times> string \<times> bool" where
  "session_cred cred = (if fst cred \<noteq> [] \<and> snd cred \<noteq> [] then (fst cred, snd cred, True) else ([], [], False))"

text \<open>
  A well-formed stream: a reachable session, on the endpoint and with the credentials it was given,
  and not closed. If the stream is \<open>up\<close>, the session is there and the io thread runs.
\<close>

definition stream_ok ::
  "'j jops \<Rightarrow> string \<times> string \<times> string \<Rightarrow> string \<times> string \<Rightarrow> bool \<Rightarrow> 'j client \<Rightarrow> bool" where
  "stream_ok J ep cred up c \<longleftrightarrow> client_ok J c \<and>
     (cl_host c, cl_port c, cl_path c) = ep \<and> (cl_apiKey c, cl_apiSecret c) = cred \<and> cl_dataEventCB c \<noteq> None \<and>
     (up \<longrightarrow> cl_isRunning c \<and> cl_session c \<noteq> None) \<and>
     (case cl_session c of None \<Rightarrow> True | Some s \<Rightarrow> settings s = (ep, session_cred cred, True) \<and> \<not> closing s)"

lemma subscribe_settings [simp]: "settings (subscribe t s) = settings s" "settings (unsubscribe t s) = settings s"
  by (auto simp: subscribe_def unsubscribe_def addTopic_def removeTopic_def Let_def)

lemma stream_ok_subscribe:
  assumes "stream_ok J ep cred up c" and "t \<noteq> []"
  shows "stream_ok J ep cred up (snd (client_subscribe t c))"
proof -
  have ok: "client_ok J (snd (client_subscribe t c))"
    using assms client_subscribe_ok by (auto simp: stream_ok_def)
  show ?thesis
  proof (cases "cl_session c")
    case (Some s)
    with assms ok show ?thesis by (auto simp: stream_ok_def client_subscribe_def)
  next
    case None
    then obtain s where "snd (client_subscribe t c) = c\<lparr>cl_session := Some s\<rparr>"
      "settings s = ((cl_host c, cl_port c, cl_path c), session_cred (cl_apiKey c, cl_apiSecret c), cl_dataEventCB c \<noteq> None)"
      "\<not> closing s"
      using assms(2) by (cases "cl_apiKey c \<noteq> [] \<and> cl_apiSecret c \<noteq> []")
        (auto simp: client_subscribe_def run_def Let_def addTopic_def fresh_session_def setCredentials_def settings_def
          session_cred_def isSubscribed_def closing_def start_op_def)
    with assms ok show ?thesis by (auto simp: stream_ok_def)
  qed
qed

lemma stream_ok_io: "stream_ok J ep cred up c \<Longrightarrow> io_step J c c' \<Longrightarrow> stream_ok J ep cred up c'"
proof -
  assume ok: "stream_ok J ep cred up c" and step: "io_step J c c'"
  have "client_ok J c'" using ok io_step_cstep [OF step] cstep_ok by (auto simp: stream_ok_def)
  with step ok show ?thesis
  proof cases
    case (handler s x e)
    with ok \<open>client_ok J c'\<close> complete_settings [of J e x s] closing_complete [of x s J e] show ?thesis
      by (auto simp: stream_ok_def client_io_def)
  next
    case ends
    have "\<not> up"
    proof
      assume up
      with ok obtain s where "cl_session c = Some s" "reachable J s" "\<not> userClosed s"
        by (auto simp: stream_ok_def client_ok_def closing_def)
      with ends open_is_busy show False by auto
    qed
    with ends ok \<open>client_ok J c'\<close> show ?thesis by (auto simp: stream_ok_def client_io_ends_def)
  qed (auto simp: stream_ok_def onPongFrame_def)
qed

lemma stream_ok_ios: "(io_step J)\<^sup>*\<^sup>* c c' \<Longrightarrow> stream_ok J ep cred up c \<Longrightarrow> stream_ok J ep cred up c'"
  by (induction rule: rtranclp_induct) (auto intro: stream_ok_io)

lemma stream_ok_simps [simp]:
  "stream_ok J ep cred False (client_run c) = stream_ok J ep cred False c"
  "stream_ok J ep cred up (client_setLoggerCallback c) = stream_ok J ep cred up c"
  by (simp_all add: stream_ok_def client_ok_def client_run_def client_setLoggerCallback_def)

lemma stream_ok_unsubscribe:
  assumes "stream_ok J ep cred up c"
  shows "stream_ok J ep cred up (client_unsubscribe t c)"
proof -
  have "client_ok J (client_unsubscribe t c)"
    by (rule cstep_ok [OF cstep.unsubscribe]) (use assms in \<open>simp add: stream_ok_def\<close>)
  with assms show ?thesis
    by (auto simp: stream_ok_def client_unsubscribe_def split: option.split)
qed

text \<open>
  Such a client provides the topic interface too, so the private manager keeps its stream well-formed.
\<close>

interpretation wired_topics: topic_session "\<lambda>t c. snd (client_subscribe t c)" client_isSubscribed
  client_isSubscriptionConfirmed "stream_ok J ep cred up" for J ep cred up
  by unfold_locales
    (simp_all add: stream_ok_subscribe client_requested client_confirmed client_confirmed_requested)

lemma isLive_ok:
  assumes "stream_ok J ep cred up (pm_client m)"
  shows "stream_ok J ep cred up (pm_client (snd (isLive m)))"
  using wired_topics.ensure_spec [OF assms topics_nonempty] by (simp add: isLive_eq)

lemma stream_ok_run:
  assumes "stream_ok J ep cred up c" and "cl_session c \<noteq> None"
  shows "stream_ok J ep cred True (client_run c)"
  using assms by (simp add: stream_ok_def client_ok_def client_run_def)

text \<open>\<^verbatim>\<open>connect()\<close> brings the stream up.\<close>

lemma connect_ok:
  assumes "stream_ok J ep cred up (pm_client m)"
  shows "stream_ok J ep cred True (pm_client (connect m))"
proof -
  define ask where "ask t c = (if \<not> client_isSubscribed t c then snd (client_subscribe t c) else c)" for t and c :: "'a client"
  let ?c = "ask EXECUTION_TOPIC (ask ORDER_TOPIC (pm_client m))"
  have ok: "stream_ok J ep cred up ?c"
    using assms by (simp add: ask_def stream_ok_subscribe ORDER_TOPIC_def EXECUTION_TOPIC_def)
  then have "client_isSubscribed EXECUTION_TOPIC ?c"
    using assms client_requested
    by (auto simp: ask_def stream_ok_def stream_ok_subscribe ORDER_TOPIC_def EXECUTION_TOPIC_def)
  then have "cl_session ?c \<noteq> None" by (auto simp: client_isSubscribed_def split: option.splits)
  from stream_ok_run [OF ok this] show ?thesis by (simp add: connect_def Let_def ask_def)
qed

lemma stream_ok_down: "stream_ok J ep cred True c \<Longrightarrow> stream_ok J ep cred up c"
  by (simp add: stream_ok_def)

section \<open>The public stream\<close>

text \<open>
  A handler of the public session, then the manager's data callback on what it handed over; and
  time passes. Where the callback has no defined behaviour there is no step.
\<close>

fun listen ::
  "'j jops \<Rightarrow> (string \<Rightarrow> string list) \<Rightarrow> 'j Event list \<Rightarrow> ('j, 'w) public \<Rightarrow> ('j, 'w) public option" where
  "listen J split [] p = Some p"
| "listen J split (event # events) p =
     (case onPublicEvent J split event p of None \<Rightarrow> None | Some (_, p') \<Rightarrow> listen J split events p')"

inductive pio :: "'j jops \<Rightarrow> (string \<Rightarrow> string list) \<Rightarrow> ('j, 'w) public \<Rightarrow> ('j, 'w) public \<Rightarrow> bool" for J split where
  handler: "io_step J (pub_client p) c \<Longrightarrow> listen J split (news (pub_client p) c) (p\<lparr>pub_client := c\<rparr>) = Some p'
    \<Longrightarrow> pio J split p p'"
| tick: "pub_now p \<le> t \<Longrightarrow> pio J split p (p\<lparr>pub_now := t\<rparr>)"

definition quotes_ok :: "('j, 'w) public \<Rightarrow> bool" where
  "quotes_ok p \<longleftrightarrow> (\<forall>symbol t. pub_tickers p symbol = Some t \<longrightarrow>
     toUpper symbol = symbol \<and> et_receivedTimestamp t \<le> pub_now p)"

definition public_ok ::
  "'j jops \<Rightarrow> string \<times> string \<times> string \<Rightarrow> int \<Rightarrow> int \<Rightarrow> ('j, 'w) public \<Rightarrow> bool" where
  "public_ok J ep timeout age p \<longleftrightarrow> stream_ok J ep ([], []) False (pub_client p) \<and>
     pub_timeout p = timeout \<and> pub_maxTickAge p = age \<and> quotes_ok p"

lemma quotes_ok_put:
  "quotes_ok p \<Longrightarrow> toUpper symbol = symbol \<Longrightarrow> et_receivedTimestamp t \<le> pub_now p
    \<Longrightarrow> quotes_ok (p\<lparr>pub_tickers := (pub_tickers p)(symbol \<mapsto> t)\<rparr>)"
  by (auto simp: quotes_ok_def)

lemma public_ok_simps [simp]:
  "public_ok J ep timeout age (log_pub m p) = public_ok J ep timeout age p"
  "public_ok J ep timeout age (p\<lparr>pub_rest := r\<rparr>) = public_ok J ep timeout age p"
  "public_ok J ep timeout age (p\<lparr>pub_candlesticks := cs\<rparr>) = public_ok J ep timeout age p"
  "public_ok J ep timeout age (p\<lparr>pub_client := c\<rparr>) =
     (stream_ok J ep ([], []) False c \<and> pub_timeout p = timeout \<and> pub_maxTickAge p = age \<and> quotes_ok p)"
  by (simp_all add: public_ok_def log_pub_def quotes_ok_def)

lemma public_ok_put:
  "public_ok J ep timeout age p \<Longrightarrow> toUpper symbol = symbol \<Longrightarrow> et_receivedTimestamp t \<le> pub_now p
    \<Longrightarrow> public_ok J ep timeout age (p\<lparr>pub_tickers := (pub_tickers p)(symbol \<mapsto> t)\<rparr>)"
  "public_ok J ep timeout age p \<Longrightarrow> toUpper symbol = symbol \<Longrightarrow> et_receivedTimestamp t \<le> pub_now p
    \<Longrightarrow> public_ok J ep timeout age (p\<lparr>pub_rest := r, pub_tickers := (pub_tickers p)(symbol \<mapsto> t)\<rparr>)"
  by (auto simp: public_ok_def quotes_ok_def)

lemma ticker_event_ok:
  assumes "public_ok J ep timeout age p"
  shows "public_ok J ep timeout age (snd (onTickerEvent J split event p))"
proof -
  let ?k = "normalizeSymbol (readSymbolFromFilter split (ev_topic event))"
  have k: "toUpper ?k = ?k" by (simp add: normalizeSymbol_def)
  show ?thesis
  proof (cases "pub_tickers p ?k")
    case None
    obtain t x where "loadEventData_on J event EventTicker_init = (t, x)" by fastforce
    with None show ?thesis
      using assms k by (cases x) (auto simp: onTickerEvent_def Let_def intro!: public_ok_put)
  next
    case (Some entry)
    obtain t x where l: "loadEventData_on J event entry = (t, x)" by fastforce
    have "et_receivedTimestamp entry \<le> pub_now p" using assms Some by (auto simp: public_ok_def quotes_ok_def)
    then have "et_receivedTimestamp t \<le> pub_now p" using loadEventData_on_time [of J event entry] l by simp
    with Some l show ?thesis
      using assms k by (cases x) (auto simp: onTickerEvent_def Let_def intro!: public_ok_put)
  qed
qed

lemma public_event_ok:
  assumes "onPublicEvent J split event p = Some (x, p')" and "public_ok J ep timeout age p"
  shows "public_ok J ep timeout age p'"
proof -
  have "public_ok J ep timeout age q" if "onKlineEvent J split event p = Some q" for q
    using that assms(2)
    by (auto simp: onKlineEvent_def Let_def split: sum.splits if_splits)
  then show ?thesis
    using assms ticker_event_ok [OF assms(2), of split event] by (auto simp: onPublicEvent_def split: if_splits)
qed

lemma listen_ok: "listen J split events p = Some p' \<Longrightarrow> public_ok J ep timeout age p \<Longrightarrow> public_ok J ep timeout age p'"
  by (induction events arbitrary: p) (auto split: option.splits dest: public_event_ok)

lemma pio_ok: "pio J split p p' \<Longrightarrow> public_ok J ep timeout age p \<Longrightarrow> public_ok J ep timeout age p'"
proof (induction rule: pio.induct)
  case (handler p c p')
  then have "public_ok J ep timeout age (p\<lparr>pub_client := c\<rparr>)" by (auto simp: public_ok_def quotes_ok_def intro: stream_ok_io)
  with handler show ?case by (rule_tac listen_ok)
qed (fastforce simp: public_ok_def quotes_ok_def)

lemma pios_ok: "(pio J split)\<^sup>*\<^sup>* p p' \<Longrightarrow> public_ok J ep timeout age p \<Longrightarrow> public_ok J ep timeout age p'"
  by (induction rule: rtranclp_induct) (auto intro: pio_ok)

lemma refresh_ok:
  assumes "toUpper symbol = symbol" and "\<And>p. (pio J split)\<^sup>*\<^sup>* p (during p)"
  shows "holdsP (public_ok J ep timeout age) (refreshTickerFromREST J' N during symbol)"
  unfolding holdsP_def
proof (intro allI impI)
  fix p r p'
  assume ok: "public_ok J ep timeout age p" and run: "refreshTickerFromREST J' N during symbol p = Some (r, p')"
  have io: "public_ok J ep timeout age (during (p\<lparr>pub_rest := c\<rparr>))" for c
    using pios_ok [OF assms(2), of ep timeout age "p\<lparr>pub_rest := c\<rparr>"] ok by simp
  from run ok show "public_ok J ep timeout age p'"
    by (auto simp: refreshTickerFromREST_def Let_def assms(1) ticker_of_snapshot_def io
        split: option.splits sum.splits list.splits if_splits intro!: public_ok_put)
qed

lemma subscribe_ok:
  "topic \<noteq> [] \<Longrightarrow> public_ok J ep timeout age p \<Longrightarrow> public_ok J ep timeout age (subscribe_once topic p)"
  by (auto simp: subscribe_once_def public_ok_def Let_def stream_ok_subscribe log_pub_def quotes_ok_def)

lemma subscribe_ticker_ok:
  assumes "\<And>p. (pio J split)\<^sup>*\<^sup>* p (during p)"
  shows "holdsP (public_ok J ep timeout age) (subscribeTickerStream J' N during pair)"
  unfolding holdsP_def
proof (intro allI impI)
  fix p r p'
  assume ok: "public_ok J ep timeout age p" and run: "subscribeTickerStream J' N during pair p = Some (r, p')"
  let ?s = "subscribe_once (ticker_topic pair) p"
  have "public_ok J ep timeout age ?s" using ok by (intro subscribe_ok) (simp_all add: ticker_topic_def)
  moreover have "holdsP (public_ok J ep timeout age) (bindP (refreshTickerFromREST J' N during (normalizeSymbol pair)) (\<lambda>_. ret ()))"
    by (intro holdsP_bindP refresh_ok [OF _ assms]) (simp_all add: normalizeSymbol_def)
  ultimately show "public_ok J ep timeout age p'"
    using run by (auto simp: subscribeTickerStream_def Let_def split: if_splits dest: holdsP_D)
qed

lemma unsubscribe_ticker_ok:
  "public_ok J ep timeout age p \<Longrightarrow> public_ok J ep timeout age (unsubscribeTickerStream pair p)"
  by (auto simp: unsubscribeTickerStream_def public_ok_def stream_ok_unsubscribe quotes_ok_def)

lemma poll_ok:
  assumes "\<And>k p. (pio J split)\<^sup>*\<^sup>* p (io k p)"
  shows "holdsP (public_ok J ep timeout age) (pollTicker io k symbol deadline)"
  unfolding holdsP_def
proof (intro allI impI)
  fix p r p'
  assume ok: "public_ok J ep timeout age p" and run: "pollTicker io k symbol deadline p = Some (r, p')"
  have io: "public_ok J ep timeout age (io k p)" if "public_ok J ep timeout age p" for k p
    using pios_ok [OF assms that] .
  let ?P = "\<lambda>f k sy d s y. f = io \<and> public_ok J ep timeout age s \<longrightarrow> public_ok J ep timeout age (snd y)"
  have "?P io k symbol deadline p (r, p')"
    by (rule pollTicker.raw_induct [OF _ run, where P = ?P])
      (auto split: if_splits option.splits, metis io)
  with ok show "public_ok J ep timeout age p'" by simp
qed

lemma read_ticker_ok:
  assumes "\<And>k p. (pio J split)\<^sup>*\<^sup>* p (io k p)"
  shows "holdsP (public_ok J ep timeout age) (readEventTicker J' N io pair)"
  unfolding readEventTicker_def
  by (auto intro!: holdsP_bindP poll_ok [OF assms] refresh_ok [OF _ assms] split: option.split simp: normalizeSymbol_def)

end
