(* ===== verification/Gateway_Runs.thy ===== *)
theory Gateway_Runs
  imports Gateway_Spec Stream_Io
begin

text \<open>
  The gateway at work: every call of its interface, every handler of its two io threads and the
  passing of time are steps; what holds in every state they lead to, and what a message of the
  private stream is worth.
\<close>

section \<open>Messages of the private stream\<close>

definition hear :: "'j jops \<Rightarrow> 'j Event list \<Rightarrow> ('j, 'w) gateway \<Rightarrow> ('j, 'w) gateway" where
  "hear J events g = fold (private_message J) events g"

text \<open>A handler of the private session leaves the client \<open>c\<close>.\<close>

definition private_io :: "'j jops \<Rightarrow> 'j client \<Rightarrow> ('j, 'w) gateway \<Rightarrow> ('j, 'w) gateway" where
  "private_io J c g =
     hear J (news (pm_client (gw_private g)) c) (g\<lparr>gw_private := (gw_private g)\<lparr>pm_client := c\<rparr>\<rparr>)"

text \<open>The fills and the order updates in a message.\<close>

definition parsed :: "('j \<Rightarrow> 'e res) \<Rightarrow> ('e \<Rightarrow> 'f option) \<Rightarrow> 'j list \<Rightarrow> 'f list" where
  "parsed parse f = List.map_filter (\<lambda>j. case parse j of Inl _ \<Rightarrow> None | Inr x \<Rightarrow> f x)"

definition on_topic :: "string \<Rightarrow> 'j Event \<Rightarrow> bool" where
  "on_topic topic event = (ev_topic event = topic \<or> starts_with (topic @ ''.'') (ev_topic event))"

definition stream_fills :: "'j jops \<Rightarrow> 'j Event \<Rightarrow> FillEvent list" where
  "stream_fills J event =
     (if on_topic ''execution'' event \<and> j_is_array J (ev_data event)
      then parsed (\<lambda>j. EventExecution_fromJson J j EventExecution_init) ws_fill (j_items J (ev_data event)) else [])"

definition stream_updates :: "'j jops \<Rightarrow> 'j Event \<Rightarrow> OrderUpdate list" where
  "stream_updates J event =
     (if on_topic ''order'' event \<and> j_is_array J (ev_data event)
      then parsed (\<lambda>j. EventOrderUpdate_fromJson J j EventOrderUpdate_init) ws_order_update (j_items J (ev_data event))
      else [])"

lemma parsed_called: "List.map_filter f (called (dispatchItems parse cb logger items)) = parsed parse f items"
  by (induction items) (auto simp: parsed_def List.map_filter_def split: sum.split option.split)

lemma receive_orders:
  "fold receive (map OrderDelivery ds) g = g\<lparr>gw_updates := gw_updates g @
     (if gw_orderUpdateCB g = None then [] else List.map_filter ws_order_update (called ds))\<rparr>"
proof (induction ds arbitrary: g)
  case (Cons d ds)
  show ?case
  proof (cases d)
    case (Called event)
    then show ?thesis
      by (cases "gw_orderUpdateCB g"; cases "ws_order_update event")
        (auto simp: Cons.IH after_def onOrderEvent_def emit_update_def List.map_filter_def)
  qed (simp add: Cons.IH)
qed (simp add: List.map_filter_def)

lemma receive_executions:
  "fold receive (map ExecutionDelivery ds) g = g\<lparr>gw_fills := gw_fills g @
     (if gw_fillCB g = None then [] else List.map_filter ws_fill (called ds))\<rparr>"
proof (induction ds arbitrary: g)
  case (Cons d ds)
  show ?case
  proof (cases d)
    case (Called event)
    then show ?thesis
      by (cases "gw_fillCB g"; cases "ws_fill event")
        (auto simp: Cons.IH after_def onExecutionEvent_def emit_fill_def List.map_filter_def)
  qed (simp add: Cons.IH)
qed (simp add: List.map_filter_def)

lemma dispatched:
  "called (dispatchArray J parse logger event cb) = (if cb = None \<or> \<not> j_is_array J (ev_data event) then []
     else called (dispatchItems parse (the cb) logger (j_items J (ev_data event))))"
  by (simp add: dispatchArray_def split: option.split)

lemma topic_apart: "on_topic ''order'' event \<Longrightarrow> \<not> on_topic ''execution'' event"
  by (cases "ev_topic event") (auto simp: on_topic_def)

definition if_set :: "'c option \<Rightarrow> 'e list \<Rightarrow> 'e list" where
  "if_set cb xs = (if cb = None then [] else xs)"

lemma private_message_eq:
  "private_message J event g = g\<lparr>gw_fills := gw_fills g @ if_set (gw_fillCB g) (stream_fills J event),
     gw_updates := gw_updates g @ if_set (gw_orderUpdateCB g) (stream_updates J event)\<rparr>"
proof -
  have topics: "ev_topic event = ORDER_TOPIC \<or> starts_with ''order.'' (ev_topic event) \<longleftrightarrow> on_topic ''order'' event"
    "ev_topic event = EXECUTION_TOPIC \<or> starts_with ''execution.'' (ev_topic event) \<longleftrightarrow> on_topic ''execution'' event"
    by (simp_all add: on_topic_def ORDER_TOPIC_def EXECUTION_TOPIC_def)
  have cbs: "pm_orderUpdateCB (installed g) \<noteq> None" "pm_executionCB (installed g) \<noteq> None"
    by (simp_all add: installed_def manager_setExecutionCallback_def manager_setOrderUpdateCallback_def)
  consider (order) "on_topic ''order'' event" "\<not> on_topic ''execution'' event"
    | (execution) "on_topic ''execution'' event" "\<not> on_topic ''order'' event"
    | (other) "\<not> on_topic ''order'' event" "\<not> on_topic ''execution'' event"
    using topic_apart by blast
  then show ?thesis
    unfolding private_message_def onPrivateEvent_def topics
    by cases (simp_all add: receive_orders receive_executions dispatched cbs parsed_called if_set_def
        stream_fills_def stream_updates_def map_filter_simps)
qed

lemma hear_eq:
  "hear J events g = g\<lparr>gw_fills := gw_fills g @ if_set (gw_fillCB g) (concat (map (stream_fills J) events)),
     gw_updates := gw_updates g @ if_set (gw_orderUpdateCB g) (concat (map (stream_updates J) events))\<rparr>"
  unfolding hear_def
  by (induction events arbitrary: g) (auto simp: private_message_eq if_set_def)

section \<open>Steps of the gateway\<close>

text \<open>
  While \<open>start\<close> waits, the io thread of the private stream takes steps; the events they
  hand over are heard in their order. Likewise \<open>lastQuote\<close> and the public stream. The world
  behind the REST client changes as it likes between the calls.
\<close>

inductive gstep ::
  "'j jops \<Rightarrow> ('j, 'w) net \<Rightarrow> (double \<Rightarrow> string) \<Rightarrow> (string \<Rightarrow> string list) \<Rightarrow>
   ('j, 'w) gateway \<Rightarrow> ('j, 'w) gateway \<Rightarrow> bool" for J N F split where
  set_order_update: "gstep J N F split g (setOrderUpdateCallback cb1 g)"
| set_fill: "gstep J N F split g (setFillCallback cb2 g)"
| set_quote: "gstep J N F split g (setQuoteCallback cb3 g)"
| start: "(\<And>n c. (io_step J)\<^sup>*\<^sup>* c (io n c)) \<Longrightarrow>
    Gateway.start J N (\<lambda>n m. m\<lparr>pm_client := io n (pm_client m)\<rparr>) g = Some (r, g') \<Longrightarrow>
    gstep J N F split g (hear J (news (pm_client (gw_private g)) (pm_client (gw_private g'))) g')"
| instrument_spec: "instrumentSpec J N symbol g = Some (ri, g') \<Longrightarrow> gstep J N F split g g'"
| refresh: "refreshInstruments J N g = Some (r, g') \<Longrightarrow> gstep J N F split g g'"
| subscribe: "(\<And>p. (pio J split)\<^sup>*\<^sup>* p (during p)) \<Longrightarrow> subscribeQuotes J N during symbol g = Some (r, g')
    \<Longrightarrow> gstep J N F split g g'"
| unsubscribe: "unsubscribeQuotes symbol g = Some (r, g') \<Longrightarrow> gstep J N F split g g'"
| last_quote: "(\<And>n p. (pio J split)\<^sup>*\<^sup>* p (iop n p)) \<Longrightarrow> lastQuote J N iop symbol g = Some (rq, g')
    \<Longrightarrow> gstep J N F split g g'"
| submit: "submitPostOnlyLimit J N cid symbol side qty price reduceOnly g = Some (r, g') \<Longrightarrow> gstep J N F split g g'"
| amend: "amendPrice J N cid symbol price g = Some (r, g') \<Longrightarrow> gstep J N F split g g'"
| cancel: "cancel J N F cid symbol g = Some (rb, g') \<Longrightarrow> gstep J N F split g g'"
| reduce: "submitReduceOnlyMarket J N cid symbol side qty g = Some (r, g') \<Longrightarrow> gstep J N F split g g'"
| strays: "cancelStrayOrders J N F pre settleCoin g = Some (rn, g') \<Longrightarrow> gstep J N F split g g'"
| private_stream: "io_step J (pm_client (gw_private g)) c \<Longrightarrow> gstep J N F split g (private_io J c g)"
| public_stream: "pio J split (gw_public g) p \<Longrightarrow> gstep J N F split g (g\<lparr>gw_public := p\<rparr>)"
| world: "gstep J N F split g (g\<lparr>gw_rest := (gw_rest g)\<lparr>r_world := w\<rparr>\<rparr>)"

definition public_endpoint :: "Environment \<Rightarrow> string \<times> string \<times> string" where
  "public_endpoint envt =
     (if envt = Testnet then ''stream-testnet.bybit.com'' else ''stream.bybit.com'', ''443'', ''/v5/public/linear'')"

text \<open>A well-formed gateway; \<open>up\<close> is that of its private stream.\<close>

definition gateway_ok ::
  "'j jops \<Rightarrow> string \<times> string \<Rightarrow> bool \<Rightarrow> Environment \<Rightarrow> int \<Rightarrow> ('j, 'w) gateway \<Rightarrow> bool" where
  "gateway_ok J cred up envt idx g \<longleftrightarrow>
     stream_ok J (wsPrivateHostForEnvironment envt, ''443'', ''/v5/private'') cred up (pm_client (gw_private g)) \<and>
     public_ok J (public_endpoint envt) 1 60 (gw_public g) \<and>
     gw_positionIdx g = idx \<and>
     (\<forall>symbol spec. gw_specCache g symbol = Some spec \<longrightarrow> sp_symbol spec = symbol)"

lemma gateway_ok_simps [simp]:
  "gateway_ok J cred up envt idx (g\<lparr>gw_rest := r\<rparr>) = gateway_ok J cred up envt idx g"
  "gateway_ok J cred up envt idx (g\<lparr>gw_fills := fs\<rparr>) = gateway_ok J cred up envt idx g"
  "gateway_ok J cred up envt idx (g\<lparr>gw_updates := us\<rparr>) = gateway_ok J cred up envt idx g"
  "gateway_ok J cred up envt idx (setOrderUpdateCallback cb1 g) = gateway_ok J cred up envt idx g"
  "gateway_ok J cred up envt idx (setFillCallback cb2 g) = gateway_ok J cred up envt idx g"
  "gateway_ok J cred up envt idx (setQuoteCallback cb3 g) = gateway_ok J cred up envt idx g"
  "gateway_ok J cred up envt idx (hear J' events g) = gateway_ok J cred up envt idx g"
  by (simp_all add: gateway_ok_def setOrderUpdateCallback_def setFillCallback_def setQuoteCallback_def hear_eq)

lemma gateway_init_ok: "gateway_ok J (key, secret) False envt idx (gateway_init r key secret envt idx)"
  by (simp add: gateway_ok_def gateway_init_def stream_ok_def public_ok_def manager_setLoggerCallback_def
      manager_init_def client_setCredentials_def client_setEndpoint_def client_setDataEventCallback_def
      client_setLoggerCallback_def client_init_def client_ok_def BYBIT_WS_PRIVATE_PORT_def BYBIT_WS_PRIVATE_PATH_def
      setTickerUpdateCallback_def setTimeout_def public_setLoggerCallback_def public_init_def public_endpoint_def
      quotes_ok_def Let_def)

lemma rest_call_ok [intro, simp]: "holdsP (gateway_ok J cred up envt idx) (rest_call m)"
  unfolding rest_call_def by (rule holdsP_zoomP [where K = "\<lambda>_. True"]) (auto simp: holdsP_def)

lemma on_public_ok:
  "holdsP (public_ok J (public_endpoint envt) 1 60) m \<Longrightarrow> holdsP (gateway_ok J cred up envt idx) (on_public m)"
  unfolding on_public_def by (erule holdsP_zoomP) (simp_all add: gateway_ok_def)

lemma emit_fill_ok [intro, simp]: "holdsP (gateway_ok J cred up envt idx) (emit_fill cb fill)"
  by (auto simp: holdsP_def emit_fill_def)

lemma forEach_ok: "(\<And>x. holdsP I (f x)) \<Longrightarrow> holdsP I (forEach f xs)"
  by (induction xs) auto

lemma private_ok:
  "gateway_ok J cred up envt idx g \<Longrightarrow>
   (\<And>ep. stream_ok J ep cred up (pm_client (gw_private g)) \<Longrightarrow> stream_ok J ep cred up' (pm_client m)) \<Longrightarrow>
   gateway_ok J cred up' envt idx (g\<lparr>gw_private := m\<rparr>)"
  by (simp add: gateway_ok_def)

lemma requireEventStream_ok [intro, simp]: "holdsP (gateway_ok J cred up envt idx) (requireEventStream opn)"
  by (auto simp: holdsP_def requireEventStream_def split_beta intro!: private_ok isLive_ok)

lemma reemit_ok [intro, simp]: "holdsP (gateway_ok J cred up envt idx) (reemit cb cid symbol xs)"
  unfolding reemit_def by (rule forEach_ok) simp

lemma reconcile_ok [intro, simp]: "holdsP (gateway_ok J cred up envt idx) (reconcileMissedFills J' N F cid symbol)"
  unfolding reconcileMissedFills_def by (auto simp: Let_def intro!: holdsP_bindP holdsP_catchP split: option.split)

lemma submit_ok: "holdsP (gateway_ok J cred up envt idx) (submitPostOnlyLimit J' N cid symbol side qty price reduceOnly)"
  unfolding submitPostOnlyLimit_def by (intro holdsP_bindP holdsP_catchP) simp_all

lemma amend_ok: "holdsP (gateway_ok J cred up envt idx) (amendPrice J' N cid symbol price)"
  unfolding amendPrice_def by (intro holdsP_bindP holdsP_catchP) simp_all

lemma cancel_ok [intro, simp]: "holdsP (gateway_ok J cred up envt idx) (cancel J' N F cid symbol)"
  unfolding cancel_def by (intro holdsP_bindP holdsP_catchP) (auto split: exn.split)

lemma reduce_ok: "holdsP (gateway_ok J cred up envt idx) (submitReduceOnlyMarket J' N cid symbol side qty)"
  unfolding submitReduceOnlyMarket_def by (intro holdsP_bindP holdsP_catchP) simp_all

lemma strayLoop_ok: "holdsP (gateway_ok J cred up envt idx) (strayLoop J' N F pre n orders)"
  by (induction orders arbitrary: n) (auto intro!: holdsP_bindP holdsP_catchP split: exn.split)

lemma strays_ok: "holdsP (gateway_ok J cred up envt idx) (cancelStrayOrders J' N F pre settleCoin)"
  unfolding cancelStrayOrders_def by (intro holdsP_bindP strayLoop_ok) simp

lemma specAttempts_ok: "holdsP (gateway_ok J cred up envt idx) (specAttempts J' N symbol forces)"
proof (induction forces)
  case (Cons force forces)
  have "holdsP (gateway_ok J cred up envt idx)
    (modifyP (\<lambda>g. g\<lparr>gw_specCache := (gw_specCache g)(symbol \<mapsto> spec_of symbol inst)\<rparr>))" for inst
    by (rule holdsP_modifyP) (auto simp: gateway_ok_def spec_of_def)
  with Cons show ?case by (auto intro!: holdsP_bindP split: option.split)
qed (simp add: holdsP_def)

lemma instrumentSpec_ok: "holdsP (gateway_ok J cred up envt idx) (instrumentSpec J' N symbol)"
  unfolding instrumentSpec_def
  by (auto simp del: specAttempts.simps intro!: holdsP_bindP specAttempts_ok split: option.split)

lemma refresh_instruments_ok: "holdsP (gateway_ok J cred up envt idx) (refreshInstruments J' N)"
  unfolding refreshInstruments_def by (intro holdsP_bindP holdsP_modifyP) (auto simp: gateway_ok_def)

lemma awaitLive_ok:
  assumes "\<And>n c. (io_step J)\<^sup>*\<^sup>* c (io n c)"
  shows "holdsP (gateway_ok J cred up envt idx) (awaitLive (\<lambda>n m. m\<lparr>pm_client := io n (pm_client m)\<rparr>) n)"
  unfolding holdsP_def
proof (intro allI impI)
  fix g r g'
  assume "gateway_ok J cred up envt idx g" "awaitLive (\<lambda>n m. m\<lparr>pm_client := io n (pm_client m)\<rparr>) n g = Some (r, g')"
  then show "gateway_ok J cred up envt idx g'"
  proof (induction n arbitrary: g)
    case (Suc n)
    obtain live m where l: "isLive (gw_private g) = (live, m)" by fastforce
    have m: "stream_ok J ep cred up (pm_client m)" if "stream_ok J ep cred up (pm_client (gw_private g))" for ep
      using isLive_ok [OF that] l by simp
    show ?case
    proof (cases live)
      case True
      with Suc.prems l m show ?thesis by (auto intro!: private_ok)
    next
      case False
      have "gateway_ok J cred up envt idx (g\<lparr>gw_private := m\<lparr>pm_client := io n (pm_client m)\<rparr>\<rparr>)"
        using Suc.prems(1) m by (auto intro!: private_ok stream_ok_ios [OF assms])
      with False Suc l show ?thesis by simp
    qed
  qed simp
qed

lemma start_ok:
  assumes "\<And>n c. (io_step J)\<^sup>*\<^sup>* c (io n c)"
  shows "holdsP (gateway_ok J cred up envt idx) (Gateway.start J' N (\<lambda>n m. m\<lparr>pm_client := io n (pm_client m)\<rparr>))"
  unfolding Gateway.start_def
  by (intro holdsP_bindP holdsP_modifyP awaitLive_ok assms) (auto intro!: private_ok intro: stream_ok_down connect_ok)

text \<open>Once \<open>start\<close> has returned, the private stream is up.\<close>

lemma start_up:
  assumes "Gateway.start J' N (\<lambda>n m. m\<lparr>pm_client := io n (pm_client m)\<rparr>) g = Some (Inr (), g')"
    and "gateway_ok J cred up envt idx g" and "\<And>n c. (io_step J)\<^sup>*\<^sup>* c (io n c)"
  shows "gateway_ok J cred True envt idx g'"
proof -
  obtain x g1 where "rest_call (getInstrumentsInfo J' N linear [] True []) g = Some (Inr x, g1)"
    and a: "awaitLive (\<lambda>n m. m\<lparr>pm_client := io n (pm_client m)\<rparr>) 100
      (g1\<lparr>gw_private := connect (gw_private g1)\<rparr>) = Some (Inr (), g')"
    using assms(1) by (auto simp: Gateway.start_def bindP_cases)
  with assms(2) have "gateway_ok J cred up envt idx g1" by (blast dest: holdsP_D [OF rest_call_ok])
  then have "gateway_ok J cred True envt idx (g1\<lparr>gw_private := connect (gw_private g1)\<rparr>)"
    by (rule private_ok) (rule connect_ok)
  with a show ?thesis by (rule holdsP_D [OF awaitLive_ok [OF assms(3)]])
qed

lemma gstep_ok:
  assumes "gstep J N F split g g'" and "gateway_ok J cred up envt idx g"
  shows "gateway_ok J cred up envt idx g'"
  using assms
proof cases
  case (start io r g1)
  with start_ok [of J io cred up envt idx J N] assms(2) show ?thesis by (auto dest: holdsP_D)
next
  case (subscribe during symbol r)
  have "holdsP (gateway_ok J cred up envt idx) (subscribeQuotes J N during symbol)"
    unfolding subscribeQuotes_def by (intro on_public_ok subscribe_ticker_ok [OF subscribe(1)])
  with subscribe assms(2) show ?thesis by (auto dest: holdsP_D)
next
  case (unsubscribe symbol r)
  have "holdsP (gateway_ok J cred up envt idx) (unsubscribeQuotes symbol :: ('a, 'b, unit) gproc)"
    unfolding unsubscribeQuotes_def by (intro on_public_ok holdsP_modifyP unsubscribe_ticker_ok)
  with unsubscribe assms(2) show ?thesis by (auto dest: holdsP_D)
next
  case (last_quote iop symbol rq)
  have "holdsP (gateway_ok J cred up envt idx) (lastQuote J N iop symbol)"
    unfolding lastQuote_def by (intro holdsP_bindP on_public_ok read_ticker_ok [OF last_quote(1)]) simp
  with last_quote assms(2) show ?thesis by (auto dest: holdsP_D)
next
  case (private_stream c)
  have "gateway_ok J cred up envt idx (g\<lparr>gw_private := (gw_private g)\<lparr>pm_client := c\<rparr>\<rparr>)"
    by (rule private_ok [OF assms(2)]) (simp add: stream_ok_io [OF _ private_stream(2)])
  then show ?thesis by (simp add: private_stream(1) private_io_def)
next
  case (public_stream p)
  with assms(2) show ?thesis by (auto simp: gateway_ok_def intro: pio_ok)
next
  case instrument_spec
  then show ?thesis using assms(2) by (rule holdsP_D [OF instrumentSpec_ok])
next
  case refresh
  then show ?thesis using assms(2) by (rule holdsP_D [OF refresh_instruments_ok])
next
  case submit
  then show ?thesis using assms(2) by (rule holdsP_D [OF submit_ok])
next
  case amend
  then show ?thesis using assms(2) by (rule holdsP_D [OF amend_ok])
next
  case cancel
  then show ?thesis using assms(2) by (rule holdsP_D [OF cancel_ok])
next
  case reduce
  then show ?thesis using assms(2) by (rule holdsP_D [OF reduce_ok])
next
  case strays
  then show ?thesis using assms(2) by (rule holdsP_D [OF strays_ok])
qed (use assms(2) in simp_all)

lemma gsteps_ok: "(gstep J N F split)\<^sup>*\<^sup>* g g' \<Longrightarrow> gateway_ok J cred up envt idx g \<Longrightarrow> gateway_ok J cred up envt idx g'"
  by (induction rule: rtranclp_induct) (auto intro: gstep_ok)

lemma run_ok:
  assumes "(gstep J N F split)\<^sup>*\<^sup>* (gateway_init r key secret envt idx) g"
  shows "gateway_ok J (key, secret) False envt idx g"
  using gsteps_ok [OF assms gateway_init_ok] .

section \<open>Properties\<close>

text \<open>
  C4. Every state of a gateway is well-formed, whatever is called, whatever arrives and however the
  calls and the two io threads interleave. Its sessions are reachable ones, the private one on the
  private stream of its environment and with its credentials, the public one without any; the
  position index is the one it was made with; a cached specification is of the symbol it is
  cached under; a quote is cached under an upper-case symbol and was not received in the future.
\<close>

theorem gateway_well_formed:
  assumes "(gstep J N F split)\<^sup>*\<^sup>* (gateway_init r key secret envt idx) g"
  shows "(case cl_session (pm_client (gw_private g)) of None \<Rightarrow> True | Some s \<Rightarrow>
      reachable J s \<and> host s = wsPrivateHostForEnvironment envt \<and> path s = ''/v5/private'' \<and>
      (if key \<noteq> [] \<and> secret \<noteq> [] then authRequired s \<and> apiKey s = key \<and> apiSecret s = secret
       else \<not> authRequired s)) \<and>
    (case cl_session (pub_client (gw_public g)) of None \<Rightarrow> True | Some s \<Rightarrow>
      reachable J s \<and> (host s, port s, path s) = public_endpoint envt \<and> \<not> authRequired s) \<and>
    gw_positionIdx g = idx \<and>
    (case gw_specCache g symbol of None \<Rightarrow> True | Some spec \<Rightarrow> sp_symbol spec = symbol) \<and>
    (case pub_tickers (gw_public g) symbol of None \<Rightarrow> True | Some t \<Rightarrow>
      toUpper symbol = symbol \<and> et_receivedTimestamp t \<le> pub_now (gw_public g))"
  using run_ok [OF assms]
  by (auto simp: gateway_ok_def stream_ok_def public_ok_def quotes_ok_def client_ok_def settings_def session_cred_def
      split: option.splits)

lemma live_session:
  assumes "stream_ok J ep (key, secret) up (pm_client m)" and "key \<noteq> []" and "secret \<noteq> []" and "fst (isLive m)"
  shows "\<exists>s. cl_session (pm_client m) = Some s \<and> connected s \<and> authenticated s \<and> \<not> reconnectScheduled s \<and>
    isSubscriptionConfirmed ''order'' s \<and> isSubscriptionConfirmed ''execution'' s"
proof -
  have "client_isSubscriptionConfirmed ''order'' (pm_client m) \<and> client_isSubscriptionConfirmed ''execution'' (pm_client m)"
    using wired_topics.ensure_spec [OF assms(1) topics_nonempty] assms(4)
    by (simp add: isLive_eq ORDER_TOPIC_def EXECUTION_TOPIC_def)
  then obtain s where s: "cl_session (pm_client m) = Some s" "isSubscriptionConfirmed ''order'' s"
    "isSubscriptionConfirmed ''execution'' s"
    by (auto simp: client_isSubscriptionConfirmed_def split: option.splits)
  have "books_ok s" "authRequired s"
    using assms(1-3) s(1) reachable_inv [of J s]
    by (auto simp: stream_ok_def client_ok_def inv_def settings_def session_cred_def)
  with s show ?thesis by (auto simp: books_ok_def isSubscriptionConfirmed_def)
qed

text \<open>
  C3. An order goes out only when, at the time of the call, its fills can be heard. In every state of a gateway with
  credentials, \<open>submitPostOnlyLimit\<close> and \<open>amendPrice\<close> either end with the \<open>Throttled\<close> error and
  have made no request, or the private session is connected, authenticated and not about to
  reconnect, with the order and the execution topic confirmed.
\<close>

theorem orders_need_live_stream:
  assumes "(gstep J N F split)\<^sup>*\<^sup>* (gateway_init rest key secret envt idx) g" and "key \<noteq> []" and "secret \<noteq> []"
    and "submitPostOnlyLimit J N cid symbol side qty price reduceOnly g = Some (r, g')
      \<or> amendPrice J N cid symbol price g = Some (r, g')"
  shows "(\<exists>opn. r = Inl (GatewayError Throttled (gated_text opn))) \<and> gw_rest g' = gw_rest g \<or>
    (\<exists>s. cl_session (pm_client (gw_private g)) = Some s \<and> connected s \<and> authenticated s \<and> \<not> reconnectScheduled s \<and>
       isSubscriptionConfirmed ''order'' s \<and> isSubscriptionConfirmed ''execution'' s)"
proof (cases "fst (isLive (gw_private g))")
  case True
  have "stream_ok J (wsPrivateHostForEnvironment envt, ''443'', ''/v5/private'') (key, secret) False (pm_client (gw_private g))"
    using run_ok [OF assms(1)] by (simp add: gateway_ok_def)
  from live_session [OF this assms(2,3) True] show ?thesis by blast
next
  case False
  with assms(4) show ?thesis
    by (auto simp: submitPostOnlyLimit_def amendPrice_def requireEventStream_def bindP_def split_beta)
qed

text \<open>The message, if any, that a handler of the session reads for the data callback.\<close>

definition message_read :: "'j jops \<Rightarrow> env \<Rightarrow> op \<Rightarrow> 'j session \<Rightarrow> 'j Event option" where
  "message_read J e x s =
     (if x = Read (generation s) \<and> ec e = None then
        (case j_parse J (message e) of
           Inl _ \<Rightarrow> None
         | Inr json \<Rightarrow>
             if j_is_object J json \<and> \<not> isApiControlMsg J json then
               (case Event_fromJson J json (Event_init J) of Inl _ \<Rightarrow> None | Inr event \<Rightarrow> Some event)
             else None)
      else None)"

abbreviation the_list :: "'e option \<Rightarrow> 'e list" where
  "the_list opt \<equiv> (case opt of None \<Rightarrow> [] | Some v \<Rightarrow> [v])"

lemma processed_delivered:
  assumes "dataEventCB s \<noteq> None" and "ec e = None"
  shows "case processMessage J e (generation s) s of
      Inl _ \<Rightarrow> message_read J e (Read (generation s)) s = None
    | Inr s' \<Rightarrow> delivered s' = delivered s @ the_list (message_read J e (Read (generation s)) s)"
proof (cases "j_parse J (message e)")
  case (Inr json)
  show ?thesis
  proof (cases "j_is_object J json \<and> \<not> isApiControlMsg J json")
    case True
    with Inr assms show ?thesis
      by (auto simp: processMessage_def bindR_def message_read_def deliver_def Let_def split: sum.split option.split)
  next
    case False
    with Inr assms(2) control_settings [of J e "generation s" json s] show ?thesis
      by (auto simp: processMessage_def bindR_def message_read_def split: sum.split)
  qed
qed (simp add: processMessage_def bindR_def message_read_def)

lemma complete_delivered:
  assumes "dataEventCB s \<noteq> None"
  shows "delivered (complete J e x s) = delivered s @ the_list (message_read J e x s)"
proof (cases "x = Read (generation s)")
  case x: True
  let ?s = "s\<lparr>ops := remove1 x (ops s)\<rparr>"
  have run: "complete J e x s = onRead J e (generation s) ?s" by (simp add: x complete_def guarded_def)
  show ?thesis
  proof (cases "ec e")
    case None
    have m: "message_read J e (Read (generation ?s)) ?s = message_read J e x s" by (simp add: message_read_def x)
    show ?thesis
    proof (cases "processMessage J e (generation s) ?s")
      case (Inl y)
      with processed_delivered [of ?s e J] assms None m have "message_read J e x s = None" by simp
      then show ?thesis unfolding run using None Inl by (cases y) (simp_all add: onRead_def)
    next
      case (Inr s')
      with processed_delivered [of ?s e J] assms None m show ?thesis unfolding run by (simp add: onRead_def)
    qed
  qed (simp add: run onRead_def message_read_def)
next
  case False
  then show ?thesis using complete_settings [of J e x s] by (simp add: message_read_def)
qed

text \<open>
  C6. What a message of the private stream is worth. In every state of a running gateway, a handler of
  the private session hands over exactly the message that it reads on the current connection, if it
  completes without an error and the message is an event and no control message; the frame callback and the
  end of the io thread hand over nothing. With the callbacks set, the
  core is told exactly the fills and the order updates in that message, each row that parses once and in order;
  a row that does not parse, or a callback that throws, costs no other row; nothing else in the
  gateway changes.
\<close>

theorem stream_message:
  assumes "(gstep J N F split)\<^sup>*\<^sup>* (gateway_init rest key secret envt idx) g"
    and "cl_session (pm_client (gw_private g)) = Some s"
  shows "let client = pm_client (gw_private g);
      left = \<lambda>c. g\<lparr>gw_private := (gw_private g)\<lparr>pm_client := c\<rparr>\<rparr>;
      c = client_io J e x client;
      fills = (case message_read J e x s of None \<Rightarrow> [] | Some event \<Rightarrow> stream_fills J event);
      updates = (case message_read J e x s of None \<Rightarrow> [] | Some event \<Rightarrow> stream_updates J event) in
    private_io J c g = (left c)\<lparr>
      gw_fills := gw_fills g @ (if gw_fillCB g = None then [] else fills),
      gw_updates := gw_updates g @ (if gw_orderUpdateCB g = None then [] else updates)\<rparr> \<and>
    (let pong = client\<lparr>cl_session := Some (onPongFrame e s)\<rparr> in private_io J pong g = left pong) \<and>
    private_io J (client_io_ends client) g = left (client_io_ends client)"
proof -
  have "dataEventCB s \<noteq> None"
    using run_ok [OF assms(1)] assms(2) by (auto simp: gateway_ok_def stream_ok_def settings_def)
  from complete_delivered [OF this] assms(2)
  have "news (pm_client (gw_private g)) (client_io J e x (pm_client (gw_private g))) = the_list (message_read J e x s)"
    by (simp add: news_def heard_def client_io_def)
  then have "private_io J (client_io J e x (pm_client (gw_private g))) g =
    hear J (the_list (message_read J e x s)) (g\<lparr>gw_private := (gw_private g)\<lparr>pm_client := client_io J e x (pm_client (gw_private g))\<rparr>\<rparr>)"
    by (simp add: private_io_def)
  then show ?thesis
    using assms(2)
    by (auto simp: Let_def hear_eq if_set_def private_io_def news_def heard_def onPongFrame_def client_io_ends_def
        split: option.split)
qed

text \<open>
  In a running gateway a quote is never from the future and never older than a minute.
\<close>

theorem running_quote_is_fresh:
  assumes "(gstep J N F split)\<^sup>*\<^sup>* (gateway_init rest key secret envt idx) g"
    and "\<And>n p. (pio J split)\<^sup>*\<^sup>* p (io n p)"
    and "lastQuote J N io symbol g = Some (Inr (Some q), g')"
  shows "qt_receivedAt q \<le> pub_now (gw_public g') \<and> pub_now (gw_public g') - qt_receivedAt q \<le> 60000"
proof -
  let ?p = "(gw_public g)\<lparr>pub_rest := Some (gw_rest g)\<rparr>"
  obtain t p where read: "readEventTicker J N io symbol ?p = Some (Inr (Some t), p)"
    and q: "q = toQuote t" and now: "pub_now (gw_public g') = pub_now p"
    using assms(3) by (auto simp: lastQuote_def bindP_cases on_public_def zoomP_eq_Some)
  have "public_ok J (public_endpoint envt) 1 60 ?p" using run_ok [OF assms(1)] by (simp add: gateway_ok_def)
  then have p: "public_ok J (public_endpoint envt) 1 60 p" using holdsP_D [OF read_ticker_ok [OF assms(2)] read] by blast
  have cached: "pub_tickers p (toUpper symbol) = Some t" and fresh: "isStale p t \<Longrightarrow> et_receivedTimestamp t = pub_now p"
    using quote_read_is_fresh [where J = J and N = N and io = io and pair = symbol and s = ?p] read by (auto split: if_splits)
  have "et_receivedTimestamp t \<le> pub_now p" "pub_maxTickAge p = 60" using p cached by (auto simp: public_ok_def quotes_ok_def)
  moreover have "pub_now p - et_receivedTimestamp t \<le> 60000"
  proof (cases "isStale p t")
    case False
    with \<open>pub_maxTickAge p = 60\<close> show ?thesis by (simp add: isStale_def)
  qed (simp add: fresh)
  ultimately show ?thesis by (simp add: q toQuote_def now)
qed

text \<open>
  Once the destructor has run, no handler of either stream runs any more, so nothing is delivered
  into what is destroyed next; and a reader of quotes that was still waiting returns at once
  without one.
\<close>

lemma destroyed_is_still: "\<not> io_step J (client_destroy c) c'"
  by (auto simp: client_destroy_def elim!: io_stepE split: option.splits)

theorem destroyed_gateway_is_silent:
  "\<not> io_step J (pm_client (gw_private (gateway_destroy g))) c \<and>
   \<not> io_step J (pub_client (gw_public (gateway_destroy g))) c \<and>
   pollTicker iop k symbol deadline (gw_public (gateway_destroy g)) = Some (Inr (Some None), gw_public (gateway_destroy g))"
  using destroyed_is_still
  by (auto simp: gateway_destroy_def manager_destroy_def public_destroy_def Let_def pollTicker.simps)

end
