(* ===== verification/Ws_Session_Heal.thy ===== *)
theory Ws_Session_Heal
  imports Topic_Book
begin

text \<open>
  The stream heals itself. From every reachable state of a session that was not closed, the
  operations it has pending can complete such that it is connected again, authenticated if it has
  credentials, and every topic that is wanted is confirmed: nothing has to be called, and no topic
  has to be asked for again.
\<close>

section \<open>Handlers\<close>

definition handler_step :: "'j jops \<Rightarrow> 'j session \<Rightarrow> 'j session \<Rightarrow> bool" where
  "handler_step J s s' \<longleftrightarrow> (\<exists>x e. x \<in> set (ops s) \<and> timer_ok x e s \<and> s' = complete J e x s)"

lemma handler_wstep: "handler_step J s s' \<Longrightarrow> wstep J s s'"
  by (auto simp: handler_step_def intro: wstep.completion)

lemma handlers_reachable: "(handler_step J)\<^sup>*\<^sup>* s s' \<Longrightarrow> reachable J s \<Longrightarrow> reachable J s'"
  by (induction rule: rtranclp_induct) (auto intro: reachable.step handler_wstep)

abbreviation wanted :: "'j session \<Rightarrow> string set" where
  "wanted s \<equiv> {t. isSubscribed t s}"

lemma complete_wanted:
  assumes "books_ok s" and "x \<noteq> Read (generation s)"
  shows "wanted (complete J e x s) = wanted s"
  using complete_book [OF assms(1), of J e x] assms(2) by (auto simp: quiet_or_lost_def book_of_def)

section \<open>What the venue can say\<close>

definition says :: "'j jops \<Rightarrow> string \<Rightarrow> string \<Rightarrow> string \<Rightarrow> bool" where
  "says J m operation reqId \<longleftrightarrow> (\<exists>json u1 u2 u3 u4 r. j_parse J m = Inr json \<and> j_is_object J json \<and> isApiControlMsg J json \<and>
     readString J json ''op'' [] = Inr (u1, operation) \<and> readBool J json ''success'' True = Inr (u2, True) \<and>
     readString J json ''ret_msg'' [] = Inr (u3, r) \<and> r \<noteq> ''pong'' \<and> readString J json ''req_id'' [] = Inr (u4, reqId))"

text \<open>There is a text for a positive answer to \<^verbatim>\<open>auth\<close>, and for one to any subscribe op.\<close>

definition venue_can_say_yes :: "'j jops \<Rightarrow> bool" where
  "venue_can_say_yes J \<longleftrightarrow> (\<exists>m. says J m ''auth'' []) \<and> (\<forall>reqId. \<exists>m. says J m ''subscribe'' reqId)"

section \<open>Up and reading\<close>

definition reading :: "'j session \<Rightarrow> bool" where
  "reading s \<longleftrightarrow> connected s \<and> Read (generation s) \<in> set (ops s) \<and> \<not> userClosed s \<and> \<not> reconnectScheduled s"

lemma read_step: "reading s \<Longrightarrow> handler_step J s (complete J (reads m) (Read (generation s)) s)"
  by (auto simp: handler_step_def reading_def intro!: exI)

lemma yes_to_auth:
  assumes "says J m ''auth'' reqId"
  shows "processMessage J (reads m) g s = Inr (flushTopics J (reads m) (log_line Info ''Bybit WS authenticated''
       (s\<lparr>authenticated := True, authenticatedFlag := True, authDeadline := None, reconnectDelayS := 1\<rparr>)))"
  using assms by (auto simp: says_def processMessage_def handleApiControlMsg_def reads_def)

lemma yes_to_subscribe:
  assumes "says J m ''subscribe'' reqId" and "answered_op reqId (inflightSubscribes s) = Inr (Some key)"
  shows "processMessage J (reads m) g s = Inr (s\<lparr>inflightSubscribes := AList.delete key (inflightSubscribes s)\<rparr>)"
  using assms by (auto simp: says_def processMessage_def handleApiControlMsg_def handleSubscribeAck_def reads_def)

lemma read_yes:
  assumes "reading s" and "processMessage J (reads m) (generation s) (s\<lparr>ops := remove1 (Read (generation s)) (ops s)\<rparr>) = Inr s'"
    and "connected s'" and "\<not> reconnectScheduled s'" and "generation s' = generation s" and "\<not> userClosed s'"
  shows "reading (complete J (reads m) (Read (generation s)) s)
    \<and> wanted (complete J (reads m) (Read (generation s)) s) = wanted s'
    \<and> pendingTopics (complete J (reads m) (Read (generation s)) s) = pendingTopics s'
    \<and> inflightSubscribes (complete J (reads m) (Read (generation s)) s) = inflightSubscribes s'
    \<and> authenticated (complete J (reads m) (Read (generation s)) s) = authenticated s'
    \<and> authRequired (complete J (reads m) (Read (generation s)) s) = authRequired s'"
proof -
  have "complete J (reads m) (Read (generation s)) s = rearmRead (generation s) s'"
    using assms(2) by (simp add: complete_def guarded_def onRead_def reads_def calm_def)
  then show ?thesis using assms(3-6) by (simp add: rearmRead_def reading_def isSubscribed_def Let_def)
qed

text \<open>The answer to \<^verbatim>\<open>auth\<close>: everything that was pending is sent.\<close>

lemma read_auth:
  assumes "reading s" and "says J m ''auth'' reqId"
  shows "\<exists>s'. handler_step J s s' \<and> reading s' \<and> wanted s' = wanted s \<and> pendingTopics s' = [] \<and> authenticated s'"
proof -
  let ?s = "s\<lparr>ops := remove1 (Read (generation s)) (ops s)\<rparr>"
  let ?a = "log_line Info ''Bybit WS authenticated''
    (?s\<lparr>authenticated := True, authenticatedFlag := True, authDeadline := None, reconnectDelayS := 1\<rparr>)"
  let ?f = "flushTopics J (reads m) ?a"
  have "pendingTopics ?f = [] \<and> wanted ?f = wanted s"
    using assms(1) by (auto simp: flushTopics_def reading_def Let_def isSubscribed_def)
  with read_yes [OF assms(1) yes_to_auth [OF assms(2)]] read_step [OF assms(1), of J m] assms(1)
  show ?thesis by (intro exI [of _ "complete J (reads m) (Read (generation s)) s"]) (simp add: reading_def)
qed

text \<open>The answer to one subscribe op, and to all of them.\<close>

lemma read_ack:
  assumes "reading s" and "says J m ''subscribe'' (fst (hd (inflightSubscribes s)))" and "inflightSubscribes s \<noteq> []"
  shows "\<exists>s'. handler_step J s s' \<and> reading s' \<and> wanted s' = wanted s \<and> pendingTopics s' = pendingTopics s \<and>
    (authRequired s' \<and> \<not> authenticated s' \<longrightarrow> authRequired s \<and> \<not> authenticated s) \<and>
    length (inflightSubscribes s') < length (inflightSubscribes s)"
proof -
  let ?s = "s\<lparr>ops := remove1 (Read (generation s)) (ops s)\<rparr>"
  let ?k = "fst (hd (inflightSubscribes s))"
  have k: "?k \<in> fst ` set (inflightSubscribes s)" using assms(3) by simp
  then have "answered_op ?k (inflightSubscribes ?s) = Inr (Some ?k)" by (simp add: answered_op_def)
  note ack = yes_to_subscribe [OF assms(2) this]
  have "length (AList.delete ?k (inflightSubscribes s)) < length (inflightSubscribes s)"
    using k by (cases "inflightSubscribes s") (auto simp: AList.delete_eq intro: le_less_trans [OF length_filter_le])
  with read_yes [OF assms(1) ack] read_step [OF assms(1), of J m] assms(1)
  show ?thesis by (intro exI [of _ "complete J (reads m) (Read (generation s)) s"]) (simp add: reading_def)
qed

lemma all_acked:
  assumes "reading s" and "\<And>reqId. \<exists>m. says J m ''subscribe'' reqId"
  shows "\<exists>s'. (handler_step J)\<^sup>*\<^sup>* s s' \<and> reading s' \<and> wanted s' = wanted s \<and> pendingTopics s' = pendingTopics s \<and>
    (authRequired s' \<and> \<not> authenticated s' \<longrightarrow> authRequired s \<and> \<not> authenticated s) \<and> inflightSubscribes s' = []"
  using assms(1)
proof (induction "length (inflightSubscribes s)" arbitrary: s rule: less_induct)
  case less
  show ?case
  proof (cases "inflightSubscribes s = []")
    case False
    obtain m where "says J m ''subscribe'' (fst (hd (inflightSubscribes s)))" using assms(2) by blast
    from read_ack [OF less.prems this False] obtain t where t: "handler_step J s t" "reading t" "wanted t = wanted s"
      "pendingTopics t = pendingTopics s" "length (inflightSubscribes t) < length (inflightSubscribes s)"
      "authRequired t \<and> \<not> authenticated t \<longrightarrow> authRequired s \<and> \<not> authenticated s" by blast
    from less.hyps [OF t(5,2)] obtain s' where "(handler_step J)\<^sup>*\<^sup>* t s'" "reading s'" "wanted s' = wanted t"
      "pendingTopics s' = pendingTopics t" "inflightSubscribes s' = []"
      "authRequired s' \<and> \<not> authenticated s' \<longrightarrow> authRequired t \<and> \<not> authenticated t" by blast
    with t show ?thesis by (metis converse_rtranclp_into_rtranclp)
  qed (use less.prems in blast)
qed

section \<open>A fresh connection\<close>

definition can_read :: "'j jops \<Rightarrow> 'j session \<Rightarrow> bool" where
  "can_read J s \<longleftrightarrow> (\<exists>s'. (handler_step J)\<^sup>*\<^sup>* s s' \<and> wanted s' = wanted s \<and> reading s' \<and>
     (authRequired s' \<or> pendingTopics s' = []))"

lemma can_read_first:
  assumes "reachable J s" and "x \<in> set (ops s)" and "timer_ok x e s" and "x \<noteq> Read (generation s)"
    and "reachable J (complete J e x s) \<Longrightarrow> can_read J (complete J e x s)"
  shows "can_read J s"
proof -
  have step: "handler_step J s (complete J e x s)" using assms(2,3) by (auto simp: handler_step_def)
  have "reachable J (complete J e x s)" using assms(1) handler_wstep [OF step] by (rule reachable.step)
  from assms(5) [OF this] obtain s' where s': "(handler_step J)\<^sup>*\<^sup>* (complete J e x s) s'"
    "wanted s' = wanted (complete J e x s)" "reading s'" "authRequired s' \<or> pendingTopics s' = []"
    unfolding can_read_def by blast
  have "wanted (complete J e x s) = wanted s"
    using reachable_inv [OF assms(1)] by (intro complete_wanted assms(4)) (simp add: inv_def)
  with s' converse_rtranclp_into_rtranclp [OF step s'(1)] show ?thesis unfolding can_read_def by metis
qed

lemma handshake_reads:
  assumes "reachable J s" and "at_stage WsHandshake s"
  shows "reading (complete J calm (WsHandshake (generation s)) s) \<and>
    (authRequired (complete J calm (WsHandshake (generation s)) s) \<or>
     pendingTopics (complete J calm (WsHandshake (generation s)) s) = [])"
proof -
  have "chain (ops s) (generation s) = 1"
    using assms ops_okD(3) [of s] reachable_inv [OF assms(1)]
    by (auto simp: inv_def chain_def at_stage_def count_in_set)
  then have "\<not> reconnectScheduled s" using ops_okD(4) reachable_inv [OF assms(1)] by (auto simp: inv_def)
  with assms(2) show ?thesis
    by (auto simp: at_stage_def reading_def complete_def guarded_def onHandshake_def calm_def Let_def flushTopics_def)
qed

lemma chain_reads:
  assumes "reachable J s"
    and "at_stage Resolve s \<or> at_stage TcpConnect s \<or> at_stage TlsHandshake s \<or> at_stage WsHandshake s"
  shows "can_read J s"
proof -
  have w: "can_read J s" if "reachable J s" "at_stage WsHandshake s" for s :: "'a session"
    using handshake_reads [OF that] that
    by (intro can_read_first [of J s "WsHandshake (generation s)" calm]) (auto simp: at_stage_def can_read_def)
  have t: "can_read J s" if "reachable J s" "at_stage TlsHandshake s" for s :: "'a session"
    using that w [OF _ calm_chain(3) [OF that(2)]]
    by (intro can_read_first [of J s "TlsHandshake (generation s)" calm]) (auto simp: at_stage_def)
  have c: "can_read J s" if "reachable J s" "at_stage TcpConnect s" for s :: "'a session"
    using that t [OF _ calm_chain(2) [OF that(2)]]
    by (intro can_read_first [of J s "TcpConnect (generation s)" calm]) (auto simp: at_stage_def)
  have r: "can_read J s" if "reachable J s" "at_stage Resolve s" for s :: "'a session"
    using that c [OF _ calm_chain(1) [OF that(2)]]
    by (intro can_read_first [of J s "Resolve (generation s)" calm]) (auto simp: at_stage_def)
  from assms w t c r show ?thesis by blast
qed

text \<open>A connection that is up is given up first: its heartbeat finds that no pong has come for long.\<close>

lemma open_can_read:
  assumes "reachable J s" and "\<not> userClosed s"
  shows "can_read J s"
proof -
  have a: "alive s" and o: "ops_ok s" and b: "books_ok s" using reachable_inv [OF assms(1)] by (simp_all add: inv_def)
  have waiting: "can_read J s" if "reachable J s" "reconnectScheduled s" "\<not> userClosed s" for s :: "'a session"
  proof -
    have w: "ReconnectWait (generation s) \<in> set (ops s)"
      using ops_okD(8) [of s] reachable_inv [OF that(1)] that(2) by (simp add: count_in_set inv_def)
    show ?thesis
      by (rule can_read_first [OF that(1) w, of calm])
        (use chain_reads calm_start(2) [OF w that(3)] in \<open>auto simp: calm_def\<close>)
  qed
  from a assms(2) consider (start) "PostStart \<in> set (ops s)" | (chain) "chain (ops s) (generation s) = 1"
    | (wait) "reconnectScheduled s" | (up) "connected s" "PingWait (generation s) \<in> set (ops s)"
    by (auto simp: alive_def)
  then show ?thesis
  proof cases
    case start
    show ?thesis
      by (rule can_read_first [OF assms(1) start, of calm])
        (use chain_reads calm_start(1) [OF start assms(2)] in \<open>auto simp: calm_def\<close>)
  next
    case chain
    then have "at_stage Resolve s \<or> at_stage TcpConnect s \<or> at_stage TlsHandshake s \<or> at_stage WsHandshake s"
      using assms(2) by (auto simp: chain_def at_stage_def count_in_set)
    with assms(1) show ?thesis by (rule chain_reads)
  next
    case wait
    with assms show ?thesis by (rule_tac waiting)
  next
    case up
    let ?e = "calm\<lparr>steady := lastPongTime s + seconds 61\<rparr>"
    let ?s = "complete J ?e (PingWait (generation s)) s"
    have "\<not> reconnectScheduled s" using b up(1) by (auto simp: books_ok_def)
    then have "reconnectScheduled ?s \<and> \<not> userClosed ?s"
      using up(1) assms(2)
      by (simp add: complete_def onPingTimer_def calm_def Let_def seconds_def PONG_TIMEOUT_IN_S_def PING_INTERVAL_IN_S_def
          handleError_def)
    then show ?thesis
      by (intro can_read_first [OF assms(1) up(2), of ?e]) (auto simp: calm_def intro: waiting)
  qed
qed

section \<open>The stream heals\<close>

lemma session_heals:
  assumes "reachable J s" and "\<not> userClosed s" and "venue_can_say_yes J"
  shows "\<exists>s'. (handler_step J)\<^sup>*\<^sup>* s s' \<and> reading s' \<and> (authRequired s' \<longrightarrow> authenticated s') \<and>
    wanted s' = wanted s \<and> (\<forall>t. isSubscribed t s \<longrightarrow> isSubscriptionConfirmed t s')"
proof -
  obtain m where m: "says J m ''auth'' []" and ack: "\<And>reqId. \<exists>m. says J m ''subscribe'' reqId"
    using assms(3) by (auto simp: venue_can_say_yes_def)
  obtain s1 where s1: "(handler_step J)\<^sup>*\<^sup>* s s1" "wanted s1 = wanted s" "reading s1"
    "authRequired s1 \<or> pendingTopics s1 = []"
    using open_can_read [OF assms(1,2)] unfolding can_read_def by blast
  obtain s2 where s2: "(handler_step J)\<^sup>*\<^sup>* s1 s2" "wanted s2 = wanted s1" "reading s2" "pendingTopics s2 = []"
    "authRequired s2 \<longrightarrow> authenticated s2"
  proof (cases "authRequired s1")
    case True
    from read_auth [OF s1(3) m] show thesis by (blast intro: that)
  next
    case False
    with s1(3,4) show thesis by (intro that [of s1]) auto
  qed
  obtain s' where s': "(handler_step J)\<^sup>*\<^sup>* s2 s'" "wanted s' = wanted s2" "reading s'" "pendingTopics s' = []"
    "authRequired s' \<longrightarrow> authenticated s'" "inflightSubscribes s' = []"
    using all_acked [OF s2(3) ack] s2(4,5) by metis
  have "wanted s' = wanted s" using s1(2) s2(2) s'(2) by simp
  moreover have "isSubscriptionConfirmed t s' = isSubscribed t s'" for t
    using s'(4,6) by (simp add: isSubscriptionConfirmed_def isSubscribed_def)
  moreover have "(handler_step J)\<^sup>*\<^sup>* s s'" using s1(1) s2(1) s'(1) by (meson rtranclp_trans)
  ultimately show ?thesis using s'(3,5) by blast
qed

text \<open>
  C17. A session heals itself. From every reachable state of a session that was not closed, whatever
  errors, timeouts and rejections led there, the operations it has pending, and those they start, can
  complete such that it is connected and reading, authenticated if it has credentials, wants the
  same topics and has every one of them confirmed. No call is needed: the topics are replayed on the new
  connection. It takes a venue whose acknowledgements of \<^verbatim>\<open>auth\<close> and of
  \<^verbatim>\<open>subscribe\<close> the JSON library reads.
\<close>

theorem session_heals_itself:
  assumes "reachable J s" and "\<not> userClosed s" and "venue_can_say_yes J"
  shows "\<exists>s'. (handler_step J)\<^sup>*\<^sup>* s s' \<and> connected s' \<and> \<not> reconnectScheduled s' \<and>
    Read (generation s') \<in> set (ops s') \<and> (authRequired s' \<longrightarrow> authenticated s') \<and>
    (\<forall>t. isSubscribed t s' = isSubscribed t s) \<and> (\<forall>t. isSubscriptionConfirmed t s' = isSubscribed t s)"
proof -
  obtain s' where s': "(handler_step J)\<^sup>*\<^sup>* s s'" "reading s'" "authRequired s' \<longrightarrow> authenticated s'"
    "wanted s' = wanted s" "\<forall>t. isSubscribed t s \<longrightarrow> isSubscriptionConfirmed t s'"
    using session_heals [OF assms] by blast
  have "isSubscribed t s' = isSubscribed t s" for t using s'(4) by (simp add: set_eq_iff)
  moreover from this have "isSubscriptionConfirmed t s' = isSubscribed t s" for t
    using s'(5) by (auto simp: isSubscriptionConfirmed_def isSubscribed_def)
  ultimately show ?thesis using s'(1-3) by (auto simp: reading_def)
qed

end
