(* ===== verification/Gateway_Live.thy ===== *)
theory Gateway_Live
  imports Gateway_Runs Ws_Session_Heal
begin

text \<open>
  The gateway recovers: once \<open>start\<close> has returned, then whatever the core calls and whatever happens
  to the streams, orders can be submitted again without restarting anything.
\<close>

text \<open>Handlers of the private session are steps of the gateway.\<close>

definition private_handler :: "'j jops \<Rightarrow> ('j, 'w) gateway \<Rightarrow> ('j, 'w) gateway \<Rightarrow> bool" where
  "private_handler J g g' \<longleftrightarrow> (\<exists>s x e. cl_session (pm_client (gw_private g)) = Some s \<and> cl_isRunning (pm_client (gw_private g)) \<and>
     x \<in> set (ops s) \<and> timer_ok x e s \<and> g' = private_io J (client_io J e x (pm_client (gw_private g))) g)"

lemma private_handler_gstep: "private_handler J g g' \<Longrightarrow> gstep J N F split g g'"
  by (auto simp: private_handler_def intro!: gstep.private_stream io_step.handler)

lemma private_handlers_gsteps: "(private_handler J)\<^sup>*\<^sup>* g g' \<Longrightarrow> (gstep J N F split)\<^sup>*\<^sup>* g g'"
  by (erule rtranclp_mono [THEN predicate2D, rotated]) (auto intro: private_handler_gstep)

lemma handlers_run:
  assumes "(handler_step J)\<^sup>*\<^sup>* s s'" and "cl_session (pm_client (gw_private g)) = Some s"
    and "cl_isRunning (pm_client (gw_private g))"
  shows "\<exists>g'. (private_handler J)\<^sup>*\<^sup>* g g' \<and>
    pm_client (gw_private g') = (pm_client (gw_private g))\<lparr>cl_session := Some s'\<rparr>"
  using assms(1)
proof (induction rule: rtranclp_induct)
  case base
  have "pm_client (gw_private g) = (pm_client (gw_private g))\<lparr>cl_session := Some s\<rparr>"
    using assms(2) by (cases "pm_client (gw_private g)") simp
  then show ?case by blast
next
  case (step t u)
  then obtain g1 where g1: "(private_handler J)\<^sup>*\<^sup>* g g1"
    "pm_client (gw_private g1) = (pm_client (gw_private g))\<lparr>cl_session := Some t\<rparr>" by blast
  obtain x e where x: "x \<in> set (ops t)" "timer_ok x e t" "u = complete J e x t"
    using step.hyps(2) by (auto simp: handler_step_def)
  let ?c = "client_io J e x (pm_client (gw_private g1))"
  have "private_handler J g1 (private_io J ?c g1)"
    using x(1,2) g1(2) assms(3) unfolding private_handler_def by (intro exI conjI) (auto intro: refl)
  with g1(1) have "(private_handler J)\<^sup>*\<^sup>* g (private_io J ?c g1)" by (rule rtranclp.rtrancl_into_rtrancl)
  moreover have "pm_client (gw_private (private_io J ?c g1)) = (pm_client (gw_private g))\<lparr>cl_session := Some u\<rparr>"
    using g1(2) x(3) by (simp add: private_io_def hear_eq client_io_def)
  ultimately show ?case by blast
qed

text \<open>An order that is refused for want of the stream asks for the topics that are missing.\<close>

lemma refused_order_asks:
  assumes "\<not> fst (isLive (gw_private g))"
  shows "submitPostOnlyLimit J N cid symbol side qty price reduceOnly g =
      Some (Inl (GatewayError Throttled (gated_text ''submit'')), g\<lparr>gw_private := snd (isLive (gw_private g))\<rparr>)"
  using assms by (simp add: submitPostOnlyLimit_def requireEventStream_def bindP_def split_beta)

lemma up_goes_live:
  assumes "gateway_ok J cred True envt idx g" and "venue_can_say_yes J" and "fst cred \<noteq> []" and "snd cred \<noteq> []"
    and "\<not> fst (isLive (gw_private g))"
  shows "\<exists>g'. (private_handler J)\<^sup>*\<^sup>* (g\<lparr>gw_private := snd (isLive (gw_private g))\<rparr>) g' \<and> fst (isLive (gw_private g'))"
proof -
  let ?ep = "(wsPrivateHostForEnvironment envt, ''443'', ''/v5/private'')"
  let ?m = "snd (isLive (gw_private g))"
  have ok: "stream_ok J ?ep cred True (pm_client (gw_private g))" using assms(1) by (simp add: gateway_ok_def)
  have asked: "stream_ok J ?ep cred True (pm_client ?m)"
    "client_isSubscribed ''order'' (pm_client ?m)" "client_isSubscribed ''execution'' (pm_client ?m)"
    using wired_topics.ensure_spec [OF ok topics_nonempty] by (simp_all add: isLive_eq ORDER_TOPIC_def EXECUTION_TOPIC_def
      del: ensure_topics.simps)
  then obtain s where s: "cl_session (pm_client ?m) = Some s" "cl_isRunning (pm_client ?m)" "reachable J s"
    "\<not> userClosed s" "isSubscribed ''order'' s" "isSubscribed ''execution'' s" "authRequired s"
    using assms(3,4) by (auto simp: stream_ok_def client_ok_def closing_def client_isSubscribed_def settings_def session_cred_def)
  obtain s' where s': "(handler_step J)\<^sup>*\<^sup>* s s'" "reading s'" "authRequired s' \<longrightarrow> authenticated s'"
    "\<forall>t. isSubscribed t s \<longrightarrow> isSubscriptionConfirmed t s'"
    using session_heals [OF s(3,4) assms(2)] by blast
  obtain g' where g': "(private_handler J)\<^sup>*\<^sup>* (g\<lparr>gw_private := ?m\<rparr>) g'"
    "pm_client (gw_private g') = (pm_client ?m)\<lparr>cl_session := Some s'\<rparr>"
    using handlers_run [OF s'(1), of "g\<lparr>gw_private := ?m\<rparr>"] s(1,2) by auto
  have asked_ok: "gateway_ok J cred True envt idx (g\<lparr>gw_private := ?m\<rparr>)"
    using assms(1) asked(1) by (simp add: gateway_ok_def)
  have ok': "stream_ok J ?ep cred True (pm_client (gw_private g'))"
    using gsteps_ok [OF private_handlers_gsteps [OF g'(1)] asked_ok] by (simp add: gateway_ok_def)
  then have "authRequired s'" "books_ok s'"
    using assms(3,4) g'(2) reachable_inv [of J s']
    by (auto simp: stream_ok_def client_ok_def settings_def session_cred_def inv_def)
  with s'(3) have "client_isAuthenticated (pm_client (gw_private g'))"
    by (simp add: g'(2) client_isAuthenticated_def isAuthenticated_def books_ok_def)
  moreover have "client_isSubscriptionConfirmed ''order'' (pm_client (gw_private g'))"
    "client_isSubscriptionConfirmed ''execution'' (pm_client (gw_private g'))"
    using s(5,6) s'(4) by (simp_all add: g'(2) client_isSubscriptionConfirmed_def)
  ultimately have "fst (isLive (gw_private g'))"
    using wired_topics.ensure_spec [OF ok' topics_nonempty]
    by (simp add: isLive_eq ORDER_TOPIC_def EXECUTION_TOPIC_def del: ensure_topics.simps)
  with g'(1) show ?thesis by blast
qed

text \<open>
  C16. A gateway that was started can always go live again. Whatever happened since \<open>start\<close> returned
  (calls, messages, lost connections, rejected topics), its private stream is live, or the next order
  is refused with the \<open>Throttled\<close> error and handlers that the io thread of the private session then
  has pending, completed one after the other, lead to a live stream. Nothing else is called and nothing
  has to be restarted. It takes a venue whose
  acknowledgements of \<^verbatim>\<open>auth\<close> and of \<^verbatim>\<open>subscribe\<close> the JSON library reads.
\<close>

theorem gateway_can_go_live:
  assumes "(gstep J N F split)\<^sup>*\<^sup>* (gateway_init rest key secret envt idx) g0" and "key \<noteq> []" and "secret \<noteq> []"
    and "Gateway.start J N (\<lambda>n m. m\<lparr>pm_client := io n (pm_client m)\<rparr>) g0 = Some (Inr (), g1)"
    and "\<And>n c. (io_step J)\<^sup>*\<^sup>* c (io n c)"
    and "(gstep J N F split)\<^sup>*\<^sup>* (hear J (news (pm_client (gw_private g0)) (pm_client (gw_private g1))) g1) g"
    and "venue_can_say_yes J" and "\<not> fst (isLive (gw_private g))"
  shows "\<exists>g2 g3. submitPostOnlyLimit J N cid symbol side qty price reduceOnly g =
      Some (Inl (GatewayError Throttled (gated_text ''submit'')), g2) \<and>
    (private_handler J)\<^sup>*\<^sup>* g2 g3 \<and> fst (isLive (gw_private g3))"
proof -
  have "gateway_ok J (key, secret) True envt idx g1" using assms(4) run_ok [OF assms(1)] assms(5) by (rule start_up)
  then have "gateway_ok J (key, secret) True envt idx g" by (intro gsteps_ok [OF assms(6)]) simp
  from up_goes_live [OF this assms(7) _ _ assms(8)] assms(2,3) obtain g3 where
    "(private_handler J)\<^sup>*\<^sup>* (g\<lparr>gw_private := snd (isLive (gw_private g))\<rparr>) g3" "fst (isLive (gw_private g3))" by auto
  with refused_order_asks [OF assms(8)] show ?thesis by blast
qed

end
