(* ===== verification/History.thy ===== *)
theory History
  imports Rest_Client Candle_Time
begin

text \<open>
  The two histories of the REST client (\<^verbatim>\<open>src/bybit_rest_client.cpp\<close>): candles, paged
  forwards over gaps and relistings, and funding rates, paged backwards. A \<open>fetch\<close> is one
  request; the loops are stated over it. Times are in ms and unbounded. A writer is a callback
  that does not throw: what it would be called with is part of the result. On an empty list
  \<^verbatim>\<open>back()\<close> and \<^verbatim>\<open>front()\<close> are undefined; \<open>batch_nonempty\<close> shows that the loop
  never gets there.
\<close>

section \<open>Candles\<close>

definition kline_request ::
  "'j jops \<Rightarrow> ('j, 'w) net \<Rightarrow> Category \<Rightarrow> string \<Rightarrow> CandleInterval \<Rightarrow> int \<Rightarrow> int \<Rightarrow> int \<Rightarrow> ('w, Candle list) rproc" where
  "kline_request J N category symbol interval limit startTime endTime =
     (let ps = insert_or_assign ''start'' (int_to_string startTime)
            (insert_or_assign ''interval'' (CandleInterval_name interval)
            (insert_or_assign ''symbol'' symbol (category_params category)));
          ps = (if endTime > 0 then insert_or_assign ''end'' (int_to_string endTime) ps else ps);
          ps = (if limit \<noteq> 200 then insert_or_assign ''limit'' (int_to_string limit) ps else ps) in
      bindP (get_as J N (Candles_fromJson J) (Candles_init J) ''/v5/market/kline'' ps)
        (\<lambda>r. ret (cs_candles r)))"

type_synonym 's fetch = "int \<Rightarrow> int \<Rightarrow> ('s, Candle list) proc"

text \<open>
  The inner loop: windows of \<open>windowMs\<close> from \<open>from\<close> on, until one holds a candle at or
  after its start (the new \<open>from\<close> and that batch, oldest first), or \<open>to\<close> is passed.
\<close>

partial_function (option) probe ::
  "'s fetch \<Rightarrow> int \<Rightarrow> int \<Rightarrow> int \<Rightarrow> ('s, (int \<times> Candle list) option) proc" where
  "probe fetch windowMs to from s =
     (if from \<le> to then
        let windowEnd = min to (from + windowMs) in
        (case fetch from windowEnd s of
           None \<Rightarrow> None
         | Some (Inl e, s') \<Rightarrow> Some (Inl e, s')
         | Some (Inr cs, s') \<Rightarrow>
             if rev cs \<noteq> [] \<and> c_startTime (last (rev cs)) \<ge> from then Some (Inr (Some (from, rev cs)), s')
             else probe fetch windowMs to (windowEnd + 1) s')
      else Some (Inr None, s))"

declare probe.simps [code]

text \<open>
  What the loop does with a batch, oldest first: skip a gap, drop what predates \<open>from\<close>
  (\<^verbatim>\<open>std::lower_bound\<close> on a list sorted by time), and drop the candle in progress.
\<close>

definition trim :: "int \<Rightarrow> Candle list \<Rightarrow> Candle list" where
  "trim from cs = dropWhile (\<lambda>c. c_startTime c < from) cs"

definition resume_at ::
  "'s fetch \<Rightarrow> int \<Rightarrow> int \<Rightarrow> int \<Rightarrow> Candle list \<Rightarrow> ('s, Candle list option) proc" where
  "resume_at fetch windowMs to from cs =
     (if c_startTime (hd cs) < from then
        if c_startTime (last cs) < from then
          bindP (probe fetch windowMs to from) (\<lambda>found. case found of
            None \<Rightarrow> ret None
          | Some (from', cs') \<Rightarrow> ret (Some (trim from' cs')))
        else ret (Some (trim from cs))
      else ret (Some cs))"

definition drop_open :: "(int \<Rightarrow> int) \<Rightarrow> int \<Rightarrow> Candle list \<Rightarrow> Candle list" where
  "drop_open next to cs = (if next (c_startTime (last cs)) > to then butlast cs else cs)"

partial_function (option) historyLoop ::
  "'s fetch \<Rightarrow> (int \<Rightarrow> int) \<Rightarrow> int \<Rightarrow> int \<Rightarrow> int \<Rightarrow> Candle list \<Rightarrow> Candle list \<Rightarrow> Candle list list
   \<Rightarrow> ('s, Candle list \<times> Candle list list) proc" where
  "historyLoop fetch next windowMs to from candles retVal written s =
     (if candles = [] then Some (Inr (retVal, written), s)
      else case resume_at fetch windowMs to from (rev candles) s of
        None \<Rightarrow> None
      | Some (Inl e, s') \<Rightarrow> Some (Inl e, s')
      | Some (Inr None, s') \<Rightarrow> Some (Inr (retVal, written), s')
      | Some (Inr (Some cs), s') \<Rightarrow>
          let cs = drop_open next to cs in
          if cs = [] then Some (Inr (retVal, written), s')
          else if to < c_startTime (last cs) then
            Some (Inr (retVal @ filter (\<lambda>c. c_startTime c \<le> to) cs, written @ [cs]), s')
          else
            let from' = next (c_startTime (last cs)) in
            (case fetch from' 0 s' of
               None \<Rightarrow> None
             | Some (Inl e, s2) \<Rightarrow> Some (Inl e, s2)
             | Some (Inr candles', s2) \<Rightarrow>
                 historyLoop fetch next windowMs to from' candles' (retVal @ cs) (written @ [cs]) s2))"

declare historyLoop.simps [code]

definition history :: "'s fetch \<Rightarrow> (int \<Rightarrow> int) \<Rightarrow> int \<Rightarrow> int \<Rightarrow> int \<Rightarrow> ('s, Candle list \<times> Candle list list) proc" where
  "history fetch next windowMs from to =
     bindP (fetch from 0) (\<lambda>candles. historyLoop fetch next windowMs to from candles [] [])"

definition probe_window :: "CandleInterval \<Rightarrow> int \<Rightarrow> int" where
  "probe_window interval limit = (limit - 1) * numberOfMsForCandleInterval interval"

definition getHistoricalPrices ::
  "'j jops \<Rightarrow> ('j, 'w) net \<Rightarrow> Category \<Rightarrow> string \<Rightarrow> CandleInterval \<Rightarrow> int \<Rightarrow> int \<Rightarrow> int \<Rightarrow>
   ('w, Candle list \<times> Candle list list) rproc" where
  "getHistoricalPrices J N category symbol interval from to limit =
     history (kline_request J N category symbol interval limit) (\<lambda>t. nextCandleStart t interval)
       (probe_window interval limit) from to"

section \<open>Funding rates\<close>

definition funding_request ::
  "'j jops \<Rightarrow> ('j, 'w) net \<Rightarrow> Category \<Rightarrow> string \<Rightarrow> int \<Rightarrow> int \<Rightarrow> int \<Rightarrow> ('w, FundingRate list) rproc" where
  "funding_request J N category symbol limit startTime endTime =
     (let ps = insert_or_assign ''endTime'' (int_to_string endTime)
            (insert_or_assign ''startTime'' (int_to_string startTime)
            (insert_or_assign ''symbol'' symbol (category_params category)));
          ps = (if limit \<noteq> 200 then insert_or_assign ''limit'' (int_to_string limit) ps else ps) in
      bindP (get_as J N (FundingRates_fromJson J) (FundingRates_init J) ''/v5/market/funding/history'' ps)
        (\<lambda>r. ret (frs_fundingRates r)))"

text \<open>The fetch guarded by \<^verbatim>\<open>startTime < endTime\<close>; newest first, and reversed at the end.\<close>

partial_function (option) fundingLoop ::
  "(int \<Rightarrow> int \<Rightarrow> ('s, FundingRate list) proc) \<Rightarrow> int \<Rightarrow> int \<Rightarrow> FundingRate list \<Rightarrow> ('s, FundingRate list) proc" where
  "fundingLoop fetch startTime endTime retVal s =
     (if startTime < endTime then
        (case fetch startTime endTime s of
           None \<Rightarrow> None
         | Some (Inl e, s') \<Rightarrow> Some (Inl e, s')
         | Some (Inr fr, s') \<Rightarrow>
             if fr = [] then Some (Inr (rev retVal), s')
             else fundingLoop fetch startTime (fr_fundingRateTimestamp (last fr) - 1) (retVal @ fr) s')
      else Some (Inr (rev retVal), s))"

declare fundingLoop.simps [code]

definition getFundingRates ::
  "'j jops \<Rightarrow> ('j, 'w) net \<Rightarrow> Category \<Rightarrow> string \<Rightarrow> int \<Rightarrow> int \<Rightarrow> int \<Rightarrow> ('w, FundingRate list) rproc" where
  "getFundingRates J N category symbol startTime endTime limit =
     fundingLoop (funding_request J N category symbol limit) startTime endTime []"

end
