(* ===== verification/Platform.thy ===== *)
theory Platform
  imports Prelude
begin

text \<open>
  The two small headers around the client: \<^verbatim>\<open>tls_verify.h\<close>, which makes a TLS context verify
  its peer, and \<^verbatim>\<open>bybit_module.h\<close>, which registers the two connectors with the host program.
\<close>

section \<open>TLS verification\<close>

text \<open>
  An OpenSSL context, as far as the code sets it; \<open>'x\<close> is a decoded certificate. The platform is
  an argument: why \<^verbatim>\<open>set_default_verify_paths\<close> throws, if it does, whether it is Windows, the encoded
  certificates of the ROOT store if it can be opened, and \<^verbatim>\<open>d2i_X509\<close>, which may fail.
\<close>

datatype verify_mode = VerifyNone | VerifyPeer

record 'x tls_context =
  tls_defaultPaths :: bool
  tls_trusted :: "'x list"
  tls_verifyMode :: verify_mode

definition new_context :: "'x tls_context" where
  "new_context = \<lparr>tls_defaultPaths = False, tls_trusted = [], tls_verifyMode = VerifyNone\<rparr>"

record 'x platform =
  pf_pathsError :: "string option"
  pf_windows :: bool
  pf_rootStore :: "string list option"
  pf_decode :: "string \<Rightarrow> 'x option"

fun addCertificates :: "(string \<Rightarrow> 'x option) \<Rightarrow> string list \<Rightarrow> 'x tls_context \<Rightarrow> 'x tls_context" where
  "addCertificates d2i [] ctx = ctx"
| "addCertificates d2i (cert # certs) ctx =
     addCertificates d2i certs
       (case d2i cert of None \<Rightarrow> ctx | Some x509 \<Rightarrow> ctx\<lparr>tls_trusted := tls_trusted ctx @ [x509]\<rparr>)"

definition enableTlsPeerVerification :: "'x platform \<Rightarrow> ('x tls_context, unit) proc" where
  "enableTlsPeerVerification P ctx =
     (case pf_pathsError P of
        Some m \<Rightarrow> Some (Inl (SystemError m), ctx)
      | None \<Rightarrow>
          let ctx = ctx\<lparr>tls_defaultPaths := True\<rparr>;
              ctx = (if pf_windows P then
                       (case pf_rootStore P of None \<Rightarrow> ctx | Some store \<Rightarrow> addCertificates (pf_decode P) store ctx)
                     else ctx) in
          Some (Inr (), ctx\<lparr>tls_verifyMode := VerifyPeer\<rparr>))"

lemma addCertificates_eq:
  "addCertificates d2i certs ctx = ctx\<lparr>tls_trusted := tls_trusted ctx @ List.map_filter d2i certs\<rparr>"
  by (induction certs arbitrary: ctx) (auto simp: List.map_filter_def split: option.split)

text \<open>
  A context that comes out of it verifies its peer, and trusts no more than the default paths and
  those certificates of the system's ROOT store that can be decoded; the only other end is an
  exception, so no client is left with a context that does not verify.
\<close>

theorem tls_verifies_peer:
  "case enableTlsPeerVerification P ctx of
     Some (Inr _, ctx') \<Rightarrow> tls_verifyMode ctx' = VerifyPeer \<and> tls_defaultPaths ctx' \<and>
       tls_trusted ctx' = tls_trusted ctx @
         (if pf_windows P then List.map_filter (pf_decode P) (case pf_rootStore P of None \<Rightarrow> [] | Some certs \<Rightarrow> certs) else [])
   | Some (Inl e, ctx') \<Rightarrow> (\<exists>m. pf_pathsError P = Some m \<and> e = SystemError m) \<and> ctx' = ctx
   | None \<Rightarrow> False"
  by (auto simp: enableTlsPeerVerification_def Let_def addCertificates_eq map_filter_simps split: option.split)

section \<open>The module\<close>

text \<open>
  The factory of the common library is the argument \<open>new\<close> (its constructor) and \<open>register\<close>
  (\<^verbatim>\<open>registerClassByName\<close>); \<open>connector\<close> stands for the two functions \<^verbatim>\<open>createInstance\<close>. The state is
  the global \<^verbatim>\<open>g_moduleFactory\<close>, \<open>None\<close> for a null pointer.
\<close>

datatype connector = FuturesConnector | SpotConnector

definition getModuleFactory ::
  "(string \<Rightarrow> string \<Rightarrow> 'f) \<Rightarrow> (string \<Rightarrow> connector \<Rightarrow> 'f \<Rightarrow> 'f) \<Rightarrow> 'f option \<Rightarrow> 'f option \<times> 'f option" where
  "getModuleFactory new register g =
     (case g of
        None \<Rightarrow>
          let f = new ''Bybit'' ''Bybit CEX'';
              f = register ''BybitFutures'' FuturesConnector f;
              f = register ''BybitSpot'' SpotConnector f in
          (Some f, Some f)
      | Some f \<Rightarrow> (None, Some f))"

text \<open>
  The host gets the factory once: the first call makes it and registers both connectors under their
  names, and no later call hands it out again or changes it.
\<close>

fun factory_calls :: "nat \<Rightarrow> (string \<Rightarrow> string \<Rightarrow> 'f) \<Rightarrow> (string \<Rightarrow> connector \<Rightarrow> 'f \<Rightarrow> 'f) \<Rightarrow> 'f option \<Rightarrow> 'f option list" where
  "factory_calls 0 new register g = []"
| "factory_calls (Suc n) new register g =
     (case getModuleFactory new register g of (r, g') \<Rightarrow> r # factory_calls n new register g')"

theorem factory_handed_out_once:
  "factory_calls (Suc n) new register None =
     Some (register ''BybitSpot'' SpotConnector (register ''BybitFutures'' FuturesConnector (new ''Bybit'' ''Bybit CEX'')))
       # replicate n None"
proof -
  have "factory_calls n new register (Some f) = replicate n None" for f
    by (induction n) (simp_all add: getModuleFactory_def)
  then show ?thesis by (simp add: getModuleFactory_def Let_def)
qed

end
