(* ===== verification/Http_Session.thy ===== *)
theory Http_Session
  imports Rest_Core Platform
begin

text \<open>
  \<^verbatim>\<open>HTTPSession\<close> (\<^verbatim>\<open>src/bybit_http_session.cpp\<close>): signed requests, the correction of
  the local clock, and one HTTPS exchange as a chain of operations with a time bound each, over a
  TLS context that verifies its peer. The
  transport (boost.asio and beast, OpenSSL), HMAC with its hex encoding, the clock and
  \<^verbatim>\<open>queryStringFromJson\<close> are the record \<open>http_env\<close>, on a state \<open>'w\<close> of the outside
  world. Log lines are left out.
\<close>

section \<open>An operation with a time bound\<close>

text \<open>
  The handlers an operation's \<^verbatim>\<open>ioc.run()\<close> executes, in order: the timer's, when it was not
  cancelled before it was queued, and the operation's completion.
\<close>

datatype error_code = operation_aborted | timed_out | OtherError nat

datatype timed_event = TimerFired | OpDone "error_code option"

record timed =
  operationError :: "error_code option"
  finished :: bool
  timedOut :: bool

fun timed_step :: "timed_event \<Rightarrow> timed \<Rightarrow> timed" where
  "timed_step TimerFired t = (if \<not> finished t then t\<lparr>timedOut := True\<rparr> else t)"
| "timed_step (OpDone ec) t = t\<lparr>operationError := ec, finished := True\<rparr>"

definition runTimedOperation :: "timed_event list \<Rightarrow> error_code option" where
  "runTimedOperation events =
     (let t = fold timed_step events \<lparr>operationError = Some operation_aborted, finished = False, timedOut = False\<rparr> in
      if timedOut t then Some timed_out else operationError t)"

section \<open>The session and its environment\<close>

record http_request =
  rq_method :: string
  rq_target :: string
  rq_headers :: "(string \<times> string) list"
  rq_body :: string

text \<open>The handshake verifies the peer as its context says, and that it is the host of that name.\<close>

datatype stage = StResolve | StConnect | StHandshake "string tls_context" string | StWrite http_request | StRead | StShutdown

text \<open>
  \<open>io stage timeoutMs\<close> is the order in which the handlers of that stage run, or \<open>None\<close>
  when they never do; \<open>io_ssl_context\<close>, \<open>io_ssl_stream\<close> and \<open>io_sni\<close> are why the SSL context, the
  stream (or its verify callback) or the server name cannot be set up, if they cannot, and
  \<open>io_platform\<close> is where the trusted certificates come from; \<open>io_done\<close> is \<^verbatim>\<open>parser.is_done()\<close> and \<open>io_response\<close> what
  \<^verbatim>\<open>parser.release()\<close> gives.
\<close>

record ('j, 'w) http_env =
  io :: "stage \<Rightarrow> int \<Rightarrow> 'w \<Rightarrow> timed_event list option \<times> 'w"
  io_ssl_context :: "string option"
  io_platform :: "string platform"
  io_ssl_stream :: "string option"
  io_sni :: "string \<Rightarrow> string option"
  ec_message :: "error_code \<Rightarrow> string"
  beast_version :: string
  io_done :: "'w \<Rightarrow> bool"
  io_response :: "'w \<Rightarrow> response"
  wall_ms :: "'w \<Rightarrow> int \<times> 'w"
  hmac_hex :: "string \<Rightarrow> string \<Rightarrow> string"
  queryStringFromJson :: "'j \<Rightarrow> string"

definition API_MAINNET_URI :: string where "API_MAINNET_URI = ''api.bybit.com''"
definition TIME_SYNC_INTERVAL_MS :: int where "TIME_SYNC_INTERVAL_MS = 30 * 60 * 1000"
definition DEFAULT_REQUEST_TIMEOUT_MS :: int where "DEFAULT_REQUEST_TIMEOUT_MS = 15000"

record 'w http_session =
  hs_apiKey :: string
  hs_receiveWindow :: int
  hs_apiSecret :: string
  hs_uri :: string
  hs_timeOffsetMs :: int
  hs_lastTimeSyncMs :: int
  hs_lastSuccessMs :: int
  hs_requestTimeoutMs :: int
  hs_world :: 'w

definition http_session_init :: "string \<Rightarrow> string \<Rightarrow> string \<Rightarrow> 'w \<Rightarrow> 'w http_session" where
  "http_session_init key secret host w = \<lparr>hs_apiKey = key, hs_receiveWindow = 5000, hs_apiSecret = secret,
     hs_uri = (if host = [] then API_MAINNET_URI else host), hs_timeOffsetMs = 0, hs_lastTimeSyncMs = 0,
     hs_lastSuccessMs = 0, hs_requestTimeoutMs = DEFAULT_REQUEST_TIMEOUT_MS, hs_world = w\<rparr>"

type_synonym ('w, 'a) hproc = "('w http_session, 'a) proc"

definition now_ms :: "('j, 'w) http_env \<Rightarrow> ('w, int) hproc" where
  "now_ms H s = (case wall_ms H (hs_world s) of (t, w) \<Rightarrow> Some (Inr t, s\<lparr>hs_world := w\<rparr>))"

section \<open>One exchange\<close>

text \<open>\<^verbatim>\<open>throwIfError(runTimedOperation(...))\<close>\<close>

definition timed_stage :: "('j, 'w) http_env \<Rightarrow> stage \<Rightarrow> ('w, unit) hproc" where
  "timed_stage H st s =
     (case io H st (hs_requestTimeoutMs s) (hs_world s) of
        (None, w) \<Rightarrow> None
      | (Some events, w) \<Rightarrow>
          Some (case runTimedOperation events of None \<Rightarrow> Inr () | Some ec \<Rightarrow> Inl (SystemError (ec_message H ec)), s\<lparr>hs_world := w\<rparr>))"

text \<open>\<^verbatim>\<open>while (!parser.is_done())\<close>\<close>

partial_function (option) read_loop :: "('j, 'w) http_env \<Rightarrow> ('w, unit) hproc" where
  "read_loop H s =
     (if io_done H (hs_world s) then Some (Inr (), s)
      else case timed_stage H StRead s of
        None \<Rightarrow> None
      | Some (Inl e, s') \<Rightarrow> Some (Inl e, s')
      | Some (Inr _, s') \<Rightarrow> read_loop H s')"

declare read_loop.simps [code]

definition set_header :: "string \<Rightarrow> string \<Rightarrow> http_request \<Rightarrow> http_request" where
  "set_header k v req = req\<lparr>rq_headers := filter (\<lambda>(k', _). k' \<noteq> k) (rq_headers req) @ [(k, v)]\<rparr>"

definition transport_text :: "string \<Rightarrow> string \<Rightarrow> string" where
  "transport_text target reason = ''Transport failure for '' @ target @ '': '' @ reason"

definition exchange :: "('j, 'w) http_env \<Rightarrow> string tls_context \<Rightarrow> string \<Rightarrow> http_request \<Rightarrow> ('w, unit) hproc" where
  "exchange H ctx uri req =
     bindP (timed_stage H StResolve) (\<lambda>_.
     bindP (timed_stage H StConnect) (\<lambda>_.
     bindP (timed_stage H (StHandshake ctx uri)) (\<lambda>_.
     bindP (timed_stage H (StWrite req)) (\<lambda>_.
     read_loop H))))"

text \<open>What comes before the exchange, and throws the exceptions of the libraries as they are.\<close>

definition setup_step :: "string option \<Rightarrow> ('w, unit) hproc" where
  "setup_step failure = (case failure of None \<Rightarrow> ret () | Some m \<Rightarrow> throwP (SystemError m))"

definition verified_context :: "('j, 'w) http_env \<Rightarrow> ('w, string tls_context) hproc" where
  "verified_context H s =
     (case enableTlsPeerVerification (io_platform H) new_context of
        None \<Rightarrow> None
      | Some (Inl e, _) \<Rightarrow> Some (Inl e, s)
      | Some (Inr _, ctx) \<Rightarrow> Some (Inr ctx, s))"

text \<open>Nothing of the shutdown but its never ending can be noticed.\<close>

definition request :: "('j, 'w) http_env \<Rightarrow> http_request \<Rightarrow> ('w, response) hproc" where
  "request H req =
     bindP (readP hs_uri) (\<lambda>uri.
     let req = set_header ''User-Agent'' (beast_version H) (set_header ''Host'' uri req) in
     bindP (setup_step (io_ssl_context H)) (\<lambda>_.
     bindP (verified_context H) (\<lambda>ctx.
     bindP (setup_step (io_ssl_stream H)) (\<lambda>_.
     bindP (setup_step (io_sni H uri)) (\<lambda>_.
     bindP (catchP (exchange H ctx uri req) (\<lambda>e. throwP (TransportError (transport_text (rq_target req) (what e))))) (\<lambda>_.
     bindP (readP (\<lambda>s. io_response H (hs_world s))) (\<lambda>response.
     bindP (now_ms H) (\<lambda>now.
     bindP (modifyP (\<lambda>s. s\<lparr>hs_lastSuccessMs := now\<rparr>)) (\<lambda>_.
     bindP (catchP (timed_stage H StShutdown) (\<lambda>_. ret ())) (\<lambda>_.
     ret response))))))))))"

section \<open>Signing\<close>

fun query_pairs :: "params \<Rightarrow> string" where
  "query_pairs [] = []"
| "query_pairs ((k, v) # ps) = k @ ''='' @ v @ ''&'' @ query_pairs ps"

text \<open>The last separator is popped.\<close>

definition createQueryStr :: "params \<Rightarrow> string" where
  "createQueryStr parameters = butlast (query_pairs parameters)"

definition after_question :: "string \<Rightarrow> string" where
  "after_question target = (case str_find ''?'' target of None \<Rightarrow> [] | Some pos \<Rightarrow> drop (pos + 1) target)"

definition signing_base :: "int \<Rightarrow> 'w http_session \<Rightarrow> string \<Rightarrow> string" where
  "signing_base ts s queryString =
     int_to_string ts @ hs_apiKey s @ int_to_string (hs_receiveWindow s) @ queryString"

text \<open>\<open>sign\<close> is \<^verbatim>\<open>signingTimestamp()\<close>.\<close>

definition authenticateNonPost ::
  "('j, 'w) http_env \<Rightarrow> ('w, int) hproc \<Rightarrow> http_request \<Rightarrow> ('w, http_request) hproc" where
  "authenticateNonPost H sign req =
     bindP (readP hs_apiKey) (\<lambda>key.
     if key = [] then ret req
     else
       bindP sign (\<lambda>ts.
       readP (\<lambda>s.
         set_header ''X-BAPI-RECV-WINDOW'' (int_to_string (hs_receiveWindow s))
           (set_header ''X-BAPI-TIMESTAMP'' (int_to_string ts)
           (set_header ''X-BAPI-SIGN-TYPE'' ''2''
           (set_header ''X-BAPI-SIGN''
              (hmac_hex H (hs_apiSecret s) (signing_base ts s (after_question (rq_target req))))
           (set_header ''X-BAPI-API-KEY'' key req)))))))"

definition get_with ::
  "('j, 'w) http_env \<Rightarrow> ('w, int) hproc \<Rightarrow> string \<Rightarrow> params \<Rightarrow> ('w, response) hproc" where
  "get_with H sign path parameters =
     (let queryString = createQueryStr parameters;
          finalPath = (if queryString \<noteq> [] then path @ ''?'' @ queryString else path);
          req = \<lparr>rq_method = ''GET'', rq_target = finalPath, rq_headers = [], rq_body = []\<rparr> in
      bindP (authenticateNonPost H sign req) (request H))"

section \<open>The exchange clock\<close>

text \<open>The measured offset of an answer to \<^verbatim>\<open>/v5/market/time\<close>, if there is one.\<close>

definition server_nanos :: "'j jops \<Rightarrow> response \<Rightarrow> int option res" where
  "server_nanos J response =
     (if resp_status response \<noteq> 200 then Inr None
      else bindR (j_parse J (resp_body response)) (\<lambda>json.
        case j_find J json ''result'' of
          None \<Rightarrow> Inr None
        | Some r \<Rightarrow>
            bindR (readStringAsInt64Dflt J r ''timeNano'') (\<lambda>timeNano.
              Inr (if timeNano \<le> 0 then None else Some timeNano))))"

definition ensureTimeSync ::
  "'j jops \<Rightarrow> ('j, 'w) http_env \<Rightarrow> ('w, response) hproc \<Rightarrow> ('w, unit) hproc" where
  "ensureTimeSync J H getTime =
     bindP (now_ms H) (\<lambda>now.
     bindP (readP hs_lastTimeSyncMs) (\<lambda>lastSync.
     if lastSync \<noteq> 0 \<and> now - lastSync < TIME_SYNC_INTERVAL_MS then ret ()
     else
       bindP (modifyP (\<lambda>s. s\<lparr>hs_lastTimeSyncMs := now\<rparr>)) (\<lambda>_.
       catchP
         (bindP getTime (\<lambda>response.
          bindP (liftR (server_nanos J response)) (\<lambda>nanos. case nanos of
            None \<Rightarrow> ret ()
          | Some timeNano \<Rightarrow>
              bindP (now_ms H) (\<lambda>local.
              modifyP (\<lambda>s. s\<lparr>hs_timeOffsetMs := timeNano div 1000000 - local\<rparr>)))))
         (\<lambda>_. ret ()))))"

text \<open>
  Signing asks for the exchange time with a signed request of its own, which signs again: the
  first argument bounds the depth, and \<open>None\<close> is that it was not enough.
\<close>

fun signingTimestamp :: "nat \<Rightarrow> 'j jops \<Rightarrow> ('j, 'w) http_env \<Rightarrow> ('w, int) hproc" where
  "signingTimestamp 0 J H = (\<lambda>s. None)"
| "signingTimestamp (Suc depth) J H =
     bindP (ensureTimeSync J H (get_with H (signingTimestamp depth J H) ''/v5/market/time'' [])) (\<lambda>_.
     bindP (now_ms H) (\<lambda>now.
     readP (\<lambda>s. now + hs_timeOffsetMs s)))"

section \<open>The interface\<close>

definition session_get_request ::
  "nat \<Rightarrow> 'j jops \<Rightarrow> ('j, 'w) http_env \<Rightarrow> string \<Rightarrow> params \<Rightarrow> ('w, response) hproc" where
  "session_get_request depth J H = get_with H (signingTimestamp depth J H)"

definition signed_json :: "'j jops \<Rightarrow> ('j, 'w) http_env \<Rightarrow> int \<Rightarrow> 'w http_session \<Rightarrow> 'j \<Rightarrow> 'j" where
  "signed_json J H ts s json =
     (let extendedJson = j_set J (j_set J (j_set J json ''timestamp'' (j_int J ts))
            ''recv_window'' (j_int J (hs_receiveWindow s))) ''api_key'' (j_str J (hs_apiKey s)) in
      j_set J extendedJson ''sign'' (j_str J (hmac_hex H (hs_apiSecret s) (queryStringFromJson H extendedJson))))"

definition authenticatePost ::
  "'j jops \<Rightarrow> ('j, 'w) http_env \<Rightarrow> ('w, int) hproc \<Rightarrow> 'j \<Rightarrow> http_request \<Rightarrow> ('w, http_request) hproc" where
  "authenticatePost J H sign json req =
     bindP sign (\<lambda>ts.
     bindP (readP (\<lambda>s. signed_json J H ts s json)) (\<lambda>signed.
       case j_dump_error J signed of
         Some m \<Rightarrow> throwP (JsonException m)
       | None \<Rightarrow>
           let body = j_dump J signed in
           ret (set_header ''Content-Type'' ''application/json''
             (set_header ''Content-Length'' (nat_to_string (length body)) (req\<lparr>rq_body := body\<rparr>)))))"

definition session_post_request ::
  "nat \<Rightarrow> 'j jops \<Rightarrow> ('j, 'w) http_env \<Rightarrow> string \<Rightarrow> 'j \<Rightarrow> ('w, response) hproc" where
  "session_post_request depth J H path json =
     bindP (authenticatePost J H (signingTimestamp depth J H) json
       \<lparr>rq_method = ''POST'', rq_target = path, rq_headers = [], rq_body = []\<rparr>) (request H)"

definition setRequestTimeout :: "int \<Rightarrow> 'w http_session \<Rightarrow> 'w http_session" where
  "setRequestTimeout timeoutMs s = s\<lparr>hs_requestTimeoutMs := timeoutMs\<rparr>"

definition lastSuccessfulResponseMs :: "'w http_session \<Rightarrow> int" where
  "lastSuccessfulResponseMs s = hs_lastSuccessMs s"

end
