(* ===== verification/Connectors.thy ===== *)
theory Connectors
  imports History Http_Session "HOL-Library.Multiset"
begin

text \<open>
  The exchange connectors (\<^verbatim>\<open>src/bybit_futures_exchange_connector.cpp\<close>,
  \<^verbatim>\<open>src/bybit_spot_exchange_connector.cpp\<close>): thin translations of the REST client to the
  interface of \<^verbatim>\<open>stonky-cpp-common\<close>, which is not under \<^verbatim>\<open>src/\<close>. Its structs are
  records of the members the connectors set, and what a default-constructed one holds is the
  record \<open>iface\<close>. A connector owns a REST client; the environment of its constructor is the
  mainnet default.
\<close>

section \<open>The HTTP sessions of a client\<close>

definition restHostForEnvironment :: "Environment \<Rightarrow> string" where
  "restHostForEnvironment env =
     (case env of Testnet \<Rightarrow> ''api-testnet.bybit.com'' | Demo \<Rightarrow> ''api-demo.bybit.com'' | Mainnet \<Rightarrow> [])"

record 'w rest_sessions =
  rs_host :: string
  rs_session :: "'w http_session"
  rs_publicSession :: "'w http_session"

definition RESTClient_sessions :: "string \<Rightarrow> string \<Rightarrow> Environment \<Rightarrow> 'w \<Rightarrow> 'w \<Rightarrow> 'w rest_sessions" where
  "RESTClient_sessions apiKey apiSecret env w pw =
     (let host = restHostForEnvironment env in
      \<lparr>rs_host = host, rs_session = http_session_init apiKey apiSecret host w,
       rs_publicSession = http_session_init [] [] ''public.bybit.com'' pw\<rparr>)"

definition RESTClient_setCredentials :: "string \<Rightarrow> string \<Rightarrow> 'w \<Rightarrow> 'w rest_sessions \<Rightarrow> 'w rest_sessions" where
  "RESTClient_setCredentials apiKey apiSecret w s =
     s\<lparr>rs_session := http_session_init apiKey apiSecret (rs_host s) w\<rparr>"

definition RESTClient_setRequestTimeout :: "int \<Rightarrow> 'w rest_sessions \<Rightarrow> 'w rest_sessions" where
  "RESTClient_setRequestTimeout timeoutMs s = s\<lparr>rs_session := setRequestTimeout timeoutMs (rs_session s)\<rparr>"

definition RESTClient_lastSuccessfulResponseMs :: "'w rest_sessions \<Rightarrow> int" where
  "RESTClient_lastSuccessfulResponseMs s = lastSuccessfulResponseMs (rs_session s)"

section \<open>The interface\<close>

record TickerPrice =
  tp_askPrice :: double
  tp_bidPrice :: double
  tp_askQty :: double
  tp_bidQty :: double
  tp_time :: int

record XFundingRate =
  xfr_symbol :: string
  xfr_fundingRate :: double
  xfr_fundingTime :: int

datatype XSide = XBuy | XSell

record XPosition =
  xp_symbol :: string
  xp_avgPrice :: double
  xp_createdTime :: int
  xp_updatedTime :: int
  xp_leverage :: double
  xp_value :: double
  xp_side :: XSide

record XCandle =
  xc_openTime :: int
  xc_open :: double
  xc_high :: double
  xc_low :: double
  xc_close :: double
  xc_volume :: double

text \<open>The interface's intervals; \<open>X_other\<close> is any enumerator the connectors do not name.\<close>

datatype XCandleInterval =
    X_1m | X_3m | X_5m | X_15m | X_30m | X_1h | X_2h | X_4h | X_6h | X_12h | X_1d | X_1w | X_1M
  | X_other nat

record iface =
  i_ticker :: TickerPrice
  i_funding :: XFundingRate
  i_position :: XPosition
  i_candle :: XCandle

section \<open>Futures\<close>

definition ticker_price :: "int \<Rightarrow> TickerPrice \<Rightarrow> Ticker \<Rightarrow> TickerPrice" where
  "ticker_price time retVal ticker = retVal\<lparr>tp_askPrice := tk_ask1Price ticker, tp_bidPrice := tk_bid1Price ticker,
     tp_askQty := tk_ask1Size ticker, tp_bidQty := tk_bid1Size ticker, tp_time := time\<rparr>"

definition futures_getTickerPrice :: "iface \<Rightarrow> 'j jops \<Rightarrow> ('j, 'w) net \<Rightarrow> string \<Rightarrow> ('w, TickerPrice) rproc" where
  "futures_getTickerPrice I J N symbol =
     bindP (getTickers J N linear symbol) (\<lambda>tickerResponse.
       ret (fold (\<lambda>ticker retVal. if tk_symbol ticker = symbol then ticker_price (rtime tickerResponse) retVal ticker else retVal)
              (tks_tickers tickerResponse) (i_ticker I)))"

definition ticker_funding :: "Ticker \<Rightarrow> XFundingRate" where
  "ticker_funding ticker = \<lparr>xfr_symbol = tk_symbol ticker, xfr_fundingRate = tk_fundingRate ticker,
     xfr_fundingTime = tk_nextFundingTime ticker\<rparr>"

definition futures_getFundingRate :: "iface \<Rightarrow> 'j jops \<Rightarrow> ('j, 'w) net \<Rightarrow> string \<Rightarrow> ('w, XFundingRate) rproc" where
  "futures_getFundingRate I J N symbol =
     bindP (getTickers J N linear symbol) (\<lambda>r.
       ret (case tks_tickers r of [] \<Rightarrow> i_funding I | ticker # _ \<Rightarrow> ticker_funding ticker))"

definition futures_getFundingRates :: "'j jops \<Rightarrow> ('j, 'w) net \<Rightarrow> ('w, XFundingRate list) rproc" where
  "futures_getFundingRates J N = bindP (getTickers J N linear []) (\<lambda>r. ret (map ticker_funding (tks_tickers r)))"

definition position_of :: "iface \<Rightarrow> Position \<Rightarrow> XPosition" where
  "position_of I p = (i_position I)\<lparr>xp_symbol := pos_symbol p, xp_avgPrice := pos_avgPrice p,
     xp_createdTime := pos_createdTime p, xp_updatedTime := pos_updatedTime p, xp_leverage := pos_leverage p,
     xp_value := pos_positionValue p, xp_side := (if pos_side p = Buy then XBuy else XSell)\<rparr>"

definition futures_getPositionInfo :: "iface \<Rightarrow> 'j jops \<Rightarrow> ('j, 'w) net \<Rightarrow> string \<Rightarrow> ('w, XPosition list) rproc" where
  "futures_getPositionInfo I J N symbol =
     bindP (getPositionInfo J N linear symbol []) (\<lambda>positions. ret (map (position_of I) positions))"

fun toBybitInterval :: "XCandleInterval \<Rightarrow> CandleInterval" where
  "toBybitInterval X_1m = I_1"
| "toBybitInterval X_3m = I_3"
| "toBybitInterval X_5m = I_5"
| "toBybitInterval X_15m = I_15"
| "toBybitInterval X_30m = I_30"
| "toBybitInterval X_1h = I_60"
| "toBybitInterval X_2h = I_120"
| "toBybitInterval X_4h = I_240"
| "toBybitInterval X_6h = I_360"
| "toBybitInterval X_12h = I_720"
| "toBybitInterval X_1d = I_D"
| "toBybitInterval X_1w = I_W"
| "toBybitInterval X_1M = I_M"
| "toBybitInterval (X_other _) = I_60"

definition funding_rate_of :: "iface \<Rightarrow> FundingRate \<Rightarrow> XFundingRate" where
  "funding_rate_of I r = (i_funding I)\<lparr>xfr_symbol := fr_symbol r, xfr_fundingRate := fr_fundingRate r,
     xfr_fundingTime := fr_fundingRateTimestamp r\<rparr>"

text \<open>\<^verbatim>\<open>std::ranges::sort\<close> leaves the order of equal times open; this is the stable one.\<close>

definition futures_getHistoricalFundingRates ::
  "iface \<Rightarrow> 'j jops \<Rightarrow> ('j, 'w) net \<Rightarrow> string \<Rightarrow> int \<Rightarrow> int \<Rightarrow> ('w, XFundingRate list) rproc" where
  "futures_getHistoricalFundingRates I J N symbol startTime endTime =
     bindP (getFundingRates J N linear symbol startTime endTime 200) (\<lambda>rs.
       ret (sort_key xfr_fundingTime (map (funding_rate_of I) rs)))"

definition candle_of :: "iface \<Rightarrow> Candle \<Rightarrow> XCandle" where
  "candle_of I c = (i_candle I)\<lparr>xc_openTime := c_startTime c, xc_open := c_open c, xc_high := c_high c,
     xc_low := c_low c, xc_close := c_close c, xc_volume := c_volume c\<rparr>"

definition futures_getHistoricalCandles ::
  "iface \<Rightarrow> 'j jops \<Rightarrow> ('j, 'w) net \<Rightarrow> string \<Rightarrow> XCandleInterval \<Rightarrow> int \<Rightarrow> int \<Rightarrow> ('w, XCandle list) rproc" where
  "futures_getHistoricalCandles I J N symbol interval startTime endTime =
     bindP (getHistoricalPrices J N linear symbol (toBybitInterval interval) startTime endTime 200) (\<lambda>(candles, _).
       ret (map (candle_of I) candles))"

definition futures_login :: "string \<times> string \<times> string \<Rightarrow> 'w \<Rightarrow> 'w \<Rightarrow> 'w rest_sessions" where
  "futures_login credentials = RESTClient_sessions (fst credentials) (fst (snd credentials)) Mainnet"

section \<open>Spot\<close>

text \<open>The category is \<open>linear\<close> here, as in the source.\<close>

definition spot_getTickerPrice :: "iface \<Rightarrow> 'j jops \<Rightarrow> ('j, 'w) net \<Rightarrow> string \<Rightarrow> ('w, TickerPrice) rproc" where
  "spot_getTickerPrice I J N symbol =
     bindP (getTickers J N linear symbol) (\<lambda>tickerResponse.
       ret (fold (\<lambda>ticker retVal. if tk_symbol ticker = symbol then ticker_price (rtime tickerResponse) retVal ticker else retVal)
              (tks_tickers tickerResponse) (i_ticker I)))"

definition spot_getPositionInfo :: "iface \<Rightarrow> 'j jops \<Rightarrow> ('j, 'w) net \<Rightarrow> string \<Rightarrow> ('w, XPosition list) rproc" where
  "spot_getPositionInfo I J N symbol =
     bindP (getPositionInfo J N spot symbol []) (\<lambda>positions. ret (map (position_of I) positions))"

definition spot_login :: "string \<times> string \<times> string \<Rightarrow> 'w \<Rightarrow> 'w \<Rightarrow> 'w rest_sessions" where
  "spot_login credentials = RESTClient_sessions (fst credentials) (fst (snd credentials)) Mainnet"

definition spot_getFundingRate :: "string \<Rightarrow> ('w, XFundingRate) rproc" where
  "spot_getFundingRate symbol =
     throwP (RuntimeError ''BybitSpotExchangeConnector::getFundingRate - SPOT does not have funding rates'')"

definition spot_getFundingRates :: "('w, XFundingRate list) rproc" where
  "spot_getFundingRates =
     throwP (RuntimeError ''BybitSpotExchangeConnector::getFundingRates - SPOT does not have funding rates'')"

section \<open>Properties\<close>

text \<open>The spot connector quotes the perpetual of the same name: it asks what the futures one asks.\<close>

lemma spot_ticker_is_futures_ticker: "spot_getTickerPrice I J N symbol = futures_getTickerPrice I J N symbol"
  by (simp add: spot_getTickerPrice_def futures_getTickerPrice_def)

text \<open>A fold that keeps the last match.\<close>

lemma fold_last_match:
  "fold (\<lambda>t r. if P t then f t r else r) ts r =
     (if filter P ts = [] then r else fold f (filter P ts) r)"
  by (induction ts arbitrary: r) auto

lemma ticker_price_absorb: "ticker_price t (ticker_price t' r x) y = ticker_price t r y"
  by (simp add: ticker_price_def)

lemma fold_ticker_price: "ts \<noteq> [] \<Longrightarrow> fold (\<lambda>x r. ticker_price t r x) ts r = ticker_price t r (last ts)"
  by (induction ts arbitrary: r) (auto simp: ticker_price_absorb)

text \<open>
  The quote of the connector is the last ticker of the symbol in the answer, with the time of
  the answer; where the answer has none it is the default-constructed one and not an error.
\<close>

theorem ticker_price_of_symbol:
  "futures_getTickerPrice I J N symbol s =
     (case getTickers J N linear symbol s of
        None \<Rightarrow> None
      | Some (Inl e, s') \<Rightarrow> Some (Inl e, s')
      | Some (Inr r, s') \<Rightarrow>
          (case filter (\<lambda>t. tk_symbol t = symbol) (tks_tickers r) of
             [] \<Rightarrow> Some (Inr (i_ticker I), s')
           | t # ts \<Rightarrow> Some (Inr (ticker_price (rtime r) (i_ticker I) (last (t # ts))), s')))"
  unfolding futures_getTickerPrice_def bindP_def fold_last_match
  by (auto simp: ret_def fold_ticker_price simp del: last.simps fold.simps split: option.split sum.split list.split)

text \<open>
  The funding history of the connector has the rates the client returned, translated, each as
  often, and in the order of their times; it fails or does not return exactly when the client does.
\<close>

theorem historical_funding_sorted:
  "(case (futures_getHistoricalFundingRates I J N symbol a b s, getFundingRates J N linear symbol a b 200 s) of
      (None, None) \<Rightarrow> True
    | (Some (Inl e, t), Some (Inl e', t')) \<Rightarrow> e = e' \<and> t = t'
    | (Some (Inr xs, t), Some (Inr rs, t')) \<Rightarrow>
        t = t' \<and> sorted (map xfr_fundingTime xs) \<and> mset xs = mset (map (funding_rate_of I) rs)
    | _ \<Rightarrow> False)"
  by (auto simp: futures_getHistoricalFundingRates_def bindP_def ret_def split: option.split sum.split)

text \<open>Times that increase already make the sort the identity.\<close>

lemma sorted_funding_unchanged:
  "sorted (map fr_fundingRateTimestamp rs) \<Longrightarrow>
   sort_key xfr_fundingTime (map (funding_rate_of I) rs) = map (funding_rate_of I) rs"
  by (rule sort_key_id_if_sorted) (simp add: funding_rate_of_def comp_def)

text \<open>A named interval keeps its length; every other one silently becomes an hour.\<close>

lemma interval_lengths:
  "map (\<lambda>i. numberOfMsForCandleInterval (toBybitInterval i) div 60000)
     [X_1m, X_3m, X_5m, X_15m, X_30m, X_1h, X_2h, X_4h, X_6h, X_12h, X_1d, X_1w, X_other n]
   = [1, 3, 5, 15, 30, 60, 120, 240, 360, 720, 1440, 10080, 60]"
  by simp

end
