(* ===== verification/Http_Spec.thy ===== *)
theory Http_Spec
  imports Http_Session Mini_Json
begin

text \<open>
  What the HTTPS session guarantees: how a request can end, what a signature covers, and that
  asking for the exchange time does not recurse without end.
\<close>

section \<open>A timer against an operation\<close>

text \<open>
  An operation ends with its own result exactly when it completes before the timer; a timer whose
  handler was already queued then changes nothing.
\<close>

lemma timed_result:
  "runTimedOperation (replicate i TimerFired @ OpDone ec # replicate k TimerFired)
     = (if 0 < i then Some timed_out else ec)"
proof -
  have late: "(timed_step TimerFired ^^ k) t = t" if "finished t" for t
    using that by (induction k) auto
  have early: "(timed_step TimerFired ^^ i) t = (if 0 < i then t\<lparr>timedOut := True\<rparr> else t)"
    if "\<not> finished t" for t
    using that by (induction i) auto
  show ?thesis by (simp add: runTimedOperation_def Let_def early late)
qed

section \<open>What an exchange leaves alone, and that it ends\<close>

lemma timed_stage_error: "timed_stage H st s = Some (Inl e, s') \<Longrightarrow> \<exists>m. e = SystemError m"
  by (auto simp: timed_stage_def split: prod.splits option.splits)

text \<open>The transport changes the world, and nothing else of the session.\<close>

definition apart_from_world :: "('w http_session \<Rightarrow> 'v) \<Rightarrow> bool" where
  "apart_from_world v \<longleftrightarrow> (\<forall>s w. v (s\<lparr>hs_world := w\<rparr>) = v s)"

lemma timed_stage_world: "timed_stage H st s = Some (r, s') \<Longrightarrow> \<exists>w. s' = s\<lparr>hs_world := w\<rparr>"
  by (auto simp: timed_stage_def split: prod.splits option.splits)

lemma read_loop_world:
  fixes H :: "('j, 'w) http_env"
  assumes run: "read_loop H s = Some (r, s')"
  shows "\<exists>w. s' = s\<lparr>hs_world := w\<rparr>"
proof -
  have "\<exists>w. snd y = s\<lparr>hs_world := w\<rparr>" if "read_loop h s = Some y" for h :: "('j, 'w) http_env" and s y
  proof (rule read_loop.raw_induct [OF _ that])
    fix loop :: "('j, 'w) http_env \<Rightarrow> ('w, unit) hproc" and h s y
    assume IH: "\<And>h s y. loop h s = Some y \<Longrightarrow> \<exists>w. snd y = s\<lparr>hs_world := w\<rparr>"
      and body: "(if io_done h (hs_world s) then Some (Inr (), s)
        else case timed_stage h StRead s of
          None \<Rightarrow> None
        | Some (Inl e, s') \<Rightarrow> Some (Inl e, s')
        | Some (Inr _, s') \<Rightarrow> loop h s') = Some y"
    show "\<exists>w. snd y = s\<lparr>hs_world := w\<rparr>"
    proof (cases "io_done h (hs_world s)")
      case False
      then obtain r s1 w where t: "timed_stage h StRead s = Some (r, s1)" "s1 = s\<lparr>hs_world := w\<rparr>"
        using body timed_stage_world [of h StRead s] by (cases "timed_stage h StRead s") auto
      show ?thesis
      proof (cases r)
        case (Inr u)
        then have "loop h s1 = Some y" using body False t by simp
        from IH [OF this] show ?thesis by (auto simp: t(2))
      qed (use body False t in auto)
    qed (use body in \<open>auto intro: exI [of _ "hs_world s"]\<close>)
  qed
  from this [OF run] show ?thesis by simp
qed

lemma transport_keeps [intro]:
  assumes "apart_from_world v"
  shows "keepsP v (timed_stage H st)" "keepsP v (read_loop H)" "keepsP v (now_ms H)" "keepsP v (verified_context H)"
    "keepsP v (setup_step failure)" "keepsP v (exchange H ctx uri req)"
proof -
  show stage: "keepsP v (timed_stage H st)" for st
    using assms timed_stage_world by (fastforce simp: keepsP_def apart_from_world_def)
  show loop: "keepsP v (read_loop H)"
    using assms read_loop_world by (fastforce simp: keepsP_def apart_from_world_def)
  show "keepsP v (now_ms H)"
    using assms by (auto simp: keepsP_def apart_from_world_def now_ms_def split: prod.splits)
  show "keepsP v (verified_context H)"
    by (auto simp: keepsP_def verified_context_def split: option.splits sum.splits prod.splits)
  show "keepsP v (setup_step failure)" by (auto simp: setup_step_def split: option.split)
  show "keepsP v (exchange H ctx uri req)" unfolding exchange_def by (intro keepsP_bindP stage loop)
qed

lemma success_apart [simp]: "apart_from_world hs_lastSuccessMs"
  by (simp add: apart_from_world_def)

text \<open>
  An exchange comes to an end: when the handlers of every operation run, as the timer of
  \<open>runTimedOperation\<close> has them do, and every read brings the response nearer to its end,
  a request returns.
\<close>

definition transport_ends :: "('j, 'w) http_env \<Rightarrow> ('w \<Rightarrow> nat) \<Rightarrow> bool" where
  "transport_ends H m \<longleftrightarrow> (\<forall>st ms w. fst (io H st ms w) \<noteq> None) \<and>
     (\<forall>ms w. \<not> io_done H w \<longrightarrow> m (snd (io H StRead ms w)) < m w)"

lemma stage_returns: "transport_ends H m \<Longrightarrow> timed_stage H st t \<noteq> None"
  unfolding transport_ends_def timed_stage_def
  by (metis (no_types, lifting) case_prod_conv fst_conv option.case_eq_if option.distinct(1) prod.exhaust_sel)

lemma read_loop_returns:
  assumes "transport_ends H m"
  shows "read_loop H s \<noteq> None"
proof (induction "m (hs_world s)" arbitrary: s rule: less_induct)
  case less
  show ?case
  proof (cases "io_done H (hs_world s)")
    case False
    obtain ev w where io: "io H StRead (hs_requestTimeoutMs s) (hs_world s) = (Some ev, w)"
      using assms by (cases "io H StRead (hs_requestTimeoutMs s) (hs_world s)") (auto simp: transport_ends_def, metis fst_conv)
    then have "read_loop H (s\<lparr>hs_world := w\<rparr>) \<noteq> None"
      using assms False unfolding transport_ends_def by (intro less) (metis http_session.select_convs(9) http_session.surjective http_session.update_convs(9) snd_conv)
    with io False show ?thesis
      by (subst read_loop.simps) (auto simp: timed_stage_def split: option.split)
  qed (subst read_loop.simps, simp)
qed

lemma bindP_returns: "m s \<noteq> None \<Longrightarrow> (\<And>x t. k x t \<noteq> None) \<Longrightarrow> bindP m k s \<noteq> None"
  by (auto simp: bindP_def split: option.splits sum.splits prod.splits)

lemma catchP_returns: "m s \<noteq> None \<Longrightarrow> (\<And>e t. h e t \<noteq> None) \<Longrightarrow> catchP m h s \<noteq> None"
  by (auto simp: catchP_def split: option.splits sum.splits prod.splits)

lemma request_returns:
  fixes H :: "('j, 'w) http_env"
  assumes "transport_ends H m"
  shows "request H req s \<noteq> None"
proof -
  have ex: "exchange H ctx uri r t \<noteq> None" for ctx uri r t
    unfolding exchange_def using assms by (intro bindP_returns stage_returns read_loop_returns) auto
  have simple: "readP f t \<noteq> None" "modifyP f' t \<noteq> None" "throwP e t \<noteq> None" "ret x t \<noteq> None" "now_ms H u \<noteq> None"
    "setup_step failure u \<noteq> None" "verified_context H u \<noteq> None"
    for f :: "'w http_session \<Rightarrow> 'c" and f' and t u :: "'w http_session" and e and x :: 'd and failure
    by (auto simp: readP_def modifyP_def throwP_def ret_def now_ms_def setup_step_def verified_context_def
        enableTlsPeerVerification_def Let_def split: prod.split option.split)
  show ?thesis
    unfolding request_def Let_def by (intro bindP_returns catchP_returns stage_returns [OF assms] ex simple)
qed

section \<open>A complete exchange\<close>

text \<open>
  The specification: an operation ends well when the last completion it reports is without an error
  and the timer's handler did not run before its first; an exchange is the four operations that lead
  up to the response, each ending well, and then reads that end well until the response is complete.
\<close>

definition in_time :: "timed_event list \<Rightarrow> bool" where
  "in_time events \<longleftrightarrow> events \<noteq> [] \<and> hd events \<noteq> TimerFired \<and>
     last (filter (\<lambda>x. x \<noteq> TimerFired) events) = OpDone None"

definition stage_ok :: "('j, 'w) http_env \<Rightarrow> int \<Rightarrow> stage \<Rightarrow> 'w \<Rightarrow> 'w \<Rightarrow> bool" where
  "stage_ok H timeoutMs st w w' \<longleftrightarrow> (\<exists>events. io H st timeoutMs w = (Some events, w') \<and> in_time events)"

inductive response_read :: "('j, 'w) http_env \<Rightarrow> int \<Rightarrow> 'w \<Rightarrow> 'w \<Rightarrow> bool" for H timeoutMs where
  complete: "io_done H w \<Longrightarrow> response_read H timeoutMs w w"
| more: "\<not> io_done H w \<Longrightarrow> stage_ok H timeoutMs StRead w w1 \<Longrightarrow> response_read H timeoutMs w1 w2
    \<Longrightarrow> response_read H timeoutMs w w2"

definition exchanged ::
  "('j, 'w) http_env \<Rightarrow> int \<Rightarrow> string tls_context \<Rightarrow> string \<Rightarrow> http_request \<Rightarrow> 'w \<Rightarrow> 'w \<Rightarrow> bool" where
  "exchanged H timeoutMs ctx uri req w w' \<longleftrightarrow> (\<exists>w1 w2 w3 w4.
     stage_ok H timeoutMs StResolve w w1 \<and> stage_ok H timeoutMs StConnect w1 w2 \<and>
     stage_ok H timeoutMs (StHandshake ctx uri) w2 w3 \<and> stage_ok H timeoutMs (StWrite req) w3 w4 \<and>
     response_read H timeoutMs w4 w')"

lemma timed_fold:
  assumes "finished t"
  shows "timedOut (fold timed_step events t) = timedOut t"
    and "operationError (fold timed_step events t) =
      (case rev (filter (\<lambda>x. x \<noteq> TimerFired) events) of OpDone ec # _ \<Rightarrow> ec | _ \<Rightarrow> operationError t)"
proof -
  have "finished (fold timed_step events t) \<and> timedOut (fold timed_step events t) = timedOut t \<and>
    operationError (fold timed_step events t) =
      (case rev (filter (\<lambda>x. x \<noteq> TimerFired) events) of OpDone ec # _ \<Rightarrow> ec | _ \<Rightarrow> operationError t)"
  proof (induction events rule: rev_induct)
    case (snoc e es)
    then show ?case by (cases e) auto
  qed (simp add: assms)
  then show "timedOut (fold timed_step events t) = timedOut t"
    "operationError (fold timed_step events t) =
      (case rev (filter (\<lambda>x. x \<noteq> TimerFired) events) of OpDone ec # _ \<Rightarrow> ec | _ \<Rightarrow> operationError t)" by simp_all
qed

lemma timer_first: "timedOut t \<Longrightarrow> timedOut (fold timed_step events t)"
proof (induction events arbitrary: t)
  case (Cons e es)
  then show ?case by (cases e) simp_all
qed simp

lemma timed_in_time: "runTimedOperation events = None \<longleftrightarrow> in_time events"
proof (cases events)
  case (Cons e es)
  show ?thesis
  proof (cases e)
    case TimerFired
    then show ?thesis by (simp add: Cons runTimedOperation_def in_time_def Let_def timer_first)
  next
    case (OpDone ec)
    let ?t = "\<lparr>operationError = ec, finished = True, timedOut = False\<rparr>"
    have "last (filter (\<lambda>x. x \<noteq> TimerFired) events) =
        (case rev (filter (\<lambda>x. x \<noteq> TimerFired) es) of x # _ \<Rightarrow> x | _ \<Rightarrow> OpDone ec)"
      by (cases "filter (\<lambda>x. x \<noteq> TimerFired) es" rule: rev_cases) (simp_all add: Cons OpDone)
    moreover have "filter (\<lambda>x. x \<noteq> TimerFired) es \<noteq> xs @ [TimerFired]" for xs
    proof
      assume "filter (\<lambda>x. x \<noteq> TimerFired) es = xs @ [TimerFired]"
      then have "TimerFired \<in> set (filter (\<lambda>x. x \<noteq> TimerFired) es)" by simp
      then show False by simp
    qed
    ultimately show ?thesis
      using timed_fold [of ?t es]
      by (auto simp: Cons OpDone runTimedOperation_def in_time_def Let_def split: list.split timed_event.split)
  qed
qed (simp add: runTimedOperation_def in_time_def)

lemma stage_iff:
  "timed_stage H st s = Some (Inr u, s') \<longleftrightarrow>
     (\<exists>w. stage_ok H (hs_requestTimeoutMs s) st (hs_world s) w \<and> s' = s\<lparr>hs_world := w\<rparr>)"
  by (auto simp: timed_stage_def stage_ok_def timed_in_time [symmetric] split: prod.splits option.splits)

lemma read_iff:
  fixes H :: "('j, 'w) http_env"
  shows "read_loop H s = Some (Inr u, s') \<longleftrightarrow>
     (\<exists>w. response_read H (hs_requestTimeoutMs s) (hs_world s) w \<and> s' = s\<lparr>hs_world := w\<rparr>)"
proof
  assume "read_loop H s = Some (Inr u, s')"
  moreover have "h = H \<longrightarrow> fst y = Inr u \<longrightarrow>
      (\<exists>w. response_read H (hs_requestTimeoutMs s) (hs_world s) w \<and> snd y = s\<lparr>hs_world := w\<rparr>)"
    if "read_loop h s = Some y" for h s y
  proof (rule read_loop.raw_induct [OF _ that, where P = "\<lambda>h s y. h = H \<longrightarrow> fst y = Inr u \<longrightarrow>
      (\<exists>w. response_read H (hs_requestTimeoutMs s) (hs_world s) w \<and> snd y = s\<lparr>hs_world := w\<rparr>)"], intro impI)
    fix loop h s y
    assume IH: "\<And>h s y. loop h s = Some y \<Longrightarrow> h = H \<longrightarrow> fst y = Inr u \<longrightarrow>
        (\<exists>w. response_read H (hs_requestTimeoutMs s) (hs_world s) w \<and> snd y = s\<lparr>hs_world := w\<rparr>)"
      and body: "(if io_done h (hs_world s) then Some (Inr (), s)
        else case timed_stage h StRead s of
          None \<Rightarrow> None
        | Some (Inl e, s') \<Rightarrow> Some (Inl e, s')
        | Some (Inr _, s') \<Rightarrow> loop h s') = Some y" and h: "h = H" and y: "fst y = Inr u"
    show "\<exists>w. response_read H (hs_requestTimeoutMs s) (hs_world s) w \<and> snd y = s\<lparr>hs_world := w\<rparr>"
    proof (cases "io_done H (hs_world s)")
      case True
      then show ?thesis using body h by (intro exI [of _ "hs_world s"]) (auto intro: response_read.complete)
    next
      case False
      then obtain s1 where s1: "timed_stage H StRead s = Some (Inr (), s1)" "loop H s1 = Some y"
        using body h y by (auto split: option.splits sum.splits)
      then obtain w1 where w1: "stage_ok H (hs_requestTimeoutMs s) StRead (hs_world s) w1" "s1 = s\<lparr>hs_world := w1\<rparr>"
        by (auto simp: stage_iff)
      with IH [OF s1(2)] y obtain w where "response_read H (hs_requestTimeoutMs s) w1 w" "snd y = s\<lparr>hs_world := w\<rparr>" by auto
      with response_read.more [OF False w1(1)] show ?thesis by blast
    qed
  qed
  ultimately show "\<exists>w. response_read H (hs_requestTimeoutMs s) (hs_world s) w \<and> s' = s\<lparr>hs_world := w\<rparr>" by fastforce
next
  have "\<forall>s. hs_requestTimeoutMs s = ms \<longrightarrow> hs_world s = w \<longrightarrow> read_loop H s = Some (Inr (), s\<lparr>hs_world := w'\<rparr>)"
    if "response_read H ms w w'" for ms w w'
    using that
  proof (induction rule: response_read.induct)
    case (complete w)
    then show ?case by (subst read_loop.simps) auto
  next
    case (more w w1 w2)
    show ?case
    proof (intro allI impI)
      fix s :: "'w http_session"
      assume s: "hs_requestTimeoutMs s = ms" "hs_world s = w"
      then have "timed_stage H StRead s = Some (Inr (), s\<lparr>hs_world := w1\<rparr>)" using more.hyps(2) by (auto simp: stage_iff)
      with s more.hyps(1) more.IH show "read_loop H s = Some (Inr (), s\<lparr>hs_world := w2\<rparr>)"
        by (subst read_loop.simps) simp
    qed
  qed
  moreover assume "\<exists>w. response_read H (hs_requestTimeoutMs s) (hs_world s) w \<and> s' = s\<lparr>hs_world := w\<rparr>"
  ultimately show "read_loop H s = Some (Inr u, s')" by auto
qed

lemma response_read_done: "response_read H ms w w' \<Longrightarrow> io_done H w'"
  by (induction rule: response_read.induct)

lemma exchange_iff:
  "exchange H ctx uri req s = Some (Inr u, s') \<longleftrightarrow>
     (\<exists>w. exchanged H (hs_requestTimeoutMs s) ctx uri req (hs_world s) w \<and> s' = s\<lparr>hs_world := w\<rparr>)"
  by (fastforce simp: exchange_def exchanged_def bindP_cases stage_iff read_iff)

section \<open>How a request ends\<close>

text \<open>Why a request fails before its exchange, and the TLS context of one that does not.\<close>

definition setup_error :: "('j, 'w) http_env \<Rightarrow> string \<Rightarrow> string option" where
  "setup_error H uri =
     (case List.map_filter (\<lambda>x. x) [io_ssl_context H, pf_pathsError (io_platform H), io_ssl_stream H, io_sni H uri] of
        [] \<Rightarrow> None | m # _ \<Rightarrow> Some m)"

definition client_context :: "('j, 'w) http_env \<Rightarrow> string tls_context" where
  "client_context H = \<lparr>tls_defaultPaths = True,
     tls_trusted = (if pf_windows (io_platform H)
       then (case pf_rootStore (io_platform H) of None \<Rightarrow> [] | Some certs \<Rightarrow> List.map_filter (pf_decode (io_platform H)) certs)
       else []),
     tls_verifyMode = VerifyPeer\<rparr>"

lemma context_run:
  "verified_context H s = (case pf_pathsError (io_platform H) of
     Some m \<Rightarrow> Some (Inl (SystemError m), s) | None \<Rightarrow> Some (Inr (client_context H), s))"
  by (simp add: verified_context_def enableTlsPeerVerification_def client_context_def new_context_def
      addCertificates_eq Let_def split: option.split)

lemma request_setup_fails:
  "setup_error H (hs_uri s) = Some m \<Longrightarrow> request H req s = Some (Inl (SystemError m), s)"
  by (auto simp: request_def setup_error_def setup_step_def context_run bindP_def throwP_def ret_def readP_def Let_def
      map_filter_simps split: option.splits)

lemma failure_ignored:
  "bindP (catchP m (\<lambda>_. ret ())) (\<lambda>_. ret v) u = (case m u of None \<Rightarrow> None | Some (_, u') \<Rightarrow> Some (Inr v, u'))"
  by (auto simp: bindP_def catchP_def split: option.split sum.split)

text \<open>What a request makes of its exchange.\<close>

lemma request_of_exchange:
  assumes "setup_error H (hs_uri s) = None"
    and "req' = set_header ''User-Agent'' (beast_version H) (set_header ''Host'' (hs_uri s) req)"
  shows "exchange H (client_context H) (hs_uri s) req' s = None \<Longrightarrow> request H req s = None"
    and "exchange H (client_context H) (hs_uri s) req' s = Some (Inl e, t) \<Longrightarrow>
      request H req s = Some (Inl (TransportError (transport_text (rq_target req') (what e))), t)"
    and "exchange H (client_context H) (hs_uri s) req' s = Some (Inr (), t) \<Longrightarrow> wall_ms H (hs_world t) = (now, w) \<Longrightarrow>
      request H req s = (case timed_stage H StShutdown (t\<lparr>hs_world := w, hs_lastSuccessMs := now\<rparr>) of
        None \<Rightarrow> None | Some (_, t') \<Rightarrow> Some (Inr (io_response H (hs_world t)), t'))"
proof -
  have none: "io_ssl_context H = None" "pf_pathsError (io_platform H) = None" "io_ssl_stream H = None"
    "io_sni H (hs_uri s) = None"
    using assms(1) by (auto simp: setup_error_def map_filter_simps split: option.splits)
  show "exchange H (client_context H) (hs_uri s) req' s = None \<Longrightarrow> request H req s = None"
    and "exchange H (client_context H) (hs_uri s) req' s = Some (Inl e, t) \<Longrightarrow>
      request H req s = Some (Inl (TransportError (transport_text (rq_target req') (what e))), t)"
    and "exchange H (client_context H) (hs_uri s) req' s = Some (Inr (), t) \<Longrightarrow> wall_ms H (hs_world t) = (now, w) \<Longrightarrow>
      request H req s = (case timed_stage H StShutdown (t\<lparr>hs_world := w, hs_lastSuccessMs := now\<rparr>) of
        None \<Rightarrow> None | Some (_, t') \<Rightarrow> Some (Inr (io_response H (hs_world t)), t'))"
    using assms(2) by (simp_all add: request_def setup_step_def context_run none bindP_step catchP_step now_ms_def
        failure_ignored Let_def)
qed

text \<open>
  C26. A request that returns has the complete response of a whole exchange: each of its operations
  ended well and in time, over a context that verifies the peer, and the parser was done. It sets
  the time of the last success, and a failing TLS shutdown costs nothing. A request that fails leaves
  that time. When the TLS setup failed (the context, the trusted certificates, the stream, the server
  name), it throws that error, and nothing has been sent; every other failure is a \<open>TransportError\<close>,
  the type that tells the caller that the outcome is unknown, and then no whole exchange took place.
\<close>

theorem request_outcomes:
  "let whole = exchanged H (hs_requestTimeoutMs s) (client_context H) (hs_uri s)
       (set_header ''User-Agent'' (beast_version H) (set_header ''Host'' (hs_uri s) req)) (hs_world s) in
   case request H req s of
     None \<Rightarrow> setup_error H (hs_uri s) = None
   | Some (Inr response, s') \<Rightarrow>
       setup_error H (hs_uri s) = None \<and>
       (\<exists>w. whole w \<and> io_done H w \<and> response = io_response H w \<and> hs_lastSuccessMs s' = fst (wall_ms H w))
   | Some (Inl e, s') \<Rightarrow>
       hs_lastSuccessMs s' = hs_lastSuccessMs s \<and>
       (case setup_error H (hs_uri s) of
          Some m \<Rightarrow> e = SystemError m \<and> s' = s
        | None \<Rightarrow> (\<exists>m. e = TransportError m) \<and> \<not> (\<exists>w. whole w))"
proof (cases "setup_error H (hs_uri s)")
  case (Some m)
  then show ?thesis by (simp add: request_setup_fails Let_def)
next
  case ready: None
  let ?req = "set_header ''User-Agent'' (beast_version H) (set_header ''Host'' (hs_uri s) req)"
  let ?ex = "exchange H (client_context H) (hs_uri s) ?req s"
  note run = request_of_exchange [OF ready, of ?req req, OF refl]
  show ?thesis
  proof (cases ?ex)
    case None
    then show ?thesis by (simp add: run(1) ready)
  next
    case (Some q)
    obtain r t where q: "q = (r, t)" by fastforce
    show ?thesis
    proof (cases r)
      case (Inl e)
      have "\<not> exchanged H (hs_requestTimeoutMs s) (client_context H) (hs_uri s) ?req (hs_world s) w" for w
        using exchange_iff [of H "client_context H" "hs_uri s" ?req s "()" "s\<lparr>hs_world := w\<rparr>"] Some q Inl by auto
      moreover have "hs_lastSuccessMs t = hs_lastSuccessMs s" using keepsP_D [OF transport_keeps(6) [OF success_apart]] Some q by blast
      ultimately show ?thesis using Some q Inl ready by (simp add: run(2))
    next
      case (Inr u)
      obtain now w where now: "wall_ms H (hs_world t) = (now, w)" by fastforce
      have "hs_lastSuccessMs t' = now"
        if "timed_stage H StShutdown (t\<lparr>hs_world := w, hs_lastSuccessMs := now\<rparr>) = Some (x, t')" for x t'
        using keepsP_D [OF transport_keeps(1) [OF success_apart] that] by simp
      moreover obtain w' where "exchanged H (hs_requestTimeoutMs s) (client_context H) (hs_uri s) ?req (hs_world s) w'"
        "hs_world t = w'" using Some q Inr by (auto simp: exchange_iff)
      moreover from this have "io_done H w'" using response_read_done by (auto simp: exchanged_def)
      ultimately show ?thesis using Some q Inr now ready by (auto simp: run(3) Let_def split: option.split)
    qed
  qed
qed

section \<open>What a signature covers\<close>

lemma find_question: "CHR ''?'' \<notin> set path \<Longrightarrow> str_find ''?'' (path @ ''?'' @ q) = Some (length path)"
  by (induction path) auto

lemma header_set [simp]: "map_of (rq_headers (set_header k v req)) k' = (if k' = k then Some v else map_of (rq_headers req) k')"
proof -
  have "map_of (filter (\<lambda>(k', _). k' \<noteq> k) hs) k' = (if k' = k then None else map_of hs k')" for hs :: "(string \<times> string) list"
    by (induction hs) auto
  then show ?thesis by (auto simp: set_header_def map_add_def split: option.split)
qed

lemma header_target [simp]: "rq_target (set_header k v req) = rq_target req"
  by (simp add: set_header_def)

text \<open>
  C31. A signed GET signs what it sends: the target is the path and the query string, and the
  signature is the keyed hash of the timestamp, the key, the receive window and exactly that query
  string, each of which the request carries in clear.
\<close>

theorem get_signs_query:
  assumes "hs_apiKey s \<noteq> []" and "CHR ''?'' \<notin> set path" and "createQueryStr ps \<noteq> []"
    and "sign s = Some (Inr ts, s1)" and "hs_apiKey s1 = hs_apiKey s"
  shows "\<exists>req. get_with H sign path ps s = request H req s1
    \<and> rq_target req = path @ ''?'' @ createQueryStr ps
    \<and> map_of (rq_headers req) ''X-BAPI-TIMESTAMP'' = Some (int_to_string ts)
    \<and> map_of (rq_headers req) ''X-BAPI-API-KEY'' = Some (hs_apiKey s1)
    \<and> map_of (rq_headers req) ''X-BAPI-RECV-WINDOW'' = Some (int_to_string (hs_receiveWindow s1))
    \<and> map_of (rq_headers req) ''X-BAPI-SIGN'' = Some (hmac_hex H (hs_apiSecret s1)
         (int_to_string ts @ hs_apiKey s1 @ int_to_string (hs_receiveWindow s1) @ createQueryStr ps))"
proof -
  let ?req = "\<lparr>rq_method = ''GET'', rq_target = path @ ''?'' @ createQueryStr ps, rq_headers = [], rq_body = []\<rparr>"
  have "after_question (rq_target ?req) = createQueryStr ps"
    using find_question [OF assms(2), of "createQueryStr ps"] by (simp add: after_question_def)
  then obtain req where "authenticateNonPost H sign ?req s = Some (Inr req, s1)"
    and req: "req = set_header ''X-BAPI-RECV-WINDOW'' (int_to_string (hs_receiveWindow s1))
           (set_header ''X-BAPI-TIMESTAMP'' (int_to_string ts)
           (set_header ''X-BAPI-SIGN-TYPE'' ''2''
           (set_header ''X-BAPI-SIGN'' (hmac_hex H (hs_apiSecret s1) (signing_base ts s1 (createQueryStr ps)))
           (set_header ''X-BAPI-API-KEY'' (hs_apiKey s1) ?req))))"
    using assms by (simp add: authenticateNonPost_def bindP_step)
  then have "get_with H sign path ps s = request H req s1"
    using assms(3) by (simp add: get_with_def Let_def bindP_step)
  then show ?thesis by (intro exI [of _ req]) (simp add: req signing_base_def)
qed

section \<open>The exchange clock\<close>

lemma sync_fresh:
  assumes "wall_ms H (hs_world s) = (t1, w1)" "hs_lastTimeSyncMs s \<noteq> 0"
    "t1 - hs_lastTimeSyncMs s < TIME_SYNC_INTERVAL_MS"
  shows "ensureTimeSync J H getTime s = Some (Inr (), s\<lparr>hs_world := w1\<rparr>)"
  using assms by (simp add: ensureTimeSync_def bindP_step now_ms_def)

lemma sign_fresh:
  assumes "wall_ms H (hs_world s) = (t1, w1)" "hs_lastTimeSyncMs s \<noteq> 0"
    "t1 - hs_lastTimeSyncMs s < TIME_SYNC_INTERVAL_MS"
  shows "signingTimestamp (Suc d) J H s = signingTimestamp (Suc 0) J H s"
  using sync_fresh [OF assms] by (simp add: bindP_step)

lemma get_with_cong: "sign s = sign' s \<Longrightarrow> get_with H sign path ps s = get_with H sign' path ps s"
  by (simp add: get_with_def Let_def authenticateNonPost_def bindP_def)

text \<open>Signing does not throw, whatever became of the question for the time.\<close>

lemma now_ms_Inr: "now_ms H s = Some (r, t) \<Longrightarrow> \<exists>x. r = Inr x"
  by (auto simp: now_ms_def split: prod.splits)

lemma sync_no_error: "ensureTimeSync J H getTime s \<noteq> Some (Inl e, t)"
  by (auto simp: ensureTimeSync_def bindP_cases catchP_cases dest: now_ms_Inr)

lemma sign_no_error: "signingTimestamp depth J H s \<noteq> Some (Inl e, t)"
  by (cases depth) (auto simp: bindP_cases sync_no_error dest: now_ms_Inr)

text \<open>Signing, and any request, leaves alone whom it signs for.\<close>

definition identity :: "'w http_session \<Rightarrow> string \<times> int \<times> string \<times> string" where
  "identity s = (hs_apiKey s, hs_receiveWindow s, hs_apiSecret s, hs_uri s)"

lemma identity_apart [simp]: "apart_from_world identity"
  by (simp add: apart_from_world_def identity_def)

lemma identity_modify:
  "keepsP identity (modifyP (\<lambda>s. s\<lparr>hs_lastSuccessMs := x\<rparr>))" "keepsP identity (modifyP (\<lambda>s. s\<lparr>hs_lastTimeSyncMs := x\<rparr>))"
  "keepsP identity (modifyP (\<lambda>s. s\<lparr>hs_timeOffsetMs := x\<rparr>))"
  by (auto simp: keepsP_def modifyP_def identity_def)

lemma request_identity: "keepsP identity (request H req)"
  unfolding request_def Let_def by (intro keepsP_bindP keepsP_catchP transport_keeps identity_apart identity_modify keepsP_basic)

lemma sign_identity: "keepsP identity (signingTimestamp depth J H)"
proof (induction depth)
  case (Suc depth)
  have "keepsP identity (authenticateNonPost H (signingTimestamp depth J H) req)" for req
    unfolding authenticateNonPost_def
    by (intro keepsP_bindP) (auto intro!: keepsP_bindP Suc.IH)
  then have "keepsP identity (get_with H (signingTimestamp depth J H) p ps)" for p ps
    unfolding get_with_def Let_def by (intro keepsP_bindP request_identity)
  then have "keepsP identity (ensureTimeSync J H (get_with H (signingTimestamp depth J H) p ps))" for p ps
    unfolding ensureTimeSync_def
    by (auto intro!: keepsP_bindP keepsP_catchP transport_keeps identity_apart identity_modify split: option.split)
  then show ?case by (auto intro!: keepsP_bindP transport_keeps identity_apart)
qed (simp add: keepsP_def)

text \<open>Past the interval, a synchronization is one request for the time, made at the clock reading.\<close>

lemma sync_stale:
  assumes "wall_ms H (hs_world s) = (t0, w0)"
    and "\<not> (hs_lastTimeSyncMs s \<noteq> 0 \<and> t0 - hs_lastTimeSyncMs s < TIME_SYNC_INTERVAL_MS)"
  shows "ensureTimeSync J H g s = catchP
     (bindP g (\<lambda>response.
      bindP (liftR (server_nanos J response)) (\<lambda>nanos. case nanos of
        None \<Rightarrow> ret ()
      | Some timeNano \<Rightarrow>
          bindP (now_ms H) (\<lambda>local.
          modifyP (\<lambda>s. s\<lparr>hs_timeOffsetMs := timeNano div 1000000 - local\<rparr>)))))
     (\<lambda>_. ret ()) (s\<lparr>hs_world := w0, hs_lastTimeSyncMs := t0\<rparr>)"
  using assms by (auto simp: ensureTimeSync_def bindP_step now_ms_def)

lemma sign_returns:
  "ensureTimeSync J H (get_with H (signingTimestamp d J H) ''/v5/market/time'' []) s \<noteq> None
    \<Longrightarrow> signingTimestamp (Suc d) J H s \<noteq> None"
  by (auto simp: bindP_def now_ms_def readP_def split: option.splits sum.splits prod.splits)

lemma get_returns:
  assumes "transport_ends H m" and "sign s \<noteq> None"
  shows "get_with H sign path ps s \<noteq> None"
proof -
  have "authenticateNonPost H sign req s \<noteq> None" for req
    using assms(2) by (auto simp: authenticateNonPost_def bindP_def readP_def ret_def split: option.splits sum.splits prod.splits)
  then show ?thesis
    unfolding get_with_def Let_def by (intro bindP_returns request_returns [OF assms(1)])
qed

lemma signing_ends:
  assumes "wall_ms H (hs_world s) = (t0, w0)" and "wall_ms H w0 = (t1, w1)"
    and "t0 \<noteq> 0" and "t1 - t0 < TIME_SYNC_INTERVAL_MS" and "transport_ends H m"
  shows "\<exists>ts s'. \<forall>d. signingTimestamp (Suc (Suc d)) J H s = Some (Inr ts, s')"
proof -
  let ?get = "\<lambda>d. get_with H (signingTimestamp (Suc d) J H) ''/v5/market/time'' []"
  have same: "ensureTimeSync J H (?get d) s = ensureTimeSync J H (?get 0) s \<and> ensureTimeSync J H (?get 0) s \<noteq> None" for d
  proof (cases "hs_lastTimeSyncMs s \<noteq> 0 \<and> t0 - hs_lastTimeSyncMs s < TIME_SYNC_INTERVAL_MS")
    case True
    with sync_fresh [OF assms(1)] show ?thesis by simp
  next
    case False
    let ?t = "s\<lparr>hs_world := w0, hs_lastTimeSyncMs := t0\<rparr>"
    have fresh: "wall_ms H (hs_world ?t) = (t1, w1)" "hs_lastTimeSyncMs ?t \<noteq> 0"
      "t1 - hs_lastTimeSyncMs ?t < TIME_SYNC_INTERVAL_MS" using assms by simp_all
    have "?get d ?t = ?get 0 ?t" by (rule get_with_cong) (rule sign_fresh [OF fresh])
    moreover have "?get 0 ?t \<noteq> None"
      by (intro get_returns [OF assms(5)] sign_returns) (use sync_fresh [OF fresh] in simp)
    ultimately show ?thesis
      unfolding sync_stale [OF assms(1) False] catchP_def bindP_def
      by (auto simp: liftR_def ret_def now_ms_def modifyP_def throwP_def split: option.splits sum.splits prod.splits)
  qed
  have "signingTimestamp (Suc (Suc d)) J H s = signingTimestamp (Suc (Suc 0)) J H s" for d
    using same [of d] by (simp add: bindP_def del: signingTimestamp.simps(2) add: signingTimestamp.simps(2) [of "Suc _"])
  moreover have "signingTimestamp (Suc (Suc 0)) J H s \<noteq> None"
    using same [of 0] by (intro sign_returns) blast
  then obtain r s' where "signingTimestamp (Suc (Suc 0)) J H s = Some (r, s')" by auto
  moreover from this obtain ts where "r = Inr ts" using sign_no_error by (cases r) blast+
  ultimately show ?thesis by auto
qed

text \<open>
  C32. Asking for the exchange time, itself a signed request, does not recurse without end. When two
  clock readings in a row are less than the synchronization interval apart and the first is not
  zero, and the exchanges of the transport end, signing returns a timestamp, and never goes
  deeper than the one nested request: any depth from two on gives the same.
\<close>

theorem time_sync_recursion:
  assumes "wall_ms H (hs_world s) = (t0, w0)" and "wall_ms H w0 = (t1, w1)"
    and "t0 \<noteq> 0" and "t1 - t0 < TIME_SYNC_INTERVAL_MS" and "transport_ends H m"
  shows "\<exists>ts s'. \<forall>d. signingTimestamp (Suc (Suc d)) J H s = Some (Inr ts, s')"
  using assms by (rule signing_ends)

section \<open>Witnesses\<close>

text \<open>A transport on which everything succeeds, and a clock that ticks by one.\<close>

definition demo_http :: "(json, int) http_env" where
  "demo_http = \<lparr>io = (\<lambda>st timeout w. (Some [OpDone None], w)), io_ssl_context = None,
     io_platform = \<lparr>pf_pathsError = None, pf_windows = False, pf_rootStore = None, pf_decode = (\<lambda>_. None)\<rparr>,
     io_ssl_stream = None, io_sni = (\<lambda>_. None), ec_message = (\<lambda>_. []),
     beast_version = [], io_done = (\<lambda>_. True),
     io_response = (\<lambda>_. \<lparr>resp_status = 200, resp_body = [], resp_header = (\<lambda>_. None)\<rparr>),
     wall_ms = (\<lambda>w. (w, w + 1)), hmac_hex = (\<lambda>secret text. secret @ text), queryStringFromJson = (\<lambda>_. [])\<rparr>"

lemma get_signs_query_witness:
  "\<exists>req. get_with demo_http (ret 7) ''/v5/position/list'' [(''limit'', ''200'')] (http_session_init ''k'' ''s'' [] 1)
      = request demo_http req (http_session_init ''k'' ''s'' [] 1)
    \<and> rq_target req = ''/v5/position/list?limit=200''
    \<and> map_of (rq_headers req) ''X-BAPI-SIGN'' = Some (''s'' @ int_to_string 7 @ ''k'' @ int_to_string 5000 @ ''limit=200'')"
proof -
  let ?s = "http_session_init ''k'' ''s'' [] 1 :: int http_session"
  have "hs_apiKey ?s \<noteq> []" "CHR ''?'' \<notin> set ''/v5/position/list''" "createQueryStr [(''limit'', ''200'')] \<noteq> []"
    "ret 7 ?s = Some (Inr 7, ?s)"
    by (simp_all add: http_session_init_def createQueryStr_def)
  with get_signs_query [of ?s "''/v5/position/list''" "[(''limit'', ''200'')]" "ret 7" 7 ?s demo_http] show ?thesis
    by (auto simp: http_session_init_def createQueryStr_def demo_http_def)
qed

lemma time_sync_recursion_witness:
  "\<exists>ts s'. signingTimestamp 9 (mini (\<lambda>_. None)) demo_http (http_session_init ''k'' ''s'' [] 1) = Some (Inr ts, s')
     \<and> signingTimestamp 2 (mini (\<lambda>_. None)) demo_http (http_session_init ''k'' ''s'' [] 1) = Some (Inr ts, s')"
proof -
  have "wall_ms demo_http (hs_world (http_session_init ''k'' ''s'' [] 1)) = (1, 2)" "wall_ms demo_http 2 = (2, 3)"
    "transport_ends demo_http (\<lambda>_. 0)"
    by (simp_all add: demo_http_def http_session_init_def transport_ends_def)
  from time_sync_recursion [OF this(1,2) _ _ this(3), of "mini (\<lambda>_. None)"] obtain ts s' where
    run: "\<And>d. signingTimestamp (Suc (Suc d)) (mini (\<lambda>_. None)) demo_http (http_session_init ''k'' ''s'' [] 1) = Some (Inr ts, s')"
    by (auto simp: TIME_SYNC_INTERVAL_MS_def)
  from run [of 7] run [of 0] show ?thesis by (simp add: numeral_eq_Suc)
qed

end
