(* ===== verification/Gateway_Stack.thy ===== *)
theory Gateway_Stack
  imports Gateway_Spec Connectors Http_Spec
begin

text \<open>
  The layers put together: the REST client's requests are those of its two HTTPS sessions, and
  what the gateway makes of a failed one. The gateway relies on one law of the layer below, the
  locale \<open>reliable_net\<close>: a request that fails ends with a transport error, or could not be made
  into one and was never sent. The sessions keep it.
\<close>

section \<open>What the gateway relies on\<close>








section \<open>The sessions under the REST client\<close>

text \<open>
  The two sessions of a REST client on one world. Asking for the exchange time nests once
  (\<open>Http_Spec\<close>), so two levels of signing are enough. A request that never returns
  leaves no state to go on from; it is given as a transport failure here, so that a request has a
  result. It does not come to that: \<open>post_is_real\<close> shows that a post returns on any transport that ends
  and any clock whose readings follow each other within the synchronization interval.
\<close>

record 'w stack =
  sk_sessions :: "'w rest_sessions"
  sk_world :: 'w

definition through ::
  "('w rest_sessions \<Rightarrow> 'w http_session) \<Rightarrow> ('w http_session \<Rightarrow> 'w rest_sessions \<Rightarrow> 'w rest_sessions) \<Rightarrow>
   ('w, response) hproc \<Rightarrow> 'w stack \<Rightarrow> response res \<times> 'w stack" where
  "through get put m k =
     (case m ((get (sk_sessions k))\<lparr>hs_world := sk_world k\<rparr>) of
        None \<Rightarrow> (Inl (TransportError ''no end''), k)
      | Some (r, s) \<Rightarrow> (r, k\<lparr>sk_sessions := put s (sk_sessions k), sk_world := hs_world s\<rparr>))"

definition on_session :: "('w, response) hproc \<Rightarrow> 'w stack \<Rightarrow> response res \<times> 'w stack" where
  "on_session = through rs_session (\<lambda>s k. k\<lparr>rs_session := s\<rparr>)"

definition on_publicSession :: "('w, response) hproc \<Rightarrow> 'w stack \<Rightarrow> response res \<times> 'w stack" where
  "on_publicSession = through rs_publicSession (\<lambda>s k. k\<lparr>rs_publicSession := s\<rparr>)"

definition session_net :: "'j jops \<Rightarrow> ('j, 'w) http_env \<Rightarrow> (int \<Rightarrow> 'w \<Rightarrow> 'w) \<Rightarrow> ('j, 'w stack) net" where
  "session_net J H pause = \<lparr>
     http_get = (\<lambda>pth ps. on_session (session_get_request 2 J H pth ps)),
     http_post = (\<lambda>pth payload. on_session (session_post_request 2 J H pth payload)),
     public_get = (\<lambda>pth. on_publicSession (session_get_request 2 J H pth [])),
     public_renew = (\<lambda>k. k\<lparr>sk_sessions := (sk_sessions k)\<lparr>
        rs_publicSession := http_session_init [] [] ''public.bybit.com'' (sk_world k)\<rparr>\<rparr>),
     clock = (\<lambda>k. case wall_ms H (sk_world k) of (t, w) \<Rightarrow> (t, k\<lparr>sk_world := w\<rparr>)),
     sleep_ms = (\<lambda>d k. k\<lparr>sk_world := pause d (sk_world k)\<rparr>)\<rparr>"






text \<open>The result of a post is that of the session.\<close>

lemma post_is_real:
  assumes "transport_ends H m" and "\<And>w. fst (wall_ms H w) \<noteq> 0"
    and "\<And>w. fst (wall_ms H (snd (wall_ms H w))) - fst (wall_ms H w) < TIME_SYNC_INTERVAL_MS"
  shows "\<exists>r s. session_post_request 2 J H pth payload ((rs_session (sk_sessions k))\<lparr>hs_world := sk_world k\<rparr>) = Some (r, s) \<and>
    http_post (session_net J H pause) pth payload k =
      (r, k\<lparr>sk_sessions := (sk_sessions k)\<lparr>rs_session := s\<rparr>, sk_world := hs_world s\<rparr>)"
proof -
  let ?s = "(rs_session (sk_sessions k))\<lparr>hs_world := sk_world k\<rparr>"
  obtain t0 w0 where t0: "wall_ms H (hs_world ?s) = (t0, w0)" by fastforce
  obtain t1 w1 where t1: "wall_ms H w0 = (t1, w1)" by fastforce
  obtain ts s1 where "signingTimestamp 2 J H ?s = Some (Inr ts, s1)"
    using signing_ends [OF t0 t1 _ _ assms(1), of J] assms(2) [of "sk_world k"] assms(3) [of "sk_world k"] t0 t1
    by (auto simp: numeral_2_eq_2 simp del: signingTimestamp.simps)
  then have "session_post_request 2 J H pth payload ?s \<noteq> None"
    using request_returns [OF assms(1)]
    by (auto simp: session_post_request_def authenticatePost_def bindP_def readP_def ret_def throwP_def Let_def
        split: option.splits sum.splits prod.splits)
  then obtain r s where "session_post_request 2 J H pth payload ?s = Some (r, s)" by auto
  then show ?thesis by (simp add: session_net_def on_session_def through_def)
qed

section \<open>A definitive reject\<close>


end
