(* ===== verification/Gateway_Demo.thy ===== *)
theory Gateway_Demo
  imports Gateway_Live Gateway_Stack Ws_Session_Runs
begin

text \<open>
  Runs of the gateway, evaluated: \<open>start\<close> reads the instruments, the private session connects,
  authenticates and has its two topics acknowledged while \<open>start\<close> sleeps, and the order that is
  then submitted is posted. And a rejected order, over the HTTPS sessions.
\<close>

definition live_json :: "string \<Rightarrow> json option" where
  "live_json text =
     (if starts_with ''ack:'' text
      then Some (JObj [(''op'', JStr ''subscribe''), (''success'', JBool True), (''req_id'', JStr (drop 4 text))])
      else map_of
     [(''auth'', JObj [(''op'', JStr ''auth''), (''success'', JBool True)]),
      (''instruments'', JObj [(''retCode'', JInt 0), (''result'', JObj [(''category'', JStr ''linear''),
         (''list'', JArr [JObj [(''symbol'', JStr ''BTCUSDT''),
            (''priceFilter'', JObj [(''tickSize'', JStr ''1'')]),
            (''lotSizeFilter'', JObj [(''qtyStep'', JStr ''1'')])]])])]),
      (''placed'', JObj [(''retCode'', JInt 0), (''result'', JObj [(''orderId'', JStr ''o1'')])]),
      (''fills'', JObj [(''topic'', JStr ''execution''), (''type'', JStr ''snapshot''),
         (''data'', JArr [JObj [(''execType'', JStr ''Trade''), (''orderLinkId'', JStr ''c1''), (''execId'', JStr ''x1'')]])])] text)"

abbreviation LJ :: "json jops" where "LJ \<equiv> mini live_json"

definition answer :: "string \<Rightarrow> response" where
  "answer b = \<lparr>resp_status = 200, resp_body = b, resp_header = (\<lambda>_. None)\<rparr>"

text \<open>The world is its clock and the paths that were posted to.\<close>

definition live_net :: "(json, int \<times> string list) net" where
  "live_net = \<lparr>http_get = (\<lambda>p _ w. (Inr (answer ''instruments''), w)),
     http_post = (\<lambda>p _ (t, log). (Inr (answer ''placed''), (t, log @ [p]))),
     public_get = (\<lambda>_ w. (Inl (TransportError []), w)), public_renew = (\<lambda>w. w),
     clock = (\<lambda>(t, log). (t, (t, log))), sleep_ms = (\<lambda>d (t, log). (t + d, log))\<rparr>"

text \<open>What the io thread does during the first sleep of \<open>start\<close>.\<close>

definition script :: "(env \<times> op) list" where
  "script = [(calm, PostStart), (calm, Resolve 1), (calm, TcpConnect 1), (calm, TlsHandshake 1),
     (calm\<lparr>ms_clock := -5000\<rparr>, WsHandshake 1),
     (calm, Write 1), (reads ''auth'', Read 1), (calm, Write 1), (reads ''ack:1'', Read 1)]"

definition replay :: "json client \<Rightarrow> json client" where
  "replay c = (case cl_session c of None \<Rightarrow> c
    | Some s \<Rightarrow> (case runs LJ s script of None \<Rightarrow> c
       | Some s' \<Rightarrow> if cl_isRunning c then c\<lparr>cl_session := Some s'\<rparr> else c))"

lemma runs_io:
  "runs J s xs = Some s' \<Longrightarrow> cl_session c = Some s \<Longrightarrow> cl_isRunning c
    \<Longrightarrow> (io_step J)\<^sup>*\<^sup>* c (c\<lparr>cl_session := Some s'\<rparr>)"
proof (induction J s xs arbitrary: c rule: runs.induct)
  case (1 J s)
  then have "c\<lparr>cl_session := Some s'\<rparr> = c" by (cases c) auto
  then show ?case by simp
next
  case (2 J s e x xs)
  let ?c = "c\<lparr>cl_session := Some (complete J e x s)\<rparr>"
  have x: "x \<in> set (ops s)" "timer_ok x e s" and rest: "runs J (complete J e x s) xs = Some s'"
    using 2(2) by (auto split: if_splits)
  have "io_step J c (client_io J e x c)" using 2(3,4) x by (intro io_step.handler)
  moreover have "client_io J e x c = ?c" using 2(3) by (simp add: client_io_def)
  moreover have "(io_step J)\<^sup>*\<^sup>* ?c (?c\<lparr>cl_session := Some s'\<rparr>)"
    using x rest 2(4) by (intro 2(1)) simp_all
  ultimately show ?case by (simp add: converse_rtranclp_into_rtranclp)
qed

lemma replay_io: "(io_step LJ)\<^sup>*\<^sup>* c (replay c)"
  by (auto simp: replay_def intro: runs_io split: option.split)

definition new_gateway :: "(json, int \<times> string list) gateway" where
  "new_gateway = gateway_init \<lparr>r_instruments = [], r_limiter = RateLimiter_init, r_world = (0, [])\<rparr> ''key'' ''secret'' Mainnet 0"

text \<open>The private session when \<open>start\<close> begins to wait, and after the script.\<close>

definition waiting :: "json manager" where
  "waiting = connect (gw_private new_gateway)"

definition asked :: "json session" where
  "asked = subscribe ''execution'' (start_op PostStart (addTopic ''order''
     ((made True (Some (''key'', ''secret'')))\<lparr>host := ''stream.bybit.com'', port := ''443'', path := ''/v5/private'',
       dataEventCB := Some (\<lambda>_. None)\<rparr>)))"

definition acked :: "json session" where
  "acked = the (runs LJ asked script)"

lemma waiting_state:
  "cl_session (pm_client waiting) = Some asked" "cl_isRunning (pm_client waiting)"
  by (simp_all add: waiting_def new_gateway_def gateway_init_def manager_setLoggerCallback_def
      connect_def manager_init_def client_setCredentials_def client_setEndpoint_def client_setLoggerCallback_def
      client_setDataEventCallback_def client_init_def client_subscribe_def client_isSubscribed_def
      client_run_def run_def asked_def made_def ORDER_TOPIC_def EXECUTION_TOPIC_def BYBIT_WS_PRIVATE_PATH_def
      BYBIT_WS_PRIVATE_PORT_def addTopic_def fresh_session_def setCredentials_def isSubscribed_def start_op_def Let_def)

lemma asked_state: "isSubscribed ''order'' asked" "isSubscribed ''execution'' asked" "\<not> authenticatedFlag asked"
  by code_simp+

lemma acked_run: "runs LJ asked script = Some acked"
proof -
  have "runs LJ asked script \<noteq> None" by code_simp
  then show ?thesis by (auto simp: acked_def)
qed

lemma acked_state:
  "authenticatedFlag acked" "isSubscriptionConfirmed ''order'' acked" "isSubscriptionConfirmed ''execution'' acked"
  by code_simp+

lemma replay_waiting: "replay (pm_client waiting) = (pm_client waiting)\<lparr>cl_session := Some acked\<rparr>"
  by (simp add: replay_def waiting_state acked_run)

lemma asked_not_live: "isLive waiting = (False, waiting)"
  by (simp add: isLive_def ORDER_TOPIC_def EXECUTION_TOPIC_def client_isSubscribed_def client_isAuthenticated_def
      isAuthenticated_def waiting_state asked_state Let_def)

definition live_manager :: "json manager" where
  "live_manager = waiting\<lparr>pm_client := replay (pm_client waiting)\<rparr>"

lemma acked_subscribed: "isSubscribed ''order'' acked" "isSubscribed ''execution'' acked" "delivered acked = []"
  by code_simp+

lemma live: "isLive live_manager = (True, live_manager)"
  by (simp add: isLive_def ORDER_TOPIC_def EXECUTION_TOPIC_def client_isSubscribed_def client_isAuthenticated_def
      client_isSubscriptionConfirmed_def isAuthenticated_def live_manager_def replay_waiting acked_state acked_subscribed Let_def)

lemma ran: "(case m of Some (Inr x, t) \<Rightarrow> P x t | _ \<Rightarrow> False) \<Longrightarrow> \<exists>x t. m = Some (Inr x, t) \<and> P x t"
  by (cases m; cases "fst (the m)") (auto split: prod.splits)

text \<open>The REST client with its instruments.\<close>

definition primed :: "(int \<times> string list) rclient" where
  "primed = snd (the (getInstrumentsInfo LJ live_net linear [] True [] (gw_rest new_gateway)))"

lemma fetched: "\<exists>xs. getInstrumentsInfo LJ live_net linear [] True [] (gw_rest new_gateway) = Some (Inr xs, primed)"
proof -
  have "case getInstrumentsInfo LJ live_net linear [] True [] (gw_rest new_gateway) of Some (Inr xs, t) \<Rightarrow> True | _ \<Rightarrow> False"
    by code_simp
  from ran [OF this] show ?thesis by (auto simp: primed_def)
qed

definition live_gateway :: "(json, int \<times> string list) gateway" where
  "live_gateway = new_gateway\<lparr>gw_rest := primed, gw_private := live_manager\<rparr>"

lemma start_run:
  "Gateway.start LJ live_net (\<lambda>n m. m\<lparr>pm_client := replay (pm_client m)\<rparr>) new_gateway = Some (Inr (), live_gateway)"
proof -
  let ?io = "\<lambda>n m. m\<lparr>pm_client := replay (pm_client m)\<rparr>"
  let ?g = "new_gateway\<lparr>gw_rest := primed, gw_private := waiting\<rparr>"
  have "awaitLive ?io n ?g = Some (Inr (), live_gateway)" if "n = Suc (Suc k)" for n k
    by (simp add: that asked_not_live live live_manager_def [symmetric] live_gateway_def)
  from this [of 100 98] have "awaitLive ?io 100 ?g = Some (Inr (), live_gateway)" by simp
  moreover obtain xs where "rest_call (getInstrumentsInfo LJ live_net linear [] True []) new_gateway =
      Some (Inr xs, new_gateway\<lparr>gw_rest := primed\<rparr>)"
    using fetched by (auto simp: rest_call_Some)
  ultimately show ?thesis
    by (simp add: Gateway.start_def bindP_step waiting_def)
qed

lemma live_gateway_reachable: "(gstep LJ live_net F split)\<^sup>*\<^sup>* new_gateway live_gateway"
proof (rule r_into_rtranclp)
  have "gstep LJ live_net F split new_gateway
     (hear LJ (news (pm_client (gw_private new_gateway)) (pm_client (gw_private live_gateway))) live_gateway)"
    using replay_io start_run by (rule gstep.start)
  moreover have "news (pm_client (gw_private new_gateway)) (pm_client (gw_private live_gateway)) = []"
    by (simp add: news_def heard_def live_gateway_def live_manager_def replay_waiting acked_subscribed)
  ultimately show "gstep LJ live_net F split new_gateway live_gateway" by (simp add: hear_def)
qed

lemma order_posted:
  "case placeOrder LJ live_net (post_only_order 0 ''c1'' ''BTCUSDT'' OSBuy 1 2 False) primed of
     Some (Inr _, t) \<Rightarrow> r_world t = (0, [''/v5/order/create'']) | _ \<Rightarrow> False"
  by code_simp

definition after_order :: "(json, int \<times> string list) gateway" where
  "after_order = live_gateway\<lparr>gw_rest := snd (the (placeOrder LJ live_net
     (post_only_order 0 ''c1'' ''BTCUSDT'' OSBuy 1 2 False) primed))\<rparr>"

lemma order_submitted:
  "submitPostOnlyLimit LJ live_net ''c1'' ''BTCUSDT'' OSBuy 1 2 False live_gateway = Some (Inr (), after_order)"
proof -
  obtain x t where "placeOrder LJ live_net (post_only_order 0 ''c1'' ''BTCUSDT'' OSBuy 1 2 False) primed = Some (Inr x, t)"
    using ran [OF order_posted] by blast
  moreover from this have "after_order = live_gateway\<lparr>gw_rest := t\<rparr>" by (simp add: after_order_def)
  ultimately have "rest_call (placeOrder LJ live_net (post_only_order 0 ''c1'' ''BTCUSDT'' OSBuy 1 2 False)) live_gateway
      = Some (Inr x, after_order)"
    by (auto simp: rest_call_Some live_gateway_def)
  moreover have "gw_positionIdx live_gateway = 0" by (simp add: live_gateway_def new_gateway_def gateway_init_def)
  moreover have "requireEventStream ''submit'' live_gateway = Some (Inr (), live_gateway)"
    by (simp add: requireEventStream_def live_gateway_def live)
  ultimately show ?thesis
    by (simp add: submitPostOnlyLimit_def bindP_step catchP_step)
qed

section \<open>The properties at work\<close>

lemma gateway_well_formed_witness: "host acked = ''stream.bybit.com'' \<and> authRequired acked"
  using gateway_well_formed [OF live_gateway_reachable [where F = "\<lambda>_. []" and split = "\<lambda>_. []", unfolded new_gateway_def]]
  by (simp add: live_gateway_def live_manager_def replay_waiting)

lemma orders_need_live_stream_witness: "connected acked \<and> authenticated acked \<and> isSubscriptionConfirmed ''execution'' acked"
  using orders_need_live_stream [OF live_gateway_reachable [where F = "\<lambda>_. []" and split = "\<lambda>_. []", unfolded new_gateway_def]
      _ _ disjI1 [OF order_submitted]]
  by (simp add: live_gateway_def live_manager_def replay_waiting)

text \<open>A fill that arrives on the stream.\<close>

definition filled :: "json client" where
  "filled = client_io LJ (reads ''fills'') (Read 1) (pm_client live_manager)"

lemma acked_ready: "Read 1 \<in> set (ops acked)" by code_simp

lemma filled_step: "io_step LJ (pm_client live_manager) filled"
  unfolding filled_def
  by (rule io_step.handler [of _ acked])
    (use waiting_state acked_ready in \<open>simp_all add: live_manager_def replay_waiting\<close>)

lemma filled_fills:
  "map fe_fillId (concat (map (stream_fills LJ) (delivered (complete LJ (reads ''fills'') (Read 1) acked)))) = [''x1'']"
  by code_simp

lemma filled_heard:
  "map fe_fillId (gw_fills (private_io LJ filled (setFillCallback (\<lambda>_. None) live_gateway))) = [''x1'']"
  using filled_fills
  by (simp add: private_io_def hear_eq news_def heard_def filled_def client_io_def live_gateway_def live_manager_def
      replay_waiting acked_subscribed setFillCallback_def if_set_def new_gateway_def gateway_init_def)

lemma stream_message_witness:
  "gw_fills (private_io LJ filled (setFillCallback (\<lambda>_. None) live_gateway)) =
     (case message_read LJ (reads ''fills'') (Read 1) acked of None \<Rightarrow> [] | Some event \<Rightarrow> stream_fills LJ event) \<and>
   map fe_fillId (gw_fills (private_io LJ filled (setFillCallback (\<lambda>_. None) live_gateway))) = [''x1'']"
proof -
  let ?g = "setFillCallback (\<lambda>_. None) live_gateway"
  have "gstep LJ live_net (\<lambda>_. []) (\<lambda>_. []) live_gateway ?g" by (rule gstep.set_fill)
  with live_gateway_reachable [where F = "\<lambda>_. []" and split = "\<lambda>_. []"]
  have run: "(gstep LJ live_net (\<lambda>_. []) (\<lambda>_. []))\<^sup>*\<^sup>* new_gateway ?g" by (rule rtranclp.rtrancl_into_rtrancl)
  have "cl_session (pm_client (gw_private ?g)) = Some acked" "gw_fills ?g = []" "gw_fillCB ?g \<noteq> None"
    "filled = client_io LJ (reads ''fills'') (Read 1) (pm_client (gw_private ?g))"
    by (simp_all add: setFillCallback_def live_gateway_def live_manager_def replay_waiting new_gateway_def gateway_init_def
        filled_def)
  note at = this
  have eq: "private_io LJ filled ?g = ?g\<lparr>gw_private := (gw_private ?g)\<lparr>pm_client := filled\<rparr>,
      gw_fills := (case message_read LJ (reads ''fills'') (Read 1) acked of None \<Rightarrow> [] | Some event \<Rightarrow> stream_fills LJ event),
      gw_updates := gw_updates (private_io LJ filled ?g)\<rparr>"
    using stream_message [OF run [unfolded new_gateway_def] at(1), of "reads ''fills''" "Read 1"] at(2-4)
    unfolding Let_def by simp
  have "gw_fills (private_io LJ filled ?g) =
      (case message_read LJ (reads ''fills'') (Read 1) acked of None \<Rightarrow> [] | Some event \<Rightarrow> stream_fills LJ event)"
    by (subst eq) simp
  with filled_heard show ?thesis by simp
qed

text \<open>The connection breaks, and comes back.\<close>

lemma live_venue: "venue_can_say_yes LJ"
proof -
  have "says LJ ''auth'' ''auth'' []"
    by (simp add: says_def live_json_def isApiControlMsg_def mini_read_def j_contains_def ex_bool_eq)
  moreover have "says LJ (''ack:'' @ reqId) ''subscribe'' reqId" for reqId
    by (simp add: says_def live_json_def isApiControlMsg_def mini_read_def j_contains_def ex_bool_eq)
  ultimately show ?thesis unfolding venue_can_say_yes_def by blast
qed

definition cut_gateway :: "(json, int \<times> string list) gateway" where
  "cut_gateway = private_io LJ (client_io LJ broken (Read 1) (pm_client live_manager)) live_gateway"

lemma cut_session: "\<not> isAuthenticated (complete LJ broken (Read 1) acked)" "reconnectScheduled (complete LJ broken (Read 1) acked)"
  by code_simp+

lemma cut_reachable: "gstep LJ live_net F split live_gateway cut_gateway"
proof -
  have "io_step LJ (pm_client live_manager) (client_io LJ broken (Read 1) (pm_client live_manager))"
    by (rule io_step.handler [of _ acked])
      (use waiting_state acked_ready in \<open>simp_all add: live_manager_def replay_waiting\<close>)
  then show ?thesis
    unfolding cut_gateway_def
    by (rule_tac c = "client_io LJ broken (Read 1) (pm_client live_manager)" in gstep.private_stream [of _ live_gateway, unfolded live_gateway_def, simplified, folded live_gateway_def])
qed

lemma cut_run:
  "(gstep LJ live_net F split)\<^sup>*\<^sup>* (hear LJ (news (pm_client (gw_private new_gateway))
     (pm_client (gw_private live_gateway))) live_gateway) cut_gateway"
proof -
  have "news (pm_client (gw_private new_gateway)) (pm_client (gw_private live_gateway)) = []"
    by (simp add: news_def heard_def live_gateway_def live_manager_def replay_waiting acked_subscribed)
  then show ?thesis using cut_reachable by (simp add: hear_def r_into_rtranclp)
qed

lemma cut_not_live: "\<not> fst (isLive (gw_private cut_gateway))"
  using cut_session
  by (simp add: isLive_def ORDER_TOPIC_def EXECUTION_TOPIC_def cut_gateway_def private_io_def hear_eq client_io_def
      live_gateway_def live_manager_def replay_waiting client_isAuthenticated_def Let_def)

lemma gateway_can_go_live_witness:
  "\<exists>g2 g3. submitPostOnlyLimit LJ live_net ''c1'' ''BTCUSDT'' OSBuy 1 2 False cut_gateway =
      Some (Inl (GatewayError Throttled (gated_text ''submit'')), g2) \<and>
    (private_handler LJ)\<^sup>*\<^sup>* g2 g3 \<and> fst (isLive (gw_private g3))"
  using gateway_can_go_live [OF rtranclp.rtrancl_refl _ _ start_run [unfolded new_gateway_def] replay_io
      cut_run [where F = "\<lambda>_. []" and split = "\<lambda>_. []", unfolded new_gateway_def] live_venue cut_not_live]
  by simp

lemma cut_session_reachable: "reachable LJ (complete LJ broken (Read 1) acked)"
proof -
  have "gateway_ok LJ (''key'', ''secret'') False Mainnet 0 live_gateway"
    using live_gateway_reachable unfolding new_gateway_def by (rule run_ok)
  then have "reachable LJ acked"
    by (simp add: gateway_ok_def stream_ok_def client_ok_def live_gateway_def live_manager_def replay_waiting)
  moreover have "wstep LJ acked (complete LJ broken (Read 1) acked)"
    by (rule wstep.completion [OF acked_ready]) simp
  ultimately show ?thesis by (rule reachable.step)
qed

lemma cut_wants:
  "\<not> userClosed (complete LJ broken (Read 1) acked)" "isSubscribed ''order'' (complete LJ broken (Read 1) acked)"
  "\<not> isSubscriptionConfirmed ''order'' (complete LJ broken (Read 1) acked)"
  by code_simp+

lemma session_heals_itself_witness:
  "\<not> isSubscriptionConfirmed ''order'' (complete LJ broken (Read 1) acked) \<and>
   (\<exists>s'. (handler_step LJ)\<^sup>*\<^sup>* (complete LJ broken (Read 1) acked) s' \<and> connected s' \<and> isSubscriptionConfirmed ''order'' s')"
  using session_heals_itself [OF cut_session_reachable cut_wants(1) live_venue] cut_wants(2,3) by blast

section \<open>A rejected order\<close>










end
