(* ===== verification/History_Spec.thy ===== *)
theory History_Spec
  imports History
begin

text \<open>
  The candle download is complete. The venue is the list \<open>V\<close> of its candles, oldest first and
  at least one interval apart; a request anchors a window of at most \<open>n\<close> candles at the
  requested end, or at \<open>n\<close> intervals from the requested start when no end is given, and the
  answer is the newest candles up to there, newest first: the behaviour that the comments of
  \<open>getHistoricalPrices\<close> describe.
\<close>

section \<open>Windows of a venue\<close>

abbreviation t_of :: "Candle \<Rightarrow> int" where "t_of \<equiv> c_startTime"

definition spaced :: "int \<Rightarrow> Candle list \<Rightarrow> bool" where
  "spaced iv V = sorted_wrt (\<lambda>a b. t_of a + iv \<le> t_of b) V"

definition between :: "int \<Rightarrow> int \<Rightarrow> Candle list \<Rightarrow> Candle list" where
  "between a b V = filter (\<lambda>c. a \<le> t_of c \<and> t_of c \<le> b) V"

definition closed_between :: "int \<Rightarrow> int \<Rightarrow> int \<Rightarrow> Candle list \<Rightarrow> Candle list" where
  "closed_between iv a b V = filter (\<lambda>c. a \<le> t_of c \<and> t_of c + iv \<le> b) V"

definition newest :: "nat \<Rightarrow> int \<Rightarrow> Candle list \<Rightarrow> Candle list" where
  "newest n b V = (let xs = filter (\<lambda>c. t_of c \<le> b) V in drop (length xs - n) xs)"

definition kline_venue :: "'s fetch \<Rightarrow> int \<Rightarrow> nat \<Rightarrow> Candle list \<Rightarrow> bool" where
  "kline_venue fetch iv n V \<longleftrightarrow>
     (\<forall>a e s. \<exists>s'. fetch a e s =
        Some (Inr (rev (newest n (if e > 0 then e else a + (int n - 1) * iv) V)), s'))"

lemma spaced_filter: "spaced iv V \<Longrightarrow> spaced iv (filter P V)"
  by (simp add: spaced_def sorted_wrt_filter)

lemma spaced_append:
  "spaced iv (xs @ ys) \<longleftrightarrow> spaced iv xs \<and> spaced iv ys \<and> (\<forall>x \<in> set xs. \<forall>y \<in> set ys. t_of x + iv \<le> t_of y)"
  by (simp add: spaced_def sorted_wrt_append)

lemma spaced_last:
  "spaced iv (x # xs) \<Longrightarrow> t_of x + int (length xs) * iv \<le> t_of (last (x # xs))"
proof (induction xs arbitrary: x)
  case (Cons y ys)
  then have "t_of x + iv \<le> t_of y" "spaced iv (y # ys)" by (auto simp: spaced_def)
  with Cons.IH [of y] show ?case by (simp add: algebra_simps)
qed simp

lemma spaced_count:
  assumes "spaced iv xs" "0 < iv" "1 \<le> n" "\<forall>c \<in> set xs. a \<le> t_of c \<and> t_of c \<le> a + (int n - 1) * iv"
  shows "length xs \<le> n"
proof (cases xs)
  case (Cons y ys)
  have "t_of (last xs) \<in> t_of ` set xs" "t_of y \<in> t_of ` set xs" using Cons by auto
  with assms(4) have "t_of (last xs) \<le> a + (int n - 1) * iv" "a \<le> t_of y" by auto
  moreover have "t_of y + int (length ys) * iv \<le> t_of (last xs)" using spaced_last assms(1) Cons by blast
  ultimately have "int (length ys) * iv \<le> (int n - 1) * iv" by linarith
  with assms(2) have "int (length ys) \<le> int n - 1" by simp
  with Cons show ?thesis by simp
qed simp

lemma spaced_dropWhile:
  assumes "spaced iv xs" "0 \<le> iv"
  shows "dropWhile (\<lambda>c. t_of c < a) xs = filter (\<lambda>c. a \<le> t_of c) xs"
  using assms(1)
proof (induction xs)
  case (Cons x xs)
  show ?case
  proof (cases "t_of x < a")
    case False
    with Cons.prems assms(2) have "\<forall>y \<in> set (x # xs). a \<le> t_of y" by (auto simp: spaced_def)
    with False show ?thesis by (simp add: filter_id_conv)
  qed (use Cons in \<open>simp add: spaced_def\<close>)
qed simp

lemma trim_newest:
  assumes V: "spaced iv V" "0 < iv" "1 \<le> n" and b: "b \<le> a + (int n - 1) * iv"
  shows "trim a (newest n b V) = between a b V"
proof -
  define xs where "xs = filter (\<lambda>c. t_of c \<le> b) V"
  define tw where "tw = takeWhile (\<lambda>c. t_of c < a) xs"
  define dw where "dw = dropWhile (\<lambda>c. t_of c < a) xs"
  have xs: "spaced iv xs" "xs = tw @ dw" using V(1) by (simp_all add: xs_def tw_def dw_def spaced_filter)
  have dw: "dw = between a b V"
    using spaced_dropWhile [OF xs(1)] V(2) by (simp add: dw_def xs_def between_def conj_commute)
  have "length dw \<le> n"
    using V b xs(1) by (intro spaced_count [of iv dw n a]) (auto simp: dw between_def spaced_filter)
  then have "drop (length xs - n) xs = drop (length xs - n) tw @ dw" using xs(2) by simp
  moreover have "\<forall>c \<in> set (drop (length xs - n) tw). t_of c < a"
    by (auto simp: tw_def dest!: in_set_dropD set_takeWhileD)
  moreover have "dropWhile (\<lambda>c. t_of c < a) dw = dw" by (simp add: dw_def)
  ultimately show ?thesis by (simp add: trim_def newest_def Let_def xs_def [symmetric] dropWhile_append2 dw)
qed

lemma newest_Nil: "1 \<le> n \<Longrightarrow> newest n b V = [] \<longleftrightarrow> (\<forall>c \<in> set V. b < t_of c)"
proof -
  assume n: "1 \<le> n"
  define xs where "xs = filter (\<lambda>c. t_of c \<le> b) V"
  have "drop (length xs - n) xs = [] \<longleftrightarrow> xs = []" using n by (cases xs) auto
  then show ?thesis by (auto simp: newest_def Let_def xs_def filter_empty_conv not_le)
qed

lemma newest_last: "newest n b V \<noteq> [] \<Longrightarrow> last (newest n b V) = last (filter (\<lambda>c. t_of c \<le> b) V)"
  by (simp add: newest_def Let_def last_drop)

lemma newest_reaches:
  assumes "spaced iv V" "0 < iv" "1 \<le> n" "a \<le> b"
  shows "newest n b V \<noteq> [] \<and> a \<le> t_of (last (newest n b V)) \<longleftrightarrow> between a b V \<noteq> []"
proof
  assume l: "newest n b V \<noteq> [] \<and> a \<le> t_of (last (newest n b V))"
  then have "last (newest n b V) \<in> set (filter (\<lambda>c. t_of c \<le> b) V)"
    using last_in_set newest_def by (metis (mono_tags, lifting) in_set_dropD)
  with l show "between a b V \<noteq> []" by (auto simp: between_def filter_empty_conv)
next
  assume "between a b V \<noteq> []"
  then obtain c where c: "c \<in> set V" "a \<le> t_of c" "t_of c \<le> b" by (auto simp: between_def filter_empty_conv)
  then have n: "newest n b V \<noteq> []" using assms(3) by (auto simp: newest_Nil not_less)
  define xs where "xs = filter (\<lambda>c. t_of c \<le> b) V"
  have xs: "spaced iv xs" "c \<in> set xs" using assms(1) c by (simp_all add: xs_def spaced_filter)
  then have "xs \<noteq> []" by auto
  then have "spaced iv (butlast xs @ [last xs])" using xs by simp
  then have "\<forall>x \<in> set (butlast xs). t_of x + iv \<le> t_of (last xs)" by (simp add: spaced_append)
  moreover have "c \<in> set (butlast xs) \<or> c = last xs" using xs(2) \<open>xs \<noteq> []\<close>
    by (metis append_butlast_last_id in_set_conv_decomp rotate1.simps(2) set_ConsD set_rotate1)
  ultimately have "t_of c \<le> t_of (last xs)" using assms(2) by force
  with n c newest_last [OF n] show "newest n b V \<noteq> [] \<and> a \<le> t_of (last (newest n b V))" by (simp add: xs_def)
qed

section \<open>One round\<close>

lemma probe_finds:
  assumes V: "spaced iv V" "0 < iv" "1 \<le> n" and w: "w = (int n - 1) * iv"
    and venue: "kline_venue fetch iv n V" and a: "0 < a"
  shows "\<exists>s'. (probe fetch w to a s = Some (Inr None, s') \<and> between a to V = []) \<or>
    (\<exists>a' cs b. probe fetch w to a s = Some (Inr (Some (a', cs)), s') \<and>
       trim a' cs = between a b V \<and> between a b V \<noteq> [])"
  using a
proof (induction "nat (to + 1 - a)" arbitrary: a s rule: less_induct)
  case less
  have w0: "0 \<le> w" using V w by simp
  show ?case
  proof (cases "a \<le> to")
    case False
    then have "between a to V = []" by (auto simp: between_def filter_empty_conv)
    with False show ?thesis by (subst probe.simps) auto
  next
    case True
    define e where "e = min to (a + w)"
    have e: "a \<le> e" "0 < e" "e \<le> a + w" "e \<le> to" using True less.prems w0 by (auto simp: e_def)
    obtain s1 where f: "fetch a e s = Some (Inr (rev (newest n e V)), s1)"
      using venue e(2) unfolding kline_venue_def by (metis (full_types))
    note reach = newest_reaches [OF V e(1)]
    show ?thesis
    proof (cases "between a e V = []")
      case False
      then have "probe fetch w to a s = Some (Inr (Some (a, newest n e V)), s1)"
        using reach True f by (subst probe.simps) (auto simp: e_def [symmetric] Let_def)
      moreover have "trim a (newest n e V) = between a e V" using trim_newest [OF V] e(3) w by simp
      ultimately show ?thesis using False by blast
    next
      case empty: True
      then have step: "probe fetch w to a s = probe fetch w to (e + 1) s1"
        using reach True f by (subst probe.simps) (auto simp: e_def [symmetric] Let_def)
      have skip: "between a b V = between (e + 1) b V" for b
        using empty e(1) by (auto simp: between_def filter_empty_conv intro!: filter_cong)
      have "nat (to + 1 - (e + 1)) < nat (to + 1 - a)" using e True by simp
      from less.hyps [OF this, of s1] e(2) show ?thesis unfolding step skip [symmetric] by simp
    qed
  qed
qed

lemma resume_finds:
  assumes V: "spaced iv V" "0 < iv" "1 \<le> n" and w: "w = (int n - 1) * iv"
    and venue: "kline_venue fetch iv n V" and a: "0 < a" and ne: "newest n (a + w) V \<noteq> []"
  shows "\<exists>s'. (resume_at fetch w to a (newest n (a + w) V) s = Some (Inr None, s') \<and> between a to V = []) \<or>
    (\<exists>b. resume_at fetch w to a (newest n (a + w) V) s = Some (Inr (Some (between a b V)), s') \<and>
       between a b V \<noteq> [])"
proof -
  let ?cs = "newest n (a + w) V"
  have trimmed: "trim a ?cs = between a (a + w) V" using trim_newest [OF V, of "a + w" a] w by simp
  have "a \<le> a + w" using V w by simp
  note reach = newest_reaches [OF V this]
  show ?thesis
  proof (cases "t_of (last ?cs) < a")
    case True
    have "?cs \<noteq> [] \<Longrightarrow> t_of (hd ?cs) < a"
    proof -
      have "spaced iv ?cs" using V(1) by (simp add: newest_def Let_def spaced_def sorted_wrt_drop sorted_wrt_filter)
      then have "t_of (hd ?cs) + int (length (tl ?cs)) * iv \<le> t_of (last ?cs)"
        using spaced_last [of iv "hd ?cs" "tl ?cs"] ne by simp
      moreover have "0 \<le> int (length (tl ?cs)) * iv" using V(2) by simp
      ultimately have "t_of (hd ?cs) \<le> t_of (last ?cs)" by linarith
      with True show ?thesis by simp
    qed
    with ne have hd: "t_of (hd ?cs) < a" by simp
    from probe_finds [OF V w venue a, of to s] obtain s' where
      "(probe fetch w to a s = Some (Inr None, s') \<and> between a to V = []) \<or>
       (\<exists>a' cs b. probe fetch w to a s = Some (Inr (Some (a', cs)), s') \<and>
          trim a' cs = between a b V \<and> between a b V \<noteq> [])" by blast
    with True hd show ?thesis by (auto simp: resume_at_def bindP_step)
  next
    case False
    then have b: "between a (a + w) V \<noteq> []" using reach ne by simp
    have "trim a ?cs = ?cs" if "\<not> t_of (hd ?cs) < a" using that by (cases ?cs) (simp_all add: trim_def)
    then have "resume_at fetch w to a ?cs s = Some (Inr (Some (trim a ?cs)), s)"
      using False by (simp add: resume_at_def)
    with b trimmed show ?thesis by auto
  qed
qed

section \<open>The whole download\<close>

text \<open>
  The result of a download from \<open>a\<close>: the candles that start and end in the range; or all that start
  in it, but only when the venue has a candle that starts after it, so that the last of them is closed
  too. The writer was given at least the same candles.
\<close>

definition history_result :: "int \<Rightarrow> int \<Rightarrow> int \<Rightarrow> Candle list \<Rightarrow> Candle list \<Rightarrow> Candle list list \<Rightarrow> bool" where
  "history_result iv a to V xs written \<longleftrightarrow>
     (xs = closed_between iv a to V \<or> xs = between a to V \<and> (\<exists>c \<in> set V. to < t_of c)) \<and>
     xs = filter (\<lambda>c. t_of c \<le> to) (concat written)"

text \<open>Splitting the range after a batch.\<close>

lemma spaced_gap:
  "spaced iv V \<Longrightarrow> 0 < iv \<Longrightarrow> x \<in> set V \<Longrightarrow> y \<in> set V \<Longrightarrow> t_of x < t_of y \<Longrightarrow> t_of x + iv \<le> t_of y"
  by (induction V) (fastforce simp: spaced_def)+

lemma filter_split:
  "spaced iv V \<Longrightarrow> 0 < iv \<Longrightarrow>
     filter P V = filter (\<lambda>c. P c \<and> t_of c \<le> l) V @ filter (\<lambda>c. P c \<and> l < t_of c) V"
proof (induction V)
  case (Cons x V)
  then have IH: "filter P V = filter (\<lambda>c. P c \<and> t_of c \<le> l) V @ filter (\<lambda>c. P c \<and> l < t_of c) V"
    by (simp add: spaced_def)
  have "filter (\<lambda>c. P c \<and> t_of c \<le> l) V = []" if "l < t_of x"
    using Cons.prems that by (force simp: spaced_def filter_empty_conv)
  with IH show ?case by auto
qed simp

lemma spaced_le_last:
  assumes "spaced iv cs" "0 < iv" "c \<in> set cs"
  shows "t_of c \<le> t_of (last cs)"
proof -
  have "cs = butlast cs @ [last cs]" using assms(3) by (cases cs) auto
  then have "spaced iv (butlast cs @ [last cs])" "c \<in> set (butlast cs) \<or> c = last cs"
    using assms by (auto, metis Un_iff set_ConsD set_append empty_iff list.set(1))
  with assms(2) show ?thesis by (force simp: spaced_append)
qed

lemma batch_prefix:
  assumes V: "spaced iv V" "0 < iv" and cs: "cs @ ys = between a b V" "cs \<noteq> []"
  shows "cs = filter (\<lambda>c. a \<le> t_of c \<and> t_of c \<le> t_of (last cs)) V" and "a \<le> t_of (last cs)" and "last cs \<in> set V"
proof -
  let ?l = "t_of (last cs)"
  have sp: "spaced iv (cs @ ys)" using V(1) cs(1) by (simp add: between_def spaced_filter)
  have "last cs \<in> set (cs @ ys)" using cs(2) by simp
  then have l: "a \<le> ?l" "?l \<le> b" "last cs \<in> set V" by (auto simp: cs(1) between_def)
  have "\<forall>x \<in> set cs. \<forall>y \<in> set ys. t_of x + iv \<le> t_of y" using sp by (simp add: spaced_append)
  then have "\<forall>y \<in> set ys. \<not> t_of y \<le> ?l" using last_in_set [OF cs(2)] V(2) by fastforce
  moreover have "\<forall>x \<in> set cs. t_of x \<le> ?l" using sp spaced_le_last V(2) by (auto simp: spaced_append)
  ultimately have "cs = filter (\<lambda>c. t_of c \<le> ?l) (cs @ ys)" by simp
  also have "\<dots> = filter (\<lambda>c. a \<le> t_of c \<and> t_of c \<le> ?l) V"
    using l(2) by (auto simp: cs(1) between_def intro!: filter_cong)
  finally show "cs = filter (\<lambda>c. a \<le> t_of c \<and> t_of c \<le> ?l) V" .
  show "a \<le> ?l" "last cs \<in> set V" using l by auto
qed

lemma between_split:
  assumes V: "spaced iv V" "0 < iv" and cs: "cs @ ys = between a b V" "cs \<noteq> []" and l: "t_of (last cs) \<le> to"
  shows "between a to V = cs @ between (t_of (last cs) + iv) to V"
    and "t_of (last cs) + iv \<le> to \<Longrightarrow> closed_between iv a to V = cs @ closed_between iv (t_of (last cs) + iv) to V"
    and "to < t_of (last cs) + iv \<Longrightarrow> between (t_of (last cs) + iv) to V = [] \<and>
      closed_between iv (t_of (last cs) + iv) to V = []"
proof -
  let ?l = "t_of (last cs)"
  note p = batch_prefix [OF V cs]
  have later: "?l < t_of c \<longleftrightarrow> ?l + iv \<le> t_of c" if "c \<in> set V" for c
    using spaced_gap [OF V p(3) that] V(2) by auto
  have "between a to V = filter (\<lambda>c. (a \<le> t_of c \<and> t_of c \<le> to) \<and> t_of c \<le> ?l) V
      @ filter (\<lambda>c. (a \<le> t_of c \<and> t_of c \<le> to) \<and> ?l < t_of c) V"
    unfolding between_def by (rule filter_split [OF V])
  also have "filter (\<lambda>c. (a \<le> t_of c \<and> t_of c \<le> to) \<and> t_of c \<le> ?l) V = cs"
    by (rule trans [OF filter_cong [OF refl] p(1) [symmetric]]) (use l in auto)
  also have "filter (\<lambda>c. (a \<le> t_of c \<and> t_of c \<le> to) \<and> ?l < t_of c) V = between (?l + iv) to V"
    unfolding between_def using later p(2) V(2) by (intro filter_cong) auto
  finally show "between a to V = cs @ between (?l + iv) to V" .
  show "closed_between iv a to V = cs @ closed_between iv (?l + iv) to V" if to: "?l + iv \<le> to"
  proof -
    have "closed_between iv a to V = filter (\<lambda>c. (a \<le> t_of c \<and> t_of c + iv \<le> to) \<and> t_of c \<le> ?l) V
        @ filter (\<lambda>c. (a \<le> t_of c \<and> t_of c + iv \<le> to) \<and> ?l < t_of c) V"
      unfolding closed_between_def by (rule filter_split [OF V])
    also have "filter (\<lambda>c. (a \<le> t_of c \<and> t_of c + iv \<le> to) \<and> t_of c \<le> ?l) V = cs"
      by (rule trans [OF filter_cong [OF refl] p(1) [symmetric]]) (use to V(2) in auto)
    also have "filter (\<lambda>c. (a \<le> t_of c \<and> t_of c + iv \<le> to) \<and> ?l < t_of c) V = closed_between iv (?l + iv) to V"
      unfolding closed_between_def using later p(2) V(2) by (intro filter_cong) auto
    finally show ?thesis .
  qed
  show "between (?l + iv) to V = [] \<and> closed_between iv (?l + iv) to V = []" if "to < ?l + iv"
    using that V(2) by (auto simp: between_def closed_between_def filter_empty_conv)
qed

lemma closed_between_Nil: "0 < iv \<Longrightarrow> between a to V = [] \<Longrightarrow> closed_between iv a to V = []"
  by (fastforce simp: between_def closed_between_def filter_empty_conv)

lemma history_result_step:
  assumes V: "spaced iv V" "0 < iv" and cs: "cs @ ys = between a b V" "cs \<noteq> []" and l: "t_of (last cs) \<le> to"
    and closed: "to < t_of (last cs) + iv \<Longrightarrow> \<exists>c \<in> set V. to < t_of c"
    and rest: "history_result iv (t_of (last cs) + iv) to V xs written"
  shows "history_result iv a to V (cs @ xs) (cs # written)"
proof -
  note split = between_split [OF V cs l]
  have "spaced iv cs" using V(1) cs(1) by (metis between_def spaced_append spaced_filter)
  then have "\<forall>c \<in> set cs. t_of c \<le> to" using spaced_le_last [OF _ V(2)] l by force
  moreover have "cs @ xs = closed_between iv a to V \<or> cs @ xs = between a to V \<and> (\<exists>c \<in> set V. to < t_of c)"
    using rest split closed by (cases "t_of (last cs) + iv \<le> to") (auto simp: history_result_def)
  ultimately show ?thesis using rest by (simp add: history_result_def)
qed

text \<open>A batch whose last candle is still open at \<open>to\<close>, and is dropped.\<close>

lemma open_last:
  assumes V: "spaced iv V" "0 < iv" and W: "W = between a b V" "W \<noteq> []" and l: "to < t_of (last W) + iv"
  shows "butlast W = [] \<Longrightarrow> closed_between iv a to V = []"
    and "butlast W \<noteq> [] \<Longrightarrow> to < t_of (last (butlast W)) \<Longrightarrow>
      between a to V = filter (\<lambda>c. t_of c \<le> to) (butlast W)"
proof -
  have W': "W @ [] = between a b V" "butlast W @ [last W] = between a b V" using W by simp_all
  note p = batch_prefix [OF V W'(1) W(2)]
  have in_W: "c \<in> set W" if "c \<in> set V" "a \<le> t_of c" "t_of c \<le> t_of (last W)" for c
    using that by (subst p(1)) simp
  have before: "t_of c \<le> t_of (last W)" if "c \<in> set V" "t_of c \<le> to" for c
    using spaced_gap [OF V p(3) that(1)] l that(2) by force
  show "closed_between iv a to V = []" if "butlast W = []"
  proof -
    have "set W = {last W}" using W(2) that by (cases W rule: rev_cases) auto
    then have "c = last W" if "c \<in> set V" "a \<le> t_of c" "t_of c + iv \<le> to" for c
      using in_W [OF that(1,2)] before [OF that(1)] that(3) V(2) by simp
    with l show ?thesis by (auto simp: closed_between_def filter_empty_conv)
  qed
  show "between a to V = filter (\<lambda>c. t_of c \<le> to) (butlast W)"
    if ne: "butlast W \<noteq> []" and past: "to < t_of (last (butlast W))"
  proof -
    have "spaced iv W" using V(1) W(1) by (simp add: between_def spaced_filter)
    then have "spaced iv (butlast W @ [last W])" using W(2) by simp
    then have "t_of (last (butlast W)) + iv \<le> t_of (last W)" using ne by (simp add: spaced_append)
    then have past': "to < t_of (last W)" using past V(2) by linarith
    have "between a to V = filter (\<lambda>c. t_of c \<le> to) (filter (\<lambda>c. a \<le> t_of c \<and> t_of c \<le> t_of (last W)) V)"
      using past' by (auto simp: between_def intro!: filter_cong)
    also have "\<dots> = filter (\<lambda>c. t_of c \<le> to) (butlast W @ [last W])" using p(1) W(2) by simp
    finally show ?thesis using past' by simp
  qed
qed

text \<open>The batch the loop works on is never empty where the code takes its front and back.\<close>

lemma batch_nonempty: "candles \<noteq> [] \<Longrightarrow> \<not> t_of (last cs) < from \<Longrightarrow> cs \<noteq> [] \<Longrightarrow> trim from cs \<noteq> []"
  by (auto simp: trim_def dropWhile_eq_Nil_conv)

lemma historyLoop_complete:
  assumes V: "spaced iv V" "0 < iv" "1 \<le> n" and w: "w = (int n - 1) * iv"
    and venue: "kline_venue fetch iv n V"
  shows "0 < a \<Longrightarrow> newest n (a + w) V \<noteq> [] \<Longrightarrow>
    \<exists>xs written s'. historyLoop fetch (\<lambda>t. t + iv) w to a (rev (newest n (a + w) V)) acc wr s
      = Some (Inr (acc @ xs, wr @ written), s') \<and> history_result iv a to V xs written"
proof (induction "nat (to + 1 - a)" arbitrary: a acc wr s rule: less_induct)
  case less
  let ?cs = "newest n (a + w) V"
  from resume_finds [OF V w venue less.prems, of to s] obtain s1 where
    "(resume_at fetch w to a ?cs s = Some (Inr None, s1) \<and> between a to V = []) \<or>
     (\<exists>b. resume_at fetch w to a ?cs s = Some (Inr (Some (between a b V)), s1) \<and> between a b V \<noteq> [])"
    by blast
  then show ?case
  proof
    assume none: "resume_at fetch w to a ?cs s = Some (Inr None, s1) \<and> between a to V = []"
    then show ?thesis using less.prems(2)
      by (subst historyLoop.simps)
        (auto simp: history_result_def closed_between_Nil [OF V(2)] intro!: exI [of _ "[]"])
  next
    assume "\<exists>b. resume_at fetch w to a ?cs s = Some (Inr (Some (between a b V)), s1) \<and> between a b V \<noteq> []"
    then obtain b where r: "resume_at fetch w to a ?cs s = Some (Inr (Some (between a b V)), s1)"
      and W: "between a b V \<noteq> []" by blast
    define W' where "W' = drop_open (\<lambda>t. t + iv) to (between a b V)"
    have loop: "historyLoop fetch (\<lambda>t. t + iv) w to a (rev ?cs) acc wr s =
      (if W' = [] then Some (Inr (acc, wr), s1)
       else if to < t_of (last W') then Some (Inr (acc @ filter (\<lambda>c. t_of c \<le> to) W', wr @ [W']), s1)
       else case fetch (t_of (last W') + iv) 0 s1 of
          None \<Rightarrow> None
        | Some (Inl e, s2) \<Rightarrow> Some (Inl e, s2)
        | Some (Inr candles, s2) \<Rightarrow>
            historyLoop fetch (\<lambda>t. t + iv) w to (t_of (last W') + iv) candles (acc @ W') (wr @ [W']) s2)"
      using less.prems(2) r by (subst historyLoop.simps) (simp add: Let_def flip: W'_def)
    have prefix: "\<exists>ys. W' @ ys = between a b V"
      using W by (auto simp: W'_def drop_open_def intro: exI [of _ "[last (between a b V)]"])
    consider (empty) "W' = []" | (past) "W' \<noteq> []" "to < t_of (last W')" | (more) "W' \<noteq> []" "t_of (last W') \<le> to"
      by fastforce
    then show ?thesis
    proof cases
      case empty
      then have "to < t_of (last (between a b V)) + iv" "butlast (between a b V) = []"
        using W by (auto simp: W'_def drop_open_def split: if_splits)
      then have "history_result iv a to V [] []"
        using open_last(1) [OF V(1,2) refl W] by (simp add: history_result_def)
      with loop empty show ?thesis by (auto intro!: exI [of _ "[]"])
    next
      case past
      have "W' = butlast (between a b V) \<and> to < t_of (last (between a b V)) + iv"
        using past V(2) by (auto simp: W'_def drop_open_def split: if_splits)
      then have "between a to V = filter (\<lambda>c. t_of c \<le> to) W'"
        using open_last(2) [OF V(1,2) refl W] past by simp
      moreover have "last W' \<in> set V" using prefix batch_prefix(3) [OF V(1,2) _ past(1)] by blast
      ultimately have "history_result iv a to V (filter (\<lambda>c. t_of c \<le> to) W') [W']"
        using past(2) by (auto simp: history_result_def)
      with loop past show ?thesis by (auto intro!: exI)
    next
      case more
      obtain ys where ys: "W' @ ys = between a b V" using prefix by blast
      let ?a = "t_of (last W') + iv"
      note p = batch_prefix [OF V(1,2) ys more(1)]
      have a: "a < ?a" "0 < ?a" using p(2) V(2) less.prems(1) by simp_all
      obtain s2 where f: "fetch ?a 0 s1 = Some (Inr (rev (newest n (?a + w) V)), s2)"
        using venue w unfolding kline_venue_def by (metis less_irrefl)
      have "last W' \<in> set V" "t_of (last W') \<le> ?a + w" using p(3) V w by auto
      then have ne: "newest n (?a + w) V \<noteq> []" using V(3) by (force simp: newest_Nil not_less)
      have "nat (to + 1 - ?a) < nat (to + 1 - a)" using a(1) more(2) p(2) by simp
      from less.hyps [OF this a(2) ne, of "acc @ W'" "wr @ [W']" s2] obtain xs written s3 where
        "historyLoop fetch (\<lambda>t. t + iv) w to ?a (rev (newest n (?a + w) V)) (acc @ W') (wr @ [W']) s2
           = Some (Inr ((acc @ W') @ xs, (wr @ [W']) @ written), s3)" "history_result iv ?a to V xs written"
        by blast
      moreover have "\<exists>c \<in> set V. to < t_of c" if "to < t_of (last W') + iv"
      proof
        have "W' @ [last (between a b V)] = between a b V"
          using W that by (auto simp: W'_def drop_open_def split: if_splits)
        then have "spaced iv (W' @ [last (between a b V)])"
          by (simp only:) (simp add: between_def spaced_filter V(1))
        then have "\<forall>x \<in> set W'. t_of x + iv \<le> t_of (last (between a b V))" unfolding spaced_append by simp
        with last_in_set [OF more(1)] that show "to < t_of (last (between a b V))" by fastforce
        show "last (between a b V) \<in> set V" using last_in_set [OF W] by (auto simp: between_def)
      qed
      ultimately show ?thesis
        using loop more f history_result_step [OF V(1,2) ys more] by fastforce
    qed
  qed
qed

text \<open>
  C11. A candle download misses nothing, over gaps and relistings, and returns closed candles only. For
  a venue that answers as the comments of the code say, and an interval of fixed length (any but the
  month), the download returns. If the venue has a candle by the end of the first window, it
  returns the candles that start and end in the requested range, once each and in order; or all that
  start in it, when the venue already has a candle after the range. The writer gets the same
  candles, if need be more after the end. If the venue has no candle by then, it returns nothing.
\<close>

theorem history_complete:
  assumes "spaced (numberOfMsForCandleInterval interval) V" and "1 \<le> limit" and "0 < from" and "interval \<noteq> I_M"
    and "kline_venue fetch (numberOfMsForCandleInterval interval) (nat limit) V"
  shows "\<exists>xs written s'.
    history fetch (\<lambda>t. nextCandleStart t interval) (probe_window interval limit) from to s = Some (Inr (xs, written), s')
    \<and> (if \<exists>c \<in> set V. c_startTime c \<le> from + probe_window interval limit
       then history_result (numberOfMsForCandleInterval interval) from to V xs written
       else xs = [] \<and> written = [])"
proof -
  let ?iv = "numberOfMsForCandleInterval interval" and ?bound = "from + probe_window interval limit"
  have w: "probe_window interval limit = (int (nat limit) - 1) * ?iv" using assms(2) by (simp add: probe_window_def)
  have n: "1 \<le> nat limit" using assms(2) by simp
  have ne: "newest (nat limit) ?bound V = [] \<longleftrightarrow> \<not> (\<exists>c \<in> set V. c_startTime c \<le> ?bound)"
    using n by (auto simp: newest_Nil not_le)
  have next_eq: "(\<lambda>t. nextCandleStart t interval) = (\<lambda>t. t + ?iv)" using assms(4) by (simp add: nextCandleStart_def)
  obtain s1 where f: "fetch from 0 s = Some (Inr (rev (newest (nat limit) ?bound V)), s1)"
    using assms(5) w unfolding kline_venue_def by (metis less_irrefl)
  show ?thesis
  proof (cases "newest (nat limit) ?bound V = []")
    case True
    have "historyLoop fetch succ (probe_window interval limit) to from [] [] [] s1 = Some (Inr ([], []), s1)" for succ
      by (subst historyLoop.simps) simp
    with True f ne show ?thesis by (simp add: history_def bindP_step)
  next
    case False
    obtain xs written s' where
      "historyLoop fetch (\<lambda>t. t + ?iv) (probe_window interval limit) to from
         (rev (newest (nat limit) ?bound V)) [] [] s1
       = Some (Inr ([] @ xs, [] @ written), s')" "history_result ?iv from to V xs written"
      using historyLoop_complete [OF assms(1) numberOfMs_pos n w assms(5,3) False] by blast
    with f ne False show ?thesis by (auto simp: history_def bindP_step next_eq)
  qed
qed

text \<open>A venue with a gap, as a witness; and what the writer can be given.\<close>

definition candle_at :: "int \<Rightarrow> Candle" where
  "candle_at t = Candle_init\<lparr>c_startTime := t\<rparr>"

definition demo_fetch :: "int list \<Rightarrow> nat \<Rightarrow> unit fetch" where
  "demo_fetch ts n a e s =
     Some (Inr (rev (newest n (if e > 0 then e else a + (int n - 1) * 60000) (map candle_at ts))), s)"

lemma history_complete_witness:
  "\<exists>xs written. history (demo_fetch [60000, 120000, 600000] 2) (\<lambda>t. nextCandleStart t I_1)
       (probe_window I_1 2) 60000 700000 () = Some (Inr (xs, written), ())
     \<and> map c_startTime xs = [60000, 120000, 600000]"
proof -
  let ?V = "map candle_at [60000, 120000, 600000]"
  have iv: "numberOfMsForCandleInterval I_1 = 60000" by simp
  have "spaced (numberOfMsForCandleInterval I_1) ?V" by (simp add: spaced_def candle_at_def)
  moreover have "kline_venue (demo_fetch [60000, 120000, 600000] 2) (numberOfMsForCandleInterval I_1) (nat 2) ?V"
    by (simp add: kline_venue_def demo_fetch_def)
  moreover have "\<exists>c \<in> set ?V. c_startTime c \<le> 60000 + probe_window I_1 2"
    by (simp add: candle_at_def probe_window_def)
  ultimately obtain xs written s' where
    run: "history (demo_fetch [60000, 120000, 600000] 2) (\<lambda>t. nextCandleStart t I_1)
       (probe_window I_1 2) 60000 700000 () = Some (Inr (xs, written), s')" and
    "history_result (numberOfMsForCandleInterval I_1) 60000 700000 ?V xs written"
    using history_complete [of I_1 ?V 2 60000 "demo_fetch [60000, 120000, 600000] 2" 700000 "()"] by auto
  then have "xs = ?V" by (auto simp: history_result_def between_def closed_between_def candle_at_def)
  with run show ?thesis by (simp add: candle_at_def)
qed

text \<open>The writer can be given candles that start after the requested end.\<close>

lemma writer_gets_newer:
  "history (demo_fetch [60000, 120000, 180000] 3) (\<lambda>t. nextCandleStart t I_1) (probe_window I_1 3) 60000 60000 ()
     = Some (Inr ([candle_at 60000], [[candle_at 60000, candle_at 120000]]), ())"
  by (simp add: history_def bindP_def demo_fetch_def newest_def candle_at_def probe_window_def historyLoop.simps
      resume_at_def drop_open_def nextCandleStart_def)

section \<open>Funding rates\<close>

abbreviation f_at :: "FundingRate \<Rightarrow> int" where "f_at \<equiv> fr_fundingRateTimestamp"

definition funding_between :: "int \<Rightarrow> int \<Rightarrow> FundingRate list \<Rightarrow> FundingRate list" where
  "funding_between a b V = filter (\<lambda>c. a \<le> f_at c \<and> f_at c \<le> b) V"

text \<open>The venue answers with the newest \<open>n\<close> rates of the range, newest first.\<close>

definition funding_venue ::
  "(int \<Rightarrow> int \<Rightarrow> ('s, FundingRate list) proc) \<Rightarrow> nat \<Rightarrow> FundingRate list \<Rightarrow> bool" where
  "funding_venue fetch n V \<longleftrightarrow>
     (\<forall>a e s. \<exists>s'. fetch a e s = Some (Inr (rev (
        let xs = funding_between a e V in drop (length xs - n) xs)), s'))"

lemma fundingLoop_complete:
  assumes V: "sorted_wrt (\<lambda>x y. f_at x + 2 \<le> f_at y) V" and n: "1 \<le> n" and venue: "funding_venue fetch n V"
  shows "a < e \<Longrightarrow> \<exists>s'. fundingLoop fetch a e acc s = Some (Inr (funding_between a e V @ rev acc), s')"
proof (induction "nat (e - a)" arbitrary: e acc s rule: less_induct)
  case less
  define xs where "xs = funding_between a e V"
  define us where "us = take (length xs - n) xs"
  define B where "B = drop (length xs - n) xs"
  have xs: "xs = us @ B" by (simp add: us_def B_def)
  obtain s1 where f: "fetch a e s = Some (Inr (rev B), s1)"
    using venue unfolding funding_venue_def B_def xs_def by (metis (no_types))
  show ?case
  proof (cases "B = []")
    case True
    then have "xs = []" using n by (cases xs) (auto simp: B_def)
    with True f less.prems show ?thesis by (subst fundingLoop.simps) (simp add: xs_def)
  next
    case False
    then obtain b B' where B: "B = b # B'" by (cases B) auto
    have sorted: "sorted_wrt (\<lambda>x y. f_at x + 2 \<le> f_at y) (us @ B)"
      using V xs by (metis funding_between_def sorted_wrt_filter xs_def)
    let ?e = "f_at b - 1"
    have b: "a \<le> f_at b" "f_at b \<le> e"
    proof -
      have "b \<in> set xs" using xs B by simp
      then show "a \<le> f_at b" "f_at b \<le> e" by (auto simp: xs_def funding_between_def)
    qed
    have us: "\<forall>u \<in> set us. f_at u + 2 \<le> f_at b" and B'': "\<forall>x \<in> set B. f_at b \<le> f_at x"
      using sorted by (auto simp: B sorted_wrt_append)
    have "funding_between a ?e V = filter (\<lambda>c. f_at c \<le> ?e) xs"
      using b by (auto simp: xs_def funding_between_def intro!: filter_cong)
    also have "\<dots> = us"
    proof -
      have "filter (\<lambda>c. f_at c \<le> ?e) us = us" using us by (intro filter_True) fastforce
      moreover have "filter (\<lambda>c. f_at c \<le> ?e) B = []" using B'' by (fastforce simp: filter_empty_conv)
      ultimately show ?thesis by (simp add: xs)
    qed
    finally have rest: "funding_between a ?e V = us" .
    have loop: "fundingLoop fetch a e acc s = fundingLoop fetch a ?e (acc @ rev B) s1"
      using f less.prems B by (subst fundingLoop.simps) simp
    show ?thesis
    proof (cases "a < ?e")
      case True
      then have "nat (?e - a) < nat (e - a)" using b by simp
      from less.hyps [OF this True, of "acc @ rev B" s1] show ?thesis
        unfolding loop rest by (simp add: xs flip: xs_def)
    next
      case stop: False
      have "us = []"
      proof (rule ccontr)
        assume "us \<noteq> []"
        then have "hd us \<in> set us" by simp
        moreover from this have "a \<le> f_at (hd us)" by (auto simp: us_def xs_def funding_between_def dest!: in_set_takeD)
        ultimately show False using us stop by fastforce
      qed
      with stop show ?thesis unfolding loop by (subst fundingLoop.simps) (simp add: xs flip: xs_def)
    qed
  qed
qed

text \<open>
  C25. The funding history is complete and in order: for a venue that answers with the newest rates
  of the requested range, at most \<open>n\<close> at a time, the backward paging returns, and returns
  every rate from the start to the end, both included, oldest first.
\<close>

theorem funding_complete:
  assumes "sorted_wrt (\<lambda>x y. fr_fundingRateTimestamp x + 2 \<le> fr_fundingRateTimestamp y) V" and "1 \<le> n"
    and "funding_venue fetch n V" and "startTime < endTime"
  shows "\<exists>s'. fundingLoop fetch startTime endTime [] s = Some (Inr (funding_between startTime endTime V), s')"
  using fundingLoop_complete [OF assms, of "[]" s] by simp

definition funding_at :: "int \<Rightarrow> FundingRate" where
  "funding_at t = FundingRate_init\<lparr>fr_fundingRateTimestamp := t\<rparr>"

lemma funding_complete_witness:
  "map fr_fundingRateTimestamp (case fundingLoop (\<lambda>a e s. Some (Inr (rev (
      let xs = funding_between a e (map funding_at [10, 20, 30]) in drop (length xs - 2) xs)), s)) 10 30 [] () of
     Some (Inr xs, _) \<Rightarrow> xs | _ \<Rightarrow> []) = [10, 20, 30]"
proof -
  let ?V = "map funding_at [10, 20, 30]"
  let ?f = "\<lambda>a e (s :: unit). Some (Inr (rev (let xs = funding_between a e ?V in drop (length xs - 2) xs)) :: FundingRate list res, s)"
  have "funding_venue ?f 2 ?V" by (simp add: funding_venue_def)
  then show ?thesis
    using funding_complete [of ?V 2 ?f 10 30 "()"] by (auto simp: funding_at_def funding_between_def)
qed

end
