(* ===== verification/Archive.thy ===== *)
theory Archive
  imports Rest_Client
begin

text \<open>
  The archive of a delisted spot symbol (\<^verbatim>\<open>src/bybit_rest_client.cpp\<close>): the newest daily
  file of its directory page, decompressed, and the time of the last trade in it. zlib is the
  record \<open>zlib\<close> on a stream state \<open>'z\<close>: \<open>z_inflate\<close> gives the return code and the bytes put
  out by one call with a fresh output buffer.
\<close>

section \<open>Decompressing\<close>

record 'z zlib =
  z_init :: "string \<Rightarrow> 'z option"
  z_inflate :: "'z \<Rightarrow> int \<times> string \<times> 'z"

definition Z_STREAM_END :: int where "Z_STREAM_END = 1"
definition Z_STREAM_ERROR :: int where "Z_STREAM_ERROR = - 2"
definition Z_DATA_ERROR :: int where "Z_DATA_ERROR = - 3"
definition Z_MEM_ERROR :: int where "Z_MEM_ERROR = - 4"
definition Z_BUF_ERROR :: int where "Z_BUF_ERROR = - 5"

partial_function (option) inflateLoop :: "'z zlib \<Rightarrow> string \<Rightarrow> 'z \<Rightarrow> string res option" where
  "inflateLoop Z acc z =
     (case z_inflate Z z of (code, out, z') \<Rightarrow>
        if code = Z_STREAM_ERROR \<or> code = Z_DATA_ERROR \<or> code = Z_MEM_ERROR then
          Some (Inl (RuntimeError (''inflate failed: '' @ int_to_string code)))
        else if code \<noteq> Z_STREAM_END then inflateLoop Z (acc @ out) z'
        else Some (Inr (acc @ out)))"

declare inflateLoop.simps [code]

definition decompressGzip :: "'z zlib \<Rightarrow> string \<Rightarrow> string res option" where
  "decompressGzip Z compressed =
     (case z_init Z compressed of
        None \<Rightarrow> Some (Inl (RuntimeError ''inflateInit2 failed''))
      | Some z \<Rightarrow> inflateLoop Z [] z)"

section \<open>The newest file of a directory page\<close>

text \<open>
  The matches of \<^verbatim>\<open>SYMBOL_(dddd-dd-dd).csv.gz\<close>, left to right and not overlapping: the
  date and the file name. The symbol stands for itself, as one of letters and digits does.
\<close>

definition is_date :: "string \<Rightarrow> bool" where
  "is_date d = (length d = 10 \<and>
     (\<forall>i \<in> {0, 1, 2, 3, 5, 6, 8, 9}. is_digit (d ! i)) \<and> d ! 4 = CHR ''-'' \<and> d ! 7 = CHR ''-'')"

definition file_at :: "string \<Rightarrow> string \<Rightarrow> (string \<times> string) option" where
  "file_at symbol s =
     (let pre = symbol @ ''_'';
          date = take 10 (drop (length pre) s);
          name = pre @ date @ ''.csv.gz'' in
      if starts_with name s \<and> is_date date then Some (date, name) else None)"

function dailyFiles :: "string \<Rightarrow> string \<Rightarrow> (string \<times> string) list" where
  "dailyFiles symbol [] = []"
| "dailyFiles symbol (c # cs) =
     (case file_at symbol (c # cs) of
        Some (date, name) \<Rightarrow> (date, name) # dailyFiles symbol (drop (length name) (c # cs))
      | None \<Rightarrow> dailyFiles symbol cs)"
  by pat_completeness auto
termination
  by (relation "measure (\<lambda>(_, s). length s)") (auto simp: file_at_def Let_def split: if_splits)

definition newer_file :: "string \<times> string \<Rightarrow> string \<times> string \<Rightarrow> string \<times> string" where
  "newer_file f latest = (if str_less (fst latest) (fst f) then f else latest)"

definition latestFile :: "(string \<times> string) list \<Rightarrow> string" where
  "latestFile files = snd (fold newer_file files ([], []))"

section \<open>The last trade\<close>

definition spot_dir :: "string \<Rightarrow> string" where
  "spot_dir symbol = ''/spot/'' @ symbol @ ''/''"

text \<open>One attempt: what is thrown is caught by the caller, so it is a value here.\<close>

definition public_request :: "('j, 'w) net \<Rightarrow> string \<Rightarrow> ('w rclient, response) proc" where
  "public_request N path s = (case public_get N path (r_world s) of (r, w) \<Rightarrow> Some (r, s\<lparr>r_world := w\<rparr>))"

definition lastTradeAttempt :: "'z zlib \<Rightarrow> ('j, 'w) net \<Rightarrow> string \<Rightarrow> ('w, int) rproc" where
  "lastTradeAttempt Z N symbol =
     bindP (public_request N (spot_dir symbol)) (\<lambda>dir.
       let latest = latestFile (dailyFiles symbol (resp_body dir)) in
       if latest = [] then ret 0
       else
         bindP (public_request N (spot_dir symbol @ latest)) (\<lambda>file.
         bindP (\<lambda>s. map_option (\<lambda>r. (r, s)) (decompressGzip Z (resp_body file))) (\<lambda>csv.
         liftR (lastCsvTimestamp csv))))"

text \<open>At most three attempts; the argument counts those left.\<close>

fun lastTradeAttempts :: "'z zlib \<Rightarrow> ('j, 'w) net \<Rightarrow> string \<Rightarrow> nat \<Rightarrow> ('w, int) rproc" where
  "lastTradeAttempts Z N symbol 0 s = Some (Inr 0, s)"
| "lastTradeAttempts Z N symbol (Suc left) s =
     (case lastTradeAttempt Z N symbol s of
        None \<Rightarrow> None
      | Some (Inr t, s') \<Rightarrow> Some (Inr t, s')
      | Some (Inl _, s') \<Rightarrow>
          if left > 0 then
            lastTradeAttempts Z N symbol left
              (s'\<lparr>r_world := sleep_ms N (1000 * 2 ^ (2 - left)) (public_renew N (r_world s'))\<rparr>)
          else Some (Inr 0, s'))"

definition fetchLastTimestampForDelistedSpotSymbol :: "'z zlib \<Rightarrow> ('j, 'w) net \<Rightarrow> string \<Rightarrow> ('w, int) rproc" where
  "fetchLastTimestampForDelistedSpotSymbol Z N symbol = lastTradeAttempts Z N symbol 3"

section \<open>Properties\<close>

text \<open>The timestamp that was printed into the last line is the one that is read back.\<close>

lemma takeWhile_stop: "\<forall>x \<in> set xs. P x \<Longrightarrow> \<not> P y \<Longrightarrow> takeWhile P (xs @ y # ys) = xs"
  by (simp add: takeWhile_append2)

lemma dropWhile_stop: "\<forall>x \<in> set xs. P x \<Longrightarrow> \<not> P y \<Longrightarrow> dropWhile P (xs @ y # ys) = y # ys"
  by (simp add: dropWhile_append2)

lemma nat_to_string_no: "\<not> is_digit c \<Longrightarrow> c \<notin> set (nat_to_string n)"
  using nat_to_string_digits by blast

text \<open>
  What a trade file ends with is read back: whatever comes before the last line, however many
  line ends follow it, the time printed in its second field is the result.
\<close>

theorem csv_time_read_back:
  "(if int t \<le> INT64_MAX
    then lastCsvTimestamp (earlier @ [CHR 0x0A] @ filter (\<lambda>c. c \<noteq> CHR '','' \<and> \<not> is_eol c) tid @ '','' @ nat_to_string t
           @ '','' @ filter (\<lambda>c. \<not> is_eol c) rest @ ''x'' @ replicate n (CHR 0x0A)) = Inr (int t)
    else True)"
proof (cases "int t \<le> INT64_MAX")
  case True
  define i where "i = filter (\<lambda>c. c \<noteq> CHR '','' \<and> \<not> is_eol c) tid"
  define r where "r = filter (\<lambda>c. \<not> is_eol c) rest"
  let ?num = "nat_to_string t"
  have num: "c \<in> set ?num \<Longrightarrow> is_digit c" for c using nat_to_string_digits by blast
  have eol: "is_eol (CHR 0x0A)" by (simp add: is_eol_def)
  let ?line = "i @ '','' @ ?num @ '','' @ r @ ''x''"
  let ?csv = "earlier @ [CHR 0x0A] @ i @ '','' @ ?num @ '','' @ r @ ''x'' @ replicate n (CHR 0x0A)"
  have "dropWhile is_eol (rev ?csv) = rev (earlier @ [CHR 0x0A] @ ?line)"
  proof -
    have "dropWhile is_eol (replicate n (CHR 0x0A) @ CHR ''x'' # rev (earlier @ [CHR 0x0A] @ i @ '','' @ ?num @ '','' @ r))
            = CHR ''x'' # rev (earlier @ [CHR 0x0A] @ i @ '','' @ ?num @ '','' @ r)"
      by (rule dropWhile_stop) (auto simp: eol, simp add: is_eol_def)
    then show ?thesis by simp
  qed
  then have body: "rev (dropWhile is_eol (rev ?csv)) = earlier @ [CHR 0x0A] @ ?line" by simp
  have no_nl: "\<forall>c \<in> set ?line. c \<noteq> CHR 0x0A"
    by (auto simp: i_def r_def is_eol_def is_digit_def dest!: num)
  have line: "rev (takeWhile (\<lambda>c. c \<noteq> CHR 0x0A) (rev (earlier @ [CHR 0x0A] @ ?line))) = ?line"
  proof -
    have "\<forall>c \<in> set (rev ?line). c \<noteq> CHR 0x0A" using no_nl by auto
    then have "takeWhile (\<lambda>c. c \<noteq> CHR 0x0A) (rev ?line @ CHR 0x0A # rev earlier) = rev ?line"
      by (rule takeWhile_stop) simp
    then show ?thesis by simp
  qed
  have after: "dropWhile (\<lambda>c. c \<noteq> CHR '','') ?line = '','' @ ?num @ '','' @ r @ ''x''"
    using dropWhile_stop [of i "\<lambda>c. c \<noteq> CHR '',''" "CHR '',''"] by (simp add: i_def)
  have field: "takeWhile (\<lambda>c. c \<noteq> CHR '','') (?num @ '','' @ r @ ''x'') = ?num"
  proof -
    have "takeWhile (\<lambda>c. c \<noteq> CHR '','') (?num @ CHR '','' # r @ ''x'') = ?num"
      by (rule takeWhile_stop) (auto simp: is_digit_def dest!: num)
    then show ?thesis by simp
  qed
  have "stoll ?num = Inr (int t)"
    using True scan_nat_to_string [of t] by (simp add: stoll_def scan_within_def int_limits)
  then have "lastCsvTimestamp ?csv = Inr (int t)"
    unfolding lastCsvTimestamp_def Let_def body line after using field by simp
  with True show ?thesis by (simp add: i_def r_def)
qed simp

text \<open>
  A truncated archive is never given up: once zlib can make no more progress (it says so with
  \<open>Z_BUF_ERROR\<close> and puts out nothing), the decompression loop runs for ever, and with it the
  whole lookup; it neither fails nor retries.
\<close>

theorem truncated_archive_diverges:
  assumes "z_init Z compressed = Some z" and "z_inflate Z z = (Z_BUF_ERROR, [], z)"
  shows "decompressGzip Z compressed = None"
proof -
  have "\<not> (acc_z = Z \<and> z' = z)" if "inflateLoop acc_z acc z' = Some y" for acc_z acc z' y
    by (rule inflateLoop.raw_induct [OF _ that, where P = "\<lambda>Z' acc z' y. \<not> (Z' = Z \<and> z' = z)"])
      (use assms(2) in \<open>auto simp: Z_BUF_ERROR_def Z_STREAM_END_def Z_STREAM_ERROR_def Z_DATA_ERROR_def Z_MEM_ERROR_def; blast\<close>)
  then show ?thesis using assms(1) by (cases "inflateLoop Z [] z") (auto simp: decompressGzip_def)
qed

lemma truncated_archive_diverges_witness:
  "decompressGzip \<lparr>z_init = Some, z_inflate = (\<lambda>z. (Z_BUF_ERROR, [], z))\<rparr> ''half'' = None"
  by (rule truncated_archive_diverges) simp_all

end
