(* ===== verification/Tests.thy ===== *)
theory Tests
  imports Ws_Session_Runs History_Spec
begin

text \<open>
  What the programs under \<^verbatim>\<open>test/\<close> check, as theorems about the model: the
  acknowledgement test of the session (\<^verbatim>\<open>ws_session_ack_test.cpp\<close>), run on the model of
  the session, and the check of a downloaded history (\<^verbatim>\<open>checkCandles\<close> of
  \<^verbatim>\<open>main.cpp\<close>).
\<close>

section \<open>The acknowledgement test\<close>

definition test_inflight :: "string \<Rightarrow> string list \<Rightarrow> 'j session \<Rightarrow> 'j session" where
  "test_inflight reqId topics s =
     s\<lparr>subscriptions := subscriptions s @ topics, inflightSubscribes := AList.update reqId topics (inflightSubscribes s)\<rparr>"

definition test_ack :: "'j jops \<Rightarrow> bool \<Rightarrow> string \<Rightarrow> 'j session \<Rightarrow> 'j session res" where
  "test_ack J success reqId s =
     (let j = j_obj J [(''op'', j_str J ''subscribe''), (''success'', j_bool J success),
                (''ret_msg'', j_str J (if success then [] else ''internal server error''))];
          j = (if reqId \<noteq> [] then j_set J j ''req_id'' (j_str J reqId) else j) in
      handleApiControlMsg J calm 0 j s)"

text \<open>A block of the test: acks one after the other, each followed by its checks.\<close>

fun test_block :: "'j jops \<Rightarrow> 'j session \<Rightarrow> (bool \<times> string \<times> ('j session \<Rightarrow> bool)) list \<Rightarrow> bool" where
  "test_block J s [] = True"
| "test_block J s ((success, reqId, check) # acks) =
     (case test_ack J success reqId s of Inl x \<Rightarrow> False | Inr s' \<Rightarrow> check s' \<and> test_block J s' acks)"

definition ack_test_1 :: "'j jops \<Rightarrow> bool" where
  "ack_test_1 J =
     (let s = test_inflight ''1'' [''order'', ''execution''] (fresh_session False) in
      isSubscribed ''order'' s \<and> \<not> isSubscriptionConfirmed ''order'' s \<and>
      test_block J s [(True, ''1'', \<lambda>s. isSubscriptionConfirmed ''order'' s \<and> isSubscriptionConfirmed ''execution'' s)])"

definition ack_test_2 :: "'j jops \<Rightarrow> bool" where
  "ack_test_2 J =
     test_block J (test_inflight ''10'' [''tickers.BTCUSDT'']
         (test_inflight ''9'' [''order'', ''execution''] (fresh_session False)))
       [(False, [], \<lambda>s. \<not> isSubscribed ''order'' s \<and> \<not> isSubscribed ''execution'' s \<and>
           length (inflightSubscribes s) = 1 \<and> ''10'' \<in> set (map fst (inflightSubscribes s))),
        (True, [], \<lambda>s. isSubscriptionConfirmed ''tickers.BTCUSDT'' s \<and> inflightSubscribes s = [])]"

definition ack_test_3 :: "'j jops \<Rightarrow> bool" where
  "ack_test_3 J =
     test_block J (test_inflight ''3'' [''execution''] (test_inflight ''2'' [''order''] (fresh_session False)))
       [(True, [], \<lambda>s. isSubscriptionConfirmed ''order'' s \<and> \<not> isSubscriptionConfirmed ''execution'' s)]"

definition ack_test_4 :: "'j jops \<Rightarrow> bool" where
  "ack_test_4 J =
     test_block J (test_inflight ''4'' [''order''] (fresh_session False))
       [(False, ''77'', \<lambda>s. isSubscribed ''order'' s \<and> ''4'' \<in> set (map fst (inflightSubscribes s)))]"

definition ws_session_ack_test :: "'j jops \<Rightarrow> bool" where
  "ws_session_ack_test J = (ack_test_1 J \<and> ack_test_2 J \<and> ack_test_3 J \<and> ack_test_4 J)"

text \<open>
  The model of the session passes the repository's own test of its acknowledgement handling:
  an ack with an id confirms the topics of that op; a failure without an id is attributed to the
  oldest op by number (9 before 10) and prunes its topics, and to no other; a success without an
  id confirms only the oldest; an unknown id is attributed to nothing.
\<close>

theorem session_passes_ack_test: "ws_session_ack_test (mini (\<lambda>_. None))"
  by code_simp

section \<open>The check of a downloaded history\<close>

text \<open>The loop compares each candle with the next; an empty list fails.\<close>

definition checkCandles :: "Candle list \<Rightarrow> CandleInterval \<Rightarrow> bool" where
  "checkCandles candles interval =
     (candles \<noteq> [] \<and> list_all (\<lambda>i. c_startTime (candles ! (i + 1)) - c_startTime (candles ! i) = numberOfMsForCandleInterval interval)
        [0..<length candles - 1])"

lemma checkCandles_Cons:
  "checkCandles (x # y # cs) interval \<longleftrightarrow>
     c_startTime y - c_startTime x = numberOfMsForCandleInterval interval \<and> checkCandles (y # cs) interval"
proof -
  have "[0..<Suc n] = 0 # map Suc [0..<n]" for n by (simp add: map_Suc_upt upt_conv_Cons del: upt_Suc)
  then show ?thesis by (simp add: checkCandles_def list.pred_map comp_def del: upt_Suc)
qed

lemma checkCandles_single [simp]: "checkCandles [x] interval" "\<not> checkCandles [] interval"
  by (simp_all add: checkCandles_def)

text \<open>A range of a gapless list is gapless.\<close>

lemma checkCandles_later:
  assumes "checkCandles (x # cs) interval" and "c \<in> set cs"
  shows "c_startTime x < c_startTime c"
  using assms
proof (induction cs arbitrary: x)
  case (Cons y cs)
  have "0 < numberOfMsForCandleInterval interval" by simp
  with Cons.prems(1) have "c_startTime x < c_startTime y" "checkCandles (y # cs) interval"
    unfolding checkCandles_Cons by linarith+
  with Cons.IH [of y] Cons.prems show ?case by (cases "c = y") auto
qed simp

lemma checkCandles_range:
  assumes "checkCandles V interval"
    and "filter (\<lambda>c. a \<le> c_startTime c \<and> c_startTime c \<le> b) V \<noteq> []"
  shows "checkCandles (filter (\<lambda>c. a \<le> c_startTime c \<and> c_startTime c \<le> b) V) interval"
  using assms
proof (induction V)
  case (Cons x V)
  let ?f = "filter (\<lambda>c. a \<le> c_startTime c \<and> c_startTime c \<le> b)"
  show ?case
  proof (cases V)
    case (Cons y V')
    have y: "c_startTime y - c_startTime x = numberOfMsForCandleInterval interval" "checkCandles V interval"
      using Cons.prems(1) Cons by (simp_all add: checkCandles_Cons)
    have up: "c_startTime x < c_startTime y" using checkCandles_later [OF Cons.prems(1), of y] Cons by simp
    show ?thesis
    proof (cases "a \<le> c_startTime x \<and> c_startTime x \<le> b")
      case True
      show ?thesis
      proof (cases "c_startTime y \<le> b")
        case True
        have "?f V = y # ?f V'" using up Cons \<open>a \<le> c_startTime x \<and> _\<close> True by simp
        moreover have "checkCandles (?f V) interval" using calculation by (intro Cons.IH [OF y(2)]) simp
        ultimately show ?thesis using y(1) \<open>a \<le> c_startTime x \<and> _\<close> by (simp add: checkCandles_Cons)
      next
        case False
        have "b < c_startTime c" if "c \<in> set V" for c
          using that False checkCandles_later [of y V' interval c] y(2) Cons by fastforce
        then have "?f V = []" by (fastforce simp: filter_empty_conv)
        with True Cons show ?thesis by simp
      qed
    next
      case False
      with Cons.prems y Cons.IH show ?thesis by auto
    qed
  qed (use Cons.prems in \<open>simp split: if_splits\<close>)
qed simp

text \<open>
  On a market without gaps the download passes the check, unless the range holds no closed candle.
\<close>

theorem history_passes_check:
  assumes "checkCandles V interval"
    and "history_result (numberOfMsForCandleInterval interval) from to V xs written" and "xs \<noteq> []"
  shows "checkCandles xs interval"
proof -
  let ?iv = "numberOfMsForCandleInterval interval"
  have "closed_between ?iv from to V = between from (to - ?iv) V"
    unfolding closed_between_def between_def by (rule filter_cong) auto
  moreover have "xs = between from to V \<or> xs = closed_between ?iv from to V"
    using assms(2) unfolding history_result_def by blast
  ultimately obtain b where "xs = between from b V" by metis
  with checkCandles_range [OF assms(1)] assms(3) show ?thesis by (simp add: between_def)
qed

end
