(* ===== verification/Spec2Isabelle.thy ===== *)
theory Spec2Isabelle
  imports Candle_Time Models_Market Models_Order Event_Models Topic_Book Live_Answer Rate_Limiter Gateway_Spec
    Gateway_Demo History_Spec Http_Spec Archive Connectors Platform Tests
begin

text \<open>
  A verification library for \<^verbatim>\<open>stonky::bybit\<close>, the C++ client of the Bybit V5 API.

  The program. \<^verbatim>\<open>HTTPSession\<close> makes one signed HTTPS request; \<^verbatim>\<open>RESTClient\<close>
  is the API of the venue over it, with a rate limiter and a cache of instruments.
  \<^verbatim>\<open>WebSocketSession\<close> is one self-healing stream connection, \<^verbatim>\<open>WebSocketClient\<close>
  owns one and the thread it runs on, and two stream managers turn its messages into quotes and
  candles (public) and into order updates and fills (private). \<^verbatim>\<open>BybitExecutionGateway\<close>
  puts the three together: orders go out over REST, fills come back over the private stream, and
  what the stream lost in a gap is read back over REST. Two exchange connectors expose parts of
  the REST client through a generic interface, and a module registers them with a host program.

  Which theory models what.
  \<^item> \<open>Prelude\<close>, \<open>Decimals\<close>, \<open>Doubles\<close>: procedures with state, exceptions and divergence
    (\<open>proc\<close>), strings, decimal numerals of the standard library, rounded double arithmetic.
  \<^item> \<open>Json_Ops\<close>: the JSON operations the sources use, a parameter; \<open>Mini_Json\<close>: one instance
    of it, for concrete runs.
  \<^item> \<open>Enums\<close>, \<open>Candle_Time\<close>: \<^verbatim>\<open>bybit_enums.h\<close>, \<^verbatim>\<open>bybit.cpp\<close>, \<open>nextCandleStart\<close> with
    the calendar of \<^verbatim>\<open>std::chrono\<close>.
  \<^item> \<open>Models_Account\<close>, \<open>Models_Market\<close>, \<open>Models_Order\<close>, \<open>Event_Models\<close>: the structs of
    \<^verbatim>\<open>bybit_models\<close> and \<^verbatim>\<open>bybit_event_models\<close> and their parsers, a sequence of reads each
    of which may throw.
  \<^item> \<open>Http_Session\<close>, \<open>Http_Spec\<close>: \<^verbatim>\<open>bybit_http_session.cpp\<close>.
  \<^item> \<open>Rest_Core\<close>, \<open>Rest_Client\<close>, \<open>Rest_Spec\<close>, \<open>Rate_Limiter\<close>: what an answer means, the
    limiter and the endpoints of \<^verbatim>\<open>bybit_rest_client.cpp\<close>; \<open>History\<close>, \<open>History_Spec\<close>: its
    candle and funding downloads; \<open>Archive\<close>: the last trade of a delisted spot symbol.
  \<^item> \<open>Ws_Session\<close>, \<open>Ws_Session_Inv\<close>, \<open>Ws_Session_Props\<close>, \<open>Ws_Session_Spec\<close>,
    \<open>Ws_Session_Life\<close>, \<open>Ws_Session_Runs\<close>: \<^verbatim>\<open>bybit_ws_session.cpp\<close>, its invariants, its
    properties and concrete runs; \<open>Topic_Session\<close>: the interface a stream manager sees;
    \<open>Topic_Book\<close>: the book of topics that the session refines; \<open>Ws_Session_Heal\<close>: how it
    recovers; \<open>Tests\<close>: the session's own test, \<^verbatim>\<open>ws_session_ack_test.cpp\<close>, run on the model,
    and \<^verbatim>\<open>checkCandles\<close> of \<^verbatim>\<open>test/main.cpp\<close>.
  \<^item> \<open>Threads\<close>: programs of atomic steps, and when one of them is atomic to its callers;
    \<open>Ws_Session_Threads\<close>: the handlers of the session statement by statement, between the calls
    of other threads; \<open>Live_Answer\<close>: what an answer put together from several calls is worth.
  \<^item> \<open>Ws_Client\<close>, \<open>Ws_Private\<close>, \<open>Ws_Public\<close>, \<open>Ws_Public_Spec\<close>: \<^verbatim>\<open>bybit_ws_client.cpp\<close> and
    the two stream managers.
  \<^item> \<open>Stream_Io\<close>: what the io threads do to the two streams; the settings of a session.
  \<^item> \<open>Gateway\<close>, \<open>Gateway_Spec\<close>: \<^verbatim>\<open>bybit_execution_gateway.cpp\<close>; \<open>Gateway_Runs\<close>: the gateway
    at work, with its io threads; \<open>Gateway_Live\<close>: how it recovers; \<open>Gateway_Stack\<close>: the gateway on the REST client on the HTTPS
    sessions; \<open>Gateway_Demo\<close>: concrete runs, from the constructor to a posted order.
  \<^item> \<open>Connectors\<close>: the futures and the spot connector, and the sessions of a REST client.
  \<^item> \<open>Platform\<close>: \<^verbatim>\<open>tls_verify.h\<close> and \<^verbatim>\<open>bybit_module.h\<close>.
\<close>

text \<open>
  How the code is modelled. A class with state is a record and each method a function on it; a
  method that may throw or not return is a \<open>proc\<close>: \<open>None\<close> when it does not return, else an
  exception (\<open>Inl\<close>) or a value (\<open>Inr\<close>) and the new state, which an exception does not roll
  back. The exception types of the sources are the constructors of \<open>exn\<close>. A loop without a bound
  in the code is a \<open>partial_function (option)\<close>, so that running for ever is \<open>None\<close>; a loop with
  one is a \<open>fun\<close> over the attempts left (3 for the archive and the listings of public symbols,
  20 pages of executions, 100 polls in \<open>start\<close>, 12 decimals): the bounds are the code's. The one
  argument that is not the code's is the depth of \<open>signingTimestamp\<close>, which signs a request to
  learn the time that it signs with; \<open>time_sync_recursion\<close> shows that two levels are enough.

  The session is asynchronous: starting an operation, arming a timer and posting a handler add to
  the list of pending operations, and a step (\<open>wstep\<close>) runs the handler of one of them with
  whatever it reads from outside, or calls a method. Every interleaving of completions, timers and
  calls is a sequence of steps; \<open>reachable\<close> is what they lead to. The steps of the gateway (\<open>gstep\<close>)
  are the calls of its interface, the handlers of the two io threads (\<open>io_step\<close>, \<open>pio\<close>) with what the
  managers and the gateway's callbacks make of the message a handler has read, the passing of time,
  and changes of the world. In the managers and the
  gateway, what the io thread does while a caller sleeps is an arbitrary function \<open>io\<close> of the
  state, so a property of a waiting operation holds whatever arrives meanwhile. The same holds for
  what it does while a snapshot is requested over REST (\<open>during\<close>; for a read of a quote, \<open>io 0\<close>).

  That a handler and a call of the session may be taken as one step each is not assumed but shown.
  In \<open>Ws_Session_Threads\<close> a handler is a \<open>thread\<close>: a step for each group of statements between the
  sections under \<^verbatim>\<open>locker\<close>, one for each section. A call is the section it takes, which may come
  between any two steps, and the handler it posts comes later. The step relation \<open>tstep\<close> is that of
  this machine, \<open>astep\<close> that of the session with the calls and their answers recorded.

  Parameters. The JSON library and its readers, \<^verbatim>\<open>formatDouble\<close>, \<^verbatim>\<open>splitString\<close>, the hash
  with its encoding, the transport, zlib, the clocks and the venue are arguments of the
  definitions: none of them is under \<^verbatim>\<open>src/\<close>. What a property needs of them is a hypothesis
  in its statement: the rules by which the venue answers a window of candles or of funding rates
  (\<open>kline_venue\<close>, \<open>funding_venue\<close>, as the comments of the code describe them), a clock that
  advances, a sleep that lasts at least as long as asked (\<open>honest_clock\<close>). Integers of the code
  are \<open>int\<close>, with the limits written out where text is converted; doubles are rationals rounded
  to 53 bits after each operation, without overflow, infinities or NaN.
\<close>

text \<open>
  What is shown.
  \<^item> Money. An order is reported gone only when its fills are accounted for and emitted; an
    unknown outcome of the REST client is thrown on as it is, but for code 170007 and a status of 600
    or more, which the gateway does not know; and over the HTTPS
    sessions a reject rests on an answer of the venue, or nothing was sent (\<open>Gateway_Stack\<close>); in every state of a running
    gateway nothing is submitted without a connected, authenticated private session with both topics
    confirmed, its sessions and caches are well-formed, and a message of the private stream is worth
    exactly the fills and updates in it (\<open>Gateway_Runs\<close>); a gateway that was started can always
    go live again without a restart (\<open>Gateway_Live\<close>); an order carries the steps of its own symbol or is not sent, and the startup recovery
    cancels exactly the orders with the given prefix (\<open>Gateway_Spec\<close>, \<open>Rest_Spec\<close>). A fill reads
    the same from both feeds, and the error codes that REST prints are read back by the gateway.
  \<^item> Listings and histories. Executions, open orders, positions and instruments are the whole
    listing or an exception; the candle download returns every closed candle of the range and no open one, over
    gaps and relistings, and ends, if the venue has a candle by the end of its first window; so does the funding download (\<open>History_Spec\<close>).
  \<^item> Streams. No topic is lost but by an unsubscribe or a rejection; a topic counts as confirmed
    only by an acknowledgement on the current connection; an error prepares the replay of every
    topic; a session that is open can always recover, connected, authenticated and with every topic
    confirmed, by what it has pending alone (\<open>Ws_Session_Heal\<close>); a closed one never does; at most one read and
    one write are outstanding; stale completions change nothing (\<open>Ws_Session_Spec\<close>,
    \<open>Ws_Session_Life\<close>). All of it refines a book of wanted and confirmed topics: every
    step of the session is a step of the book with its cause, a call, an ack that answers the op that
    carried the topics, or a lost connection, which costs the confirmations and no topic. The session
    passes the repository's test of its acknowledgements (\<open>Tests\<close>). The stream is live exactly when both private topics are confirmed.
    Its calls are linearizable: whatever they fall in between, they and the handlers are in some
    order atomic steps, with the same answers (\<open>Ws_Session_Threads\<close>); so two topics answered
    confirmed, one after the other, mean a connection that was up at the second answer and a first
    topic that was confirmed then too or on a connection replaced since (\<open>Live_Answer\<close>).
  \<^item> Quotes. What \<open>lastQuote\<close> returns is no older than the age limit, a read ends, and a message
    that does not parse never refreshes a quote (\<open>Ws_Public_Spec\<close>).
  \<^item> Requests. A response is that of a whole exchange, every operation of which ended well and in time;
    a failed exchange is always the exception that stands for an unknown outcome; a
    signature covers exactly the query that is sent, and signing returns (\<open>Http_Spec\<close>). Without rate headers
    at most eleven requests leave in any second (\<open>Rate_Limiter\<close>).

  Interfaces. \<open>topic_session\<close> (what a manager relies on) is interpreted on the session, on the
  client and on a client wired to its endpoint; \<open>page_source\<close> (a cursor-paged listing) on the four
  listings of the REST client; \<open>reliable_net\<close> (how a request may fail) on the HTTPS sessions.

  Not modelled: log lines (but those handed to a logger callback, which are kept), the mutexes and
  atomics of the other classes (their calls are taken one at a time, but for what the io threads do
  while one of them waits or requests), \<^verbatim>\<open>isAuthenticated\<close> between the statements of a handler (it
  reads an atomic that is written apart from the sections), a topic or an API key that is not UTF-8
  (printing a frame of the session with it throws; for the body of an order this is modelled), counters that
  overflow (generations and request ids are unbounded), \<^verbatim>\<open>llround\<close> out of range, callbacks that call back into the
  gateway, operations that only throw
  \<^verbatim>\<open>Unimplemented\<close>, and the programs under \<^verbatim>\<open>test/\<close> that only talk to the live venue. The headers
  that declare classes hold nothing but the declarations of what is modelled from the sources.
\<close>

end
